(* ===== verification/Prelude.thy ===== *)
theory Prelude
  imports Complex_Main "HOL-Library.Word"
begin

text \<open>
  Shared vocabulary of the development: the names of the model's basic types, a bind for
  the error-or-result sum type in which every C++ exception and every \<open>QL_REQUIRE\<close>
  failure of the code is a left value, the decimal rendering of \<open>std::to_string\<close> on
  \<open>std::size_t\<close> with its round trip, and list lemmas on indexed update and on
  \<open>those\<close> that the component theories use for the C++ \<open>std::vector\<close> loops.
\<close>

named_theorems model_simps \<open>characteristic equations of the modelled operations\<close>

type_synonym node = nat
  \<comment> \<open>a node index of the computation graph (\<open>std::size_t\<close>)\<close>

type_synonym operand = "real list"
  \<comment> \<open>a \<open>RandomVariable\<close>: one value per Monte Carlo path\<close>

subsection \<open>Error-or-result values\<close>

definition sbind :: "'e + 'a \<Rightarrow> ('a \<Rightarrow> 'e + 'b) \<Rightarrow> 'e + 'b" where
  "sbind m f = (case m of Inl e \<Rightarrow> Inl e | Inr a \<Rightarrow> f a)"

text \<open>A \<open>for\<close> loop over a list whose body may throw: the first failure is the result.\<close>

fun sfold :: "('x \<Rightarrow> 's \<Rightarrow> 'e + 's) \<Rightarrow> 'x list \<Rightarrow> 's \<Rightarrow> 'e + 's" where
  "sfold f [] s = Inr s"
| "sfold f (x # xs) s = sbind (f x s) (sfold f xs)"

text \<open>Mapping a throwing function over a list, stopping at the first failure.\<close>

fun smap :: "('a \<Rightarrow> 'e + 'b) \<Rightarrow> 'a list \<Rightarrow> 'e + 'b list" where
  "smap f [] = Inr []"
| "smap f (x # xs) = sbind (f x) (\<lambda>y. sbind (smap f xs) (\<lambda>ys. Inr (y # ys)))"

text \<open>\<open>v[i]\<close> of a \<open>std::vector\<close> read out of range is undefined behaviour in C++; the
  model makes it the error value \<open>e\<close>, so that no theorem can depend on it silently.\<close>

definition nth_checked :: "'e \<Rightarrow> 'a list \<Rightarrow> nat \<Rightarrow> 'e + 'a" where
  "nth_checked e xs i = (if i < length xs then Inr (xs ! i) else Inl e)"

subsection \<open>Decimal rendering of sizes (\<open>std::to_string\<close>)\<close>

definition digit_char :: "nat \<Rightarrow> char" where
  "digit_char d = char_of (48 + d)"

fun nat_to_string :: "nat \<Rightarrow> string" where
  "nat_to_string n =
     (if n < 10 then [digit_char n] else nat_to_string (n div 10) @ [digit_char (n mod 10)])"

declare nat_to_string.simps [simp del]

definition digit_value :: "char \<Rightarrow> nat" where
  "digit_value c = of_char c - 48"

definition string_to_nat :: "string \<Rightarrow> nat" where
  "string_to_nat s = foldl (\<lambda>acc c. 10 * acc + digit_value c) 0 s"

subsection \<open>Error-or-result lemmas\<close>

lemma sbind_Inl [simp]: "sbind (Inl e) f = Inl e"
  by (simp add: sbind_def)

lemma sbind_Inr [simp]: "sbind (Inr a) f = f a"
  by (simp add: sbind_def)

lemma sbind_eq_Inr [simp]: "sbind m f = Inr b \<longleftrightarrow> (\<exists>a. m = Inr a \<and> f a = Inr b)"
  by (cases m) auto

lemma sbind_eq_Inl: "sbind m f = Inl e \<longleftrightarrow> m = Inl e \<or> (\<exists>a. m = Inr a \<and> f a = Inl e)"
  by (cases m) auto

lemma sfold_append: "sfold f (xs @ ys) s = sbind (sfold f xs s) (sfold f ys)"
  by (induction xs arbitrary: s) (auto simp: sbind_def split: sum.splits)

lemma sfold_Inr_step:
  assumes "sfold f (xs @ [x]) s = Inr t"
  obtains u where "sfold f xs s = Inr u" and "f x u = Inr t"
  using assms by (auto simp: sfold_append)

lemma sfold_preserves:
  assumes "sfold f xs s = Inr s'" and "P s"
    and "\<And>x s s'. x \<in> set xs \<Longrightarrow> P s \<Longrightarrow> f x s = Inr s' \<Longrightarrow> P s'"
  shows "P s'"
  using assms by (induction xs arbitrary: s) auto

lemma sfold_InlE:
  assumes "sfold f xs s = Inl e"
  obtains x s' where "x \<in> set xs" and "f x s' = Inl e"
  using assms by (induction xs arbitrary: s) (auto simp: sbind_eq_Inl)

lemma sfold_check_Inr:
  "sfold (\<lambda>i u. if Q i then Inr u else Inl e) xs u = Inr u' \<longleftrightarrow> (\<forall>i \<in> set xs. Q i) \<and> u' = u"
  by (induction xs) auto

lemma sfold_check_find:
  "sfold (\<lambda>j u. if P j then Inr u else Inl (E j)) xs u =
   (case find (\<lambda>j. \<not> P j) xs of None \<Rightarrow> Inr u | Some j \<Rightarrow> Inl (E j))"
  by (induction xs) auto

lemma sfold_Inr_ex_indep:
  assumes "\<And>x s. (\<exists>t. f x s = Inr t) \<longleftrightarrow> Q x"
  shows "(\<exists>r. sfold f xs s = Inr r) \<longleftrightarrow> (\<forall>x \<in> set xs. Q x)"
proof (induction xs arbitrary: s)
  case (Cons x xs)
  show ?case
  proof (cases "Q x")
    case True
    then obtain t where "f x s = Inr t" using assms by blast
    then show ?thesis using Cons.IH [of t] True by simp
  next
    case False
    then have "\<forall>t. f x s \<noteq> Inr t" using assms by blast
    then show ?thesis using False by (cases "f x s") auto
  qed
qed simp

lemma smap_Inr_iff: "smap f xs = Inr ys \<longleftrightarrow> list_all2 (\<lambda>x y. f x = Inr y) xs ys"
  by (induction xs arbitrary: ys) (auto simp: list_all2_Cons1)

lemma nth_checked_Inr [simp]: "i < length xs \<Longrightarrow> nth_checked e xs i = Inr (xs ! i)"
  by (simp add: nth_checked_def)

subsection \<open>Lists\<close>

lemma those_eq_Some_iff: "those xs = Some ys \<longleftrightarrow> xs = map Some ys"
  by (induction xs arbitrary: ys) (auto split: option.splits)

lemma those_map_Some_iff:
  "those (map f xs) = Some ys \<longleftrightarrow> length ys = length xs \<and> (\<forall>i < length xs. f (xs ! i) = Some (ys ! i))"
  by (auto simp: those_eq_Some_iff list_eq_iff_nth_eq)

lemma those_map_None_iff: "those (map f xs) = None \<longleftrightarrow> (\<exists>x \<in> set xs. f x = None)"
  by (induction xs) (auto split: option.splits)

lemma fold_update_const_nth:
  "k < length xs \<Longrightarrow> fold (\<lambda>i ys. ys[i := v]) is xs ! k = (if k \<in> set is then v else xs ! k)"
  by (induction "is" arbitrary: xs) auto

lemma fold_update_length [simp]: "length (fold (\<lambda>i ys. ys[i := v i]) is xs) = length xs"
  by (induction "is" arbitrary: xs) auto

lemma sorted_wrt_less_snoc:
  "sorted_wrt (<) xs \<Longrightarrow> xs \<noteq> [] \<Longrightarrow> last xs < (y :: 'a::linorder) \<Longrightarrow> sorted_wrt (<) (xs @ [y])"
proof -
  assume s: "sorted_wrt (<) xs" and ne: "xs \<noteq> []" and l: "last xs < y"
  have "x < y" if "x \<in> set xs" for x
  proof -
    obtain i where i: "i < length xs" "xs ! i = x" using \<open>x \<in> set xs\<close> by (auto simp: in_set_conv_nth)
    have "xs ! i \<le> last xs"
    proof (cases "i = length xs - 1")
      case True
      then show ?thesis using ne by (simp add: last_conv_nth)
    next
      case False
      then have "xs ! i < xs ! (length xs - 1)" using s i(1) by (simp add: sorted_wrt_iff_nth_less)
      then show ?thesis using ne by (simp add: last_conv_nth)
    qed
    then show ?thesis using i l by simp
  qed
  then show ?thesis using s by (simp add: sorted_wrt_append)
qed

lemma map_nth_upt_drop: "b = length xs \<Longrightarrow> map (\<lambda>j. f (xs ! j)) [a..<b] = map f (drop a xs)"
  by (simp add: list_eq_iff_nth_eq)

lemma append_sep_inj:
  assumes "a @ c # s = b @ c # t" and "c \<notin> set s" and "c \<notin> set t"
  shows "a = b \<and> s = t"
proof -
  have tw: "takeWhile (\<lambda>x. x \<noteq> c) (rev y @ c # z) = rev y" if "c \<notin> set y" for y z
    using that by (induction y rule: rev_induct) auto
  have "rev s = rev t"
    using tw [of s "rev a"] tw [of t "rev b"] arg_cong [OF assms(1), of rev] assms(2,3) by simp
  then show ?thesis
    using assms(1) by simp
qed

lemma sfold_Inr_fold:
  assumes "\<And>x vs. x \<in> set xs \<Longrightarrow> Q vs \<Longrightarrow> f x vs = Inr (h x vs) \<and> Q (h x vs)" and "Q vs"
  shows "sfold f xs vs = Inr (fold h xs vs) \<and> Q (fold h xs vs)"
  using assms by (induction xs arbitrary: vs) auto

lemma fold_point_update_hit:
  assumes "distinct (map f cs)" and "c \<in> set cs" and "f c < length vs"
  shows "fold (\<lambda>c vs. vs[f c := g c (vs ! f c)]) cs vs ! f c = g c (vs ! f c)"
  using assms
proof (induction cs arbitrary: vs)
  case (Cons d cs)
  show ?case
  proof (cases "d = c")
    case True
    have "f c \<notin> f ` set cs" using Cons.prems(1) True by simp
    moreover have "fold (\<lambda>c vs. vs[f c := g c (vs ! f c)]) cs ws ! n = ws ! n"
      if "n \<notin> f ` set cs" for ws n
      using that by (induction cs arbitrary: ws) (auto simp: nth_list_update_neq)
    ultimately show ?thesis using True Cons.prems(3) by simp
  next
    case False
    then have "f d \<noteq> f c" using Cons.prems(1,2) by (auto simp: image_iff)
    then show ?thesis using Cons False by (simp add: nth_list_update_neq)
  qed
qed simp

lemma fold_point_update_miss:
  "n \<notin> f ` set cs \<Longrightarrow> fold (\<lambda>c vs. vs[f c := g c (vs ! f c)]) cs vs ! n = vs ! n"
  by (induction cs arbitrary: vs) (auto simp: nth_list_update_neq)

lemma fold_point_update_length [simp]:
  "length (fold (\<lambda>c vs. vs[f c := g c (vs ! f c)]) cs vs) = length vs"
  by (induction cs arbitrary: vs) auto

lemma distinct_concat_nth_inj:
  assumes "distinct (concat xss)" and "k < length xss" and "k' < length xss"
    and "j < length (xss ! k)" and "j' < length (xss ! k')" and "xss ! k ! j = xss ! k' ! j'"
  shows "k = k' \<and> j = j'"
  using assms
proof (induction xss arbitrary: k k')
  case (Cons ys xss)
  have d: "distinct ys" "distinct (concat xss)" "set ys \<inter> set (concat xss) = {}"
    using Cons.prems(1) by auto
  show ?case
  proof (cases k)
    case 0
    show ?thesis
    proof (cases k')
      case 0
      then show ?thesis using \<open>k = 0\<close> Cons.prems d(1) by (simp add: nth_eq_iff_index_eq)
    next
      case (Suc i')
      then have "xss ! i' \<in> set xss" and "xss ! i' ! j' \<in> set (xss ! i')"
        using Cons.prems by simp_all
      then have "xss ! i' ! j' \<in> set (concat xss)" by auto
      moreover have "ys ! j \<in> set ys" using Cons.prems(4) \<open>k = 0\<close> by simp
      ultimately show ?thesis using Cons.prems(6) \<open>k = 0\<close> Suc d(3) by auto
    qed
  next
    case (Suc i)
    show ?thesis
    proof (cases k')
      case 0
      then have "ys ! j' \<in> set ys" using Cons.prems(5) by simp
      moreover have "xss ! i \<in> set xss" and "xss ! i ! j \<in> set (xss ! i)"
        using Cons.prems(2,4) Suc by simp_all
      then have "xss ! i ! j \<in> set (concat xss)" by auto
      ultimately show ?thesis using Cons.prems(6) Suc 0 d(3) by auto
    next
      case (Suc i')
      then show ?thesis using Cons.IH [OF d(2), of i i'] Cons.prems \<open>k = Suc i\<close> by simp
    qed
  qed
qed simp

subsection \<open>Machine words\<close>

text \<open>A \<open>Size\<close> counter that stays below a bound moves the distance to it down.\<close>

lemma word_distance_decreases: "(i :: 'a::len word) < l \<Longrightarrow> unat (l - (i + 1)) < unat (l - i)"
proof -
  assume "i < l"
  then have ne: "l - i \<noteq> 0" by simp
  have eq: "l - (i + 1) = (l - i) - 1" by simp
  show ?thesis unfolding eq by (rule measure_unat [OF ne])
qed

subsection \<open>Round trip of the decimal rendering\<close>

lemma digit_value_digit_char [simp]: "d < 10 \<Longrightarrow> digit_value (digit_char d) = d"
  by (simp add: digit_value_def digit_char_def)

lemma digit_char_is_digit:
  "d < 10 \<Longrightarrow> (48::nat) \<le> of_char (digit_char d) \<and> of_char (digit_char d) < (58::nat)"
  by (simp add: digit_char_def)

lemma nat_to_string_digits:
  "c \<in> set (nat_to_string n) \<Longrightarrow> (48::nat) \<le> of_char c \<and> of_char c < (58::nat)"
proof (induction n rule: nat_to_string.induct)
  case (1 n)
  then show ?case
    by (cases "n < 10") (auto simp: nat_to_string.simps [of n] digit_char_is_digit)
qed

lemma underscore_not_in_nat_to_string: "CHR ''_'' \<notin> set (nat_to_string n)"
  using nat_to_string_digits [of "CHR ''_''" n] by auto

lemma string_to_nat_snoc: "string_to_nat (s @ [c]) = 10 * string_to_nat s + digit_value c"
  by (simp add: string_to_nat_def)

lemma string_to_nat_nat_to_string [simp]: "string_to_nat (nat_to_string n) = n"
proof (induction n rule: nat_to_string.induct)
  case (1 n)
  then show ?case
    by (cases "n < 10") (simp_all add: nat_to_string.simps [of n] string_to_nat_snoc string_to_nat_def)
qed

lemma nat_to_string_inj: "nat_to_string m = nat_to_string n \<longleftrightarrow> m = n"
  by (metis string_to_nat_nat_to_string)


lemma fold_map_upd_miss: "k \<notin> f ` set xs \<Longrightarrow> fold (\<lambda>x m. m(f x \<mapsto> g x)) xs mi k = mi k"
  by (induction xs arbitrary: mi) auto

lemma fold_map_upd_hit:
  "distinct (map f xs) \<Longrightarrow> x \<in> set xs \<Longrightarrow> fold (\<lambda>x m. m(f x \<mapsto> g x)) xs mi (f x) = Some (g x)"
proof (induction xs arbitrary: mi)
  case (Cons y ys)
  show ?case
  proof (cases "y = x")
    case True
    have "fold (\<lambda>x m. m(f x \<mapsto> g x)) ys (mi(f x \<mapsto> g x)) (f x) = Some (g x)"
      using Cons.prems(1) True fold_map_upd_miss [of "f x" f ys g "mi(f x \<mapsto> g x)"] by simp
    then show ?thesis by (simp only: fold_Cons o_apply True)
  next
    case False
    then show ?thesis using Cons by simp
  qed
qed simp

lemma fold_map_upd_None: "fold (\<lambda>x m. m(f x \<mapsto> g x)) xs mi k = None \<longleftrightarrow> mi k = None \<and> k \<notin> f ` set xs"
  by (induction xs arbitrary: mi) auto

lemma smap_map_Inr: "(\<And>x. x \<in> set xs \<Longrightarrow> f (k x) = Inr x) \<Longrightarrow> smap f (map k xs) = Inr xs"
  by (induction xs) auto

lemma fold_max_Max: "fold (\<lambda>i c. max c (f i)) xs a = Max (insert a (f ` set xs))"
proof (induction xs arbitrary: a)
  case (Cons x xs)
  then show ?case by (cases "xs = []") (simp_all add: Max_insert max.assoc)
qed simp

end
