(* ===== verification/ComputationGraph.thy ===== *)
theory ComputationGraph
  imports Prelude "HOL-Library.Sublist"
begin

text \<open>
  The shared computation graph of the XVA engine (ORE's \<open>QuantExt::ComputationGraph\<close>,
  which the engine in \<open>src/OREAnalytics/orea/engine/xvaenginecg.cpp\<close> drives through
  \<open>g->size()\<close>, \<open>g->setPrefix\<close>, \<open>g->variable\<close> and \<open>g->constants()\<close>). Its code is
  not part of the staged sources, so the graph is modelled from the specification
  (section 4.1): an append-only array of nodes, each an operator id and the indices of
  its inputs, the constant pool deduplicated by value, a table of named variables and a
  label prefix that only affects labels of nodes created afterwards.
  The invariant \<open>cg_wf\<close> is the acyclicity invariant of the specification (every input
  of node \<open>n\<close> has an index below \<open>n\<close>) together with the bounds of the pools; every
  operation keeps it and only ever appends (\<open>cg_extends\<close>).
\<close>

datatype cg_error =
    IndexOrderViolation node   \<comment> \<open>an input index not below the node being created\<close>
  | NotFound string            \<comment> \<open>lookup of a variable that was never set\<close>

record cgraph =
  cg_preds :: "node list list"        \<comment> \<open>the input indices of each node\<close>
  cg_op :: "nat list"                 \<comment> \<open>the operator id of each node\<close>
  cg_labels :: "string list list"     \<comment> \<open>diagnostic labels of each node, prefixed\<close>
  cg_constants :: "(real \<times> node) list" \<comment> \<open>the constant pool, one node per value\<close>
  cg_variables :: "(string \<times> node) list" \<comment> \<open>named variables, latest binding first\<close>
  cg_prefix :: string                 \<comment> \<open>the label prefix set by \<open>setPrefix\<close>\<close>

definition cg_size :: "cgraph \<Rightarrow> nat" where
  "cg_size g = length (cg_preds g)"

definition cg_empty :: cgraph where
  "cg_empty = \<lparr>cg_preds = [], cg_op = [], cg_labels = [], cg_constants = [],
               cg_variables = [], cg_prefix = []\<rparr>"

text \<open>\<open>append(operatorKind, inputIndices, label)\<close>: the acyclicity check happens here,
  at construction, never at evaluation.\<close>

definition cg_insert :: "cgraph \<Rightarrow> nat \<Rightarrow> node list \<Rightarrow> string \<Rightarrow> cg_error + node \<times> cgraph" where
  "cg_insert g opid ps label =
     (case find (\<lambda>p. cg_size g \<le> p) ps of
        Some p \<Rightarrow> Inl (IndexOrderViolation p)
      | None \<Rightarrow> Inr (cg_size g,
          g\<lparr>cg_preds := cg_preds g @ [ps], cg_op := cg_op g @ [opid],
            cg_labels := cg_labels g @ [if label = [] then [] else [cg_prefix g @ label]]\<rparr>))"

text \<open>\<open>constant(value)\<close>: identical literals share one input node.\<close>

definition cg_constant :: "cgraph \<Rightarrow> real \<Rightarrow> node \<times> cgraph" where
  "cg_constant g x =
     (case map_of (cg_constants g) x of
        Some n \<Rightarrow> (n, g)
      | None \<Rightarrow> (cg_size g,
          g\<lparr>cg_preds := cg_preds g @ [[]], cg_op := cg_op g @ [0], cg_labels := cg_labels g @ [[]],
            cg_constants := cg_constants g @ [(x, cg_size g)]\<rparr>))"

definition cg_variable :: "cgraph \<Rightarrow> string \<Rightarrow> cg_error + node" where
  "cg_variable g name =
     (case map_of (cg_variables g) name of None \<Rightarrow> Inl (NotFound name) | Some n \<Rightarrow> Inr n)"

definition cg_set_variable :: "cgraph \<Rightarrow> string \<Rightarrow> node \<Rightarrow> cgraph" where
  "cg_set_variable g name n = g\<lparr>cg_variables := (name, n) # cg_variables g\<rparr>"

definition cg_set_prefix :: "string \<Rightarrow> cgraph \<Rightarrow> cgraph" where
  "cg_set_prefix p g = g\<lparr>cg_prefix := p\<rparr>"

subsection \<open>Well-formedness and append-only growth\<close>

definition cg_wf :: "cgraph \<Rightarrow> bool" where
  "cg_wf g \<longleftrightarrow>
     length (cg_op g) = cg_size g \<and> length (cg_labels g) = cg_size g \<and>
     (\<forall>n < cg_size g. \<forall>p \<in> set (cg_preds g ! n). p < n) \<and>
     (\<forall>c \<in> set (cg_constants g). snd c < cg_size g) \<and> distinct (map fst (cg_constants g)) \<and>
     (\<forall>v \<in> set (cg_variables g). snd v < cg_size g)"

definition cg_extends :: "cgraph \<Rightarrow> cgraph \<Rightarrow> bool" where
  "cg_extends g g' \<longleftrightarrow>
     prefix (cg_preds g) (cg_preds g') \<and> prefix (cg_op g) (cg_op g')"

lemma prefix_nth_eq: "prefix xs ys \<Longrightarrow> n < length xs \<Longrightarrow> ys ! n = xs ! n"
  by (auto simp: prefix_def nth_append)

lemma cg_extends_refl [simp]: "cg_extends g g"
  by (simp add: cg_extends_def)

lemma cg_extends_trans: "cg_extends g1 g2 \<Longrightarrow> cg_extends g2 g3 \<Longrightarrow> cg_extends g1 g3"
  unfolding cg_extends_def by (meson prefix_order.trans)

lemma cg_extends_size: "cg_extends g g' \<Longrightarrow> cg_size g \<le> cg_size g'"
  by (simp add: cg_extends_def cg_size_def prefix_length_le)

lemma cg_extends_preds:
  "cg_extends g g' \<Longrightarrow> n < cg_size g \<Longrightarrow> cg_preds g' ! n = cg_preds g ! n"
  by (simp add: cg_extends_def cg_size_def prefix_nth_eq)

lemma cg_extends_op:
  "cg_wf g \<Longrightarrow> cg_extends g g' \<Longrightarrow> n < cg_size g \<Longrightarrow> cg_op g' ! n = cg_op g ! n"
  by (simp add: cg_extends_def cg_wf_def prefix_nth_eq)

lemma cg_wf_empty: "cg_wf cg_empty"
  by (simp add: cg_wf_def cg_empty_def cg_size_def)

lemma cg_insert_Inr_iff:
  "(\<exists>r. cg_insert g opid ps label = Inr r) \<longleftrightarrow> (\<forall>p \<in> set ps. p < cg_size g)"
proof (cases "find (\<lambda>p. cg_size g \<le> p) ps")
  case None
  then show ?thesis
    by (simp add: cg_insert_def) (auto simp: find_None_iff not_le)
next
  case (Some p)
  then have "p \<in> set ps \<and> cg_size g \<le> p"
    by (auto simp: find_Some_iff)
  with Some show ?thesis by (auto simp: cg_insert_def not_less)
qed

lemma cg_insert_Inr:
  assumes "cg_insert g opid ps label = Inr (n, g')"
  shows "n = cg_size g" and "cg_size g' = Suc (cg_size g)" and "cg_preds g' ! n = ps"
    and "\<forall>p \<in> set ps. p < n"
  using assms by (auto simp: cg_insert_def cg_size_def find_None_iff nth_append split: option.splits)

lemma cg_insert_extends: "cg_insert g opid ps label = Inr (n, g') \<Longrightarrow> cg_extends g g'"
  by (auto simp: cg_insert_def cg_extends_def split: option.splits)

lemma cg_insert_wf: "cg_wf g \<Longrightarrow> cg_insert g opid ps label = Inr (n, g') \<Longrightarrow> cg_wf g'"
  by (auto simp: cg_insert_def cg_wf_def cg_size_def nth_append find_None_iff less_Suc_eq
      split: option.splits)
    (fastforce+)

lemma cg_constant_extends: "cg_constant g x = (n, g') \<Longrightarrow> cg_extends g g'"
  by (auto simp: cg_constant_def cg_extends_def split: option.splits)

lemma cg_constant_wf: "cg_wf g \<Longrightarrow> cg_constant g x = (n, g') \<Longrightarrow> cg_wf g'"
  by (auto simp: cg_constant_def cg_wf_def cg_size_def nth_append less_Suc_eq
      split: option.splits dest: map_of_SomeD)
    (fastforce+)

lemma cg_set_variable_wf: "cg_wf g \<Longrightarrow> n < cg_size g \<Longrightarrow> cg_wf (cg_set_variable g name n)"
  by (simp add: cg_set_variable_def cg_wf_def cg_size_def)

lemma cg_set_variable_extends [simp]: "cg_extends g (cg_set_variable g name n)"
  by (simp add: cg_set_variable_def cg_extends_def)

lemma cg_set_prefix_wf [simp]: "cg_wf (cg_set_prefix p g) = cg_wf g"
  by (simp add: cg_set_prefix_def cg_wf_def cg_size_def)

lemma cg_set_prefix_size [simp]: "cg_size (cg_set_prefix p g) = cg_size g"
  by (simp add: cg_set_prefix_def cg_size_def)

lemma cg_set_prefix_extends [simp]: "cg_extends g (cg_set_prefix p g)"
  by (simp add: cg_set_prefix_def cg_extends_def)

lemma cg_variable_wf: "cg_wf g \<Longrightarrow> cg_variable g name = Inr n \<Longrightarrow> n < cg_size g"
  by (auto simp: cg_variable_def cg_wf_def split: option.splits dest!: map_of_SomeD)

lemma cg_variable_set_variable [simp]: "cg_variable (cg_set_variable g name n) name = Inr n"
  by (simp add: cg_variable_def cg_set_variable_def)

lemma cg_constant_dedup:
  assumes "cg_constant g x = (n, g')"
  shows "cg_constant g' x = (n, g')"
  using assms by (auto simp: cg_constant_def split: option.splits)

end
