(* ===== verification/ForwardEvaluation.thy ===== *)
theory ForwardEvaluation
  imports ComputationGraph
begin

text \<open>
  The forward evaluator (ORE's \<open>QuantExt::forwardEvaluation\<close>, called at line 251 of
  \<open>src/OREAnalytics/orea/engine/xvaenginecg.cpp\<close> with \<open>RandomVariable::deleter\<close>,
  no values kept for derivatives and the retention bitmap \<open>keepNodes\<close>). Its code is not
  among the staged sources; it is modelled from section 4.4 of the specification: nodes
  are visited in ascending order, a node with inputs gets the value of its operator on
  its inputs' values, and right after that every input whose last consumer is this
  node is released unless its retention flag is set. A released or never bound value
  is \<open>None\<close>; reading one is the \<open>UnboundInput\<close> failure.
  The main result, \<open>forward_evaluation_reclaims\<close>, relates this evaluator to the
  same loop with every retention flag set (the reference evaluation without
  reclamation): both succeed once every input node is bound, they agree on every value
  the reclaiming run keeps, and the reclaiming run has released exactly the values of
  consumed nodes whose flag is not set.
\<close>

datatype fe_error = UnboundInput node

type_synonym 'v op_table = "nat \<Rightarrow> 'v list \<Rightarrow> 'v"
  \<comment> \<open>\<open>ops_[opId](args)\<close>: the forward function of each operator id\<close>

subsection \<open>Last use of a node\<close>

text \<open>The index of the highest node reading \<open>p\<close> among the first \<open>k\<close> nodes
  (\<open>maxNodeRequiringArg\<close>), found by scanning down from node \<open>k - 1\<close>.\<close>

fun last_use_below :: "cgraph \<Rightarrow> node \<Rightarrow> nat \<Rightarrow> nat" where
  "last_use_below g p 0 = 0"
| "last_use_below g p (Suc k) = (if p \<in> set (cg_preds g ! k) then k else last_use_below g p k)"

definition last_use :: "cgraph \<Rightarrow> node \<Rightarrow> nat" where
  "last_use g p = last_use_below g p (cg_size g)"

definition consumed :: "cgraph \<Rightarrow> node \<Rightarrow> bool" where
  "consumed g p \<longleftrightarrow> (\<exists>m < cg_size g. p \<in> set (cg_preds g ! m))"

subsection \<open>One node, the whole pass\<close>

definition release :: "cgraph \<Rightarrow> bool list \<Rightarrow> node \<Rightarrow> node list \<Rightarrow> 'v option list \<Rightarrow> 'v option list" where
  "release g keep n ps vs =
     fold (\<lambda>p ws. if \<not> keep ! p \<and> last_use g p \<le> n then ws[p := None] else ws) ps vs"

definition fwd_node :: "cgraph \<Rightarrow> 'v op_table \<Rightarrow> bool list \<Rightarrow> node \<Rightarrow> 'v option list \<Rightarrow> fe_error + 'v option list" where
  "fwd_node g ops keep n vs =
     (let ps = cg_preds g ! n in
      if ps = [] then Inr vs
      else case those (map (\<lambda>p. vs ! p) ps) of
        None \<Rightarrow> Inl (UnboundInput n)
      | Some args \<Rightarrow> Inr (release g keep n ps (vs[n := Some (ops (cg_op g ! n) args)])))"

definition forward_evaluation ::
  "cgraph \<Rightarrow> 'v option list \<Rightarrow> 'v op_table \<Rightarrow> bool list \<Rightarrow> fe_error + 'v option list" where
  "forward_evaluation g vs ops keep = sfold (fwd_node g ops keep) [0..<cg_size g] vs"

definition reference_evaluation :: "cgraph \<Rightarrow> 'v option list \<Rightarrow> 'v op_table \<Rightarrow> fe_error + 'v option list" where
  "reference_evaluation g vs ops = forward_evaluation g vs ops (replicate (cg_size g) True)"

definition inputs_bound :: "cgraph \<Rightarrow> 'v option list \<Rightarrow> bool" where
  "inputs_bound g vs \<longleftrightarrow> (\<forall>n < cg_size g. cg_preds g ! n = [] \<longrightarrow> vs ! n \<noteq> None)"

definition released :: "cgraph \<Rightarrow> bool list \<Rightarrow> node \<Rightarrow> bool" where
  "released g keep p \<longleftrightarrow> \<not> keep ! p \<and> consumed g p"

text \<open>The invariant of the pass after the first \<open>k\<close> nodes: the reclaiming run holds
  the reference value of every node except those whose last consumer has run and whose
  retention flag is not set; the reference run has a value for every node already
  visited and for every input node.\<close>

definition pass_inv :: "cgraph \<Rightarrow> bool list \<Rightarrow> nat \<Rightarrow> 'v option list \<Rightarrow> 'v option list \<Rightarrow> bool" where
  "pass_inv g keep k ws rs \<longleftrightarrow>
     length ws = cg_size g \<and> length rs = cg_size g \<and>
     (\<forall>p < cg_size g. ws ! p =
        (if \<not> keep ! p \<and> consumed g p \<and> last_use g p < k then None else rs ! p)) \<and>
     (\<forall>p < cg_size g. (p < k \<or> cg_preds g ! p = []) \<longrightarrow> rs ! p \<noteq> None)"

subsection \<open>Last use\<close>

lemma last_use_below_ge: "m < k \<Longrightarrow> p \<in> set (cg_preds g ! m) \<Longrightarrow> m \<le> last_use_below g p k"
  by (induction k) (auto simp: less_Suc_eq)

lemma last_use_below_consumer:
  "\<exists>m < k. p \<in> set (cg_preds g ! m) \<Longrightarrow>
     last_use_below g p k < k \<and> p \<in> set (cg_preds g ! last_use_below g p k)"
  by (induction k) (auto simp: less_Suc_eq)

lemma last_use_ge: "m < cg_size g \<Longrightarrow> p \<in> set (cg_preds g ! m) \<Longrightarrow> m \<le> last_use g p"
  by (simp add: last_use_def last_use_below_ge)

lemma last_use_consumer:
  "consumed g p \<Longrightarrow> last_use g p < cg_size g \<and> p \<in> set (cg_preds g ! last_use g p)"
  unfolding last_use_def consumed_def by (rule last_use_below_consumer)

subsection \<open>Facts about one step\<close>

lemma release_length [simp]: "length (release g keep n ps vs) = length vs"
  by (induction ps arbitrary: vs) (simp_all add: release_def)

lemma release_nth:
  "q < length vs \<Longrightarrow> release g keep n ps vs ! q =
     (if q \<in> set ps \<and> \<not> keep ! q \<and> last_use g q \<le> n then None else vs ! q)"
  unfolding release_def
proof (induction ps arbitrary: vs)
  case (Cons a ps)
  then show ?case by (cases "a = q") (auto simp: nth_list_update_neq)
qed simp

lemma release_all_kept:
  "\<forall>q \<in> set ps. q < length keep \<and> keep ! q \<Longrightarrow> release g keep n ps vs = vs"
  unfolding release_def by (induction ps arbitrary: vs) auto

lemma fwd_node_length: "fwd_node g ops keep n vs = Inr ws \<Longrightarrow> length ws = length vs"
  by (auto simp: fwd_node_def Let_def split: if_splits option.splits)

lemma sfold_fwd_node_length:
  "sfold (fwd_node g ops keep) ns vs = Inr ws \<Longrightarrow> length ws = length vs"
  by (induction ns arbitrary: vs) (auto dest: fwd_node_length)

lemma pass_inv_start:
  "length vs = cg_size g \<Longrightarrow> inputs_bound g vs \<Longrightarrow> pass_inv g keep 0 vs vs"
  by (simp add: pass_inv_def inputs_bound_def)

lemma pass_inv_input_node:
  assumes inv: "pass_inv g keep k ws rs" and k: "k < cg_size g" and none: "cg_preds g ! k = []"
  shows "pass_inv g keep (Suc k) ws rs"
proof -
  have "last_use g p \<noteq> k" if "consumed g p" for p
    using last_use_consumer [OF that] none by auto
  then show ?thesis
    using inv none unfolding pass_inv_def by (auto simp: less_Suc_eq)
qed

lemma pass_inv_args:
  assumes inv: "pass_inv g keep k ws rs" and wf: "cg_wf g" and k: "k < cg_size g"
    and p: "p \<in> set (cg_preds g ! k)"
  shows "ws ! p = rs ! p" and "rs ! p \<noteq> None"
proof -
  have pk: "p < k" using wf k p by (auto simp: cg_wf_def)
  have "k \<le> last_use g p" using last_use_ge [OF k p] .
  then show "ws ! p = rs ! p" using inv pk k by (auto simp: pass_inv_def)
  show "rs ! p \<noteq> None" using inv pk k by (auto simp: pass_inv_def)
qed

lemma pass_inv_compute_node:
  assumes inv: "pass_inv g keep k ws rs" and wf: "cg_wf g" and k: "k < cg_size g"
    and keep: "length keep = cg_size g"
  shows "\<exists>ws' rs'. fwd_node g ops keep k ws = Inr ws' \<and>
           fwd_node g ops (replicate (cg_size g) True) k rs = Inr rs' \<and> pass_inv g keep (Suc k) ws' rs'"
proof (cases "cg_preds g ! k = []")
  case True
  then show ?thesis using pass_inv_input_node [OF inv k True] by (simp add: fwd_node_def)
next
  case False
  let ?ps = "cg_preds g ! k"
  have same: "map (\<lambda>p. ws ! p) ?ps = map (\<lambda>p. rs ! p) ?ps"
    using pass_inv_args(1) [OF inv wf k] by simp
  have "those (map (\<lambda>p. rs ! p) ?ps) \<noteq> None"
    using pass_inv_args(2) [OF inv wf k] by (auto simp: those_map_None_iff)
  then obtain args where args: "those (map (\<lambda>p. rs ! p) ?ps) = Some args"
    by auto
  define v where "v = ops (cg_op g ! k) args"
  have lens: "length ws = cg_size g" "length rs = cg_size g"
    using inv by (simp_all add: pass_inv_def)
  have below: "\<forall>q \<in> set ?ps. q < k" using wf k by (auto simp: cg_wf_def)
  then have ref_kept: "release g (replicate (cg_size g) True) k ?ps (rs[k := Some v]) = rs[k := Some v]"
    using k by (intro release_all_kept) auto
  have k_not_arg: "k \<notin> set ?ps" using below by auto
  have lu: "last_use g p = k \<longleftrightarrow> p \<in> set ?ps \<and> last_use g p \<le> k" if "consumed g p" for p
    using last_use_consumer [OF that] last_use_ge [OF k, of p] by auto
  have k_unreleased: "\<not> (consumed g k \<and> last_use g k < Suc k)"
  proof
    assume c: "consumed g k \<and> last_use g k < Suc k"
    then have "last_use g k < cg_size g" and "k \<in> set (cg_preds g ! last_use g k)"
      using last_use_consumer by blast+
    then have "k < last_use g k" using wf unfolding cg_wf_def by blast
    then show False using c by simp
  qed
  have "pass_inv g keep (Suc k) (release g keep k ?ps (ws[k := Some v])) (rs[k := Some v])"
    unfolding pass_inv_def
  proof (intro conjI allI impI)
    fix p assume p: "p < cg_size g"
    show "release g keep k ?ps (ws[k := Some v]) ! p =
      (if \<not> keep ! p \<and> consumed g p \<and> last_use g p < Suc k then None else rs[k := Some v] ! p)"
    proof (cases "p = k")
      case True
      then show ?thesis using k_unreleased k_not_arg lens k by (auto simp: release_nth)
    next
      case False
      have cons: "consumed g p" if "p \<in> set ?ps" using that k by (auto simp: consumed_def)
      have r: "release g keep k ?ps (ws[k := Some v]) ! p =
          (if p \<in> set ?ps \<and> \<not> keep ! p \<and> last_use g p \<le> k then None else ws ! p)"
        using p lens False by (simp add: release_nth)
      have w: "ws ! p = (if \<not> keep ! p \<and> consumed g p \<and> last_use g p < k then None else rs ! p)"
        using inv p by (simp add: pass_inv_def)
      have e: "(p \<in> set ?ps \<and> last_use g p \<le> k \<or> consumed g p \<and> last_use g p < k) \<longleftrightarrow>
          consumed g p \<and> last_use g p < Suc k"
        using lu [of p] cons by (auto simp: less_Suc_eq)
      have "rs[k := Some v] ! p = rs ! p" using False by simp
      then show ?thesis using r w e by metis
    qed
  next
    fix p assume p: "p < cg_size g" and pk: "p < Suc k \<or> cg_preds g ! p = []"
    show "rs[k := Some v] ! p \<noteq> None"
    proof (cases "p = k")
      case True
      then show ?thesis using lens k by simp
    next
      case False
      then show ?thesis using inv p pk by (auto simp: pass_inv_def less_Suc_eq)
    qed
  qed (use lens in simp_all)
  moreover have "those (map (\<lambda>p. ws ! p) ?ps) = Some args"
    using same args by (simp only:)
  ultimately show ?thesis
    using False args ref_kept by (simp add: fwd_node_def v_def)
qed

lemma pass_inv_upto:
  assumes wf: "cg_wf g" and keep: "length keep = cg_size g" and len: "length vs = cg_size g"
    and bound: "inputs_bound g vs" and k: "k \<le> cg_size g"
  shows "\<exists>ws rs. sfold (fwd_node g ops keep) [0..<k] vs = Inr ws \<and>
           sfold (fwd_node g ops (replicate (cg_size g) True)) [0..<k] vs = Inr rs \<and>
           pass_inv g keep k ws rs"
  using k
proof (induction k)
  case 0
  then show ?case using pass_inv_start [OF len bound] by simp
next
  case (Suc k)
  then obtain ws rs where ws: "sfold (fwd_node g ops keep) [0..<k] vs = Inr ws"
    and rs: "sfold (fwd_node g ops (replicate (cg_size g) True)) [0..<k] vs = Inr rs"
    and inv: "pass_inv g keep k ws rs" by auto
  have "k < cg_size g" using Suc.prems by simp
  then obtain ws' rs' where "fwd_node g ops keep k ws = Inr ws'"
    and "fwd_node g ops (replicate (cg_size g) True) k rs = Inr rs'" and "pass_inv g keep (Suc k) ws' rs'"
    using pass_inv_compute_node [OF inv wf _ keep, of ops] by blast
  then show ?case using ws rs by (simp add: sfold_append)
qed

subsection \<open>Reclamation is invisible on retained nodes\<close>

theorem forward_evaluation_reclaims:
  assumes wf: "cg_wf g" and keep: "length keep = cg_size g" and len: "length vs = cg_size g"
    and bound: "inputs_bound g vs"
  shows "\<exists>ws rs. forward_evaluation g vs ops keep = Inr ws \<and> reference_evaluation g vs ops = Inr rs \<and>
           length ws = cg_size g \<and> length rs = cg_size g \<and>
           (\<forall>p < cg_size g. rs ! p \<noteq> None \<and> ws ! p = (if released g keep p then None else rs ! p))"
proof -
  obtain ws rs where ws: "sfold (fwd_node g ops keep) [0..<cg_size g] vs = Inr ws"
    and rs: "sfold (fwd_node g ops (replicate (cg_size g) True)) [0..<cg_size g] vs = Inr rs"
    and inv: "pass_inv g keep (cg_size g) ws rs"
    using pass_inv_upto [OF wf keep len bound order.refl, of ops] by blast
  have "last_use g p < cg_size g" if "consumed g p" for p
    using last_use_consumer [OF that] by blast
  then have "\<forall>p < cg_size g. rs ! p \<noteq> None \<and> ws ! p = (if released g keep p then None else rs ! p)"
    using inv by (auto simp: pass_inv_def released_def)
  then show ?thesis
    using ws rs inv by (auto simp: forward_evaluation_def reference_evaluation_def pass_inv_def)
qed

end
