(* ===== verification/XvaEngineCG.thy ===== *)
theory XvaEngineCG
  imports ForwardEvaluation "HOL-Library.AList"
begin

text \<open>
  The constructor \<open>XvaEngineCG::XvaEngineCG\<close> of
  \<open>src/OREAnalytics/orea/engine/xvaenginecg.cpp\<close>: the portfolio duplication used
  for performance testing (lines 55--64), the per-trade extension of the shared graph
  that records each trade's node range and its NPV nodes (lines 168--188), the
  population of random variates (199--215), of constants and model parameters
  (223--230), the retention bitmap (240--244) and the pipeline that runs them in order
  and calls the forward evaluation (106--251). Market building, model calibration and
  trade building are external collaborators: they enter as the already calibrated
  model's graph and data and as each trade's graph builder.
  A \<open>std::vector\<close> access out of range and a \<open>QL_REQUIRE\<close> failure are values of
  \<open>xva_error\<close>.
\<close>

datatype discretization = Exact | Euler
  \<comment> \<open>\<open>CrossAssetModel::Discretization\<close>\<close>

datatype xva_error =
    NotEulerDiscretization
  | NoScriptedInstrument string
  | NoScriptedEngineCG string
  | GraphError cg_error
  | IndexOutOfRange
  | EvaluationError fe_error

text \<open>What \<open>trade->instrument()->qlInstrument()\<close> and its pricing engine turn out to be:
  only a \<open>ScriptedInstrument\<close> priced by a \<open>ScriptedInstrumentPricingEngineCG\<close> can
  contribute to the graph; it has an NPV variable name and a graph builder
  (\<open>buildComputationGraph\<close>), which appends the trade's nodes to the shared graph.\<close>

datatype trade_engine =
    NotScriptedInstrument
  | OtherPricingEngine
  | ScriptedEngineCG string "cgraph \<Rightarrow> cg_error + cgraph"

type_synonym portfolio = "(string \<times> trade_engine) list"
  \<comment> \<open>\<open>portfolio_->trades()\<close>, a \<open>std::map\<close> from trade id, iterated in key order\<close>

definition graph_error :: "cg_error + 'a \<Rightarrow> xva_error + 'a" where
  "graph_error r = map_sum GraphError id r"

subsection \<open>Portfolio duplication (lines 55--64)\<close>

definition duplicated_id :: "string \<Rightarrow> nat \<Rightarrow> string" where
  "duplicated_id tid i = tid @ ''_'' @ nat_to_string (i + 1)"

definition duplicate_portfolio :: "nat \<Rightarrow> (string \<times> 't) list \<Rightarrow> (string \<times> 't) list" where
  "duplicate_portfolio n pf = concat (map (\<lambda>i. map (\<lambda>(tid, t). (duplicated_id tid i, t)) pf) [0..<n])"

text \<open>The copy count: \<open>i < atoi(getenv("N"))\<close> compares the \<open>Size\<close> counter with the
  32-bit \<open>int\<close> that \<open>atoi\<close> returns, so the usual arithmetic conversions sign-extend the
  \<open>int\<close> to the 64-bit unsigned type of \<open>i\<close> before the comparison.\<close>

definition dup_bound :: "32 word \<Rightarrow> 64 word" where
  "dup_bound n = scast n"

text \<open>The copy loop itself (lines 57--63) with its \<open>Size\<close> counter \<open>i\<close>: while
  \<open>i < bound\<close>, copy \<open>i\<close> appends every trade renamed to \<open>id_(i+1)\<close> to \<open>portfolio_\<close>.
  Since \<open>i < bound\<close>, the \<open>i + 1\<close> of line 61 does not wrap.\<close>

function dup_loop :: "64 word \<Rightarrow> 64 word \<Rightarrow> (string \<times> 't) list \<Rightarrow> (string \<times> 't) list \<Rightarrow> (string \<times> 't) list" where
  "dup_loop i bound pf acc =
     (if i < bound then dup_loop (i + 1) bound pf (acc @ map (\<lambda>(tid, t). (duplicated_id tid (unat i), t)) pf)
      else acc)"
  by pat_completeness auto
termination
  by (relation "measure (\<lambda>(i, bound, _, _). unat (bound - i))") (auto simp: word_distance_decreases)

declare dup_loop.simps [simp del]

subsection \<open>Extending the graph trade by trade (lines 168--188)\<close>

record trade_graph_state =
  tg_graph :: cgraph
  amc_npv_nodes :: "(string \<times> node list) list"       \<comment> \<open>\<open>amcNpvNodes\<close>\<close>
  trade_node_ranges :: "(string \<times> node \<times> node) list" \<comment> \<open>\<open>tradeNodeRanges\<close>\<close>

definition amc_npv_name :: "nat \<Rightarrow> string" where
  "amc_npv_name i = ''_AMC_NPV_'' @ nat_to_string i"

definition add_trade :: "nat \<Rightarrow> string \<times> trade_engine \<Rightarrow> trade_graph_state \<Rightarrow> xva_error + trade_graph_state" where
  "add_trade ndates t st =
     (case t of (tid, eng) \<Rightarrow>
       (case eng of
          NotScriptedInstrument \<Rightarrow> Inl (NoScriptedInstrument tid)
        | OtherPricingEngine \<Rightarrow> Inl (NoScriptedEngineCG tid)
        | ScriptedEngineCG npv build \<Rightarrow>
            (let g0 = cg_set_prefix (tid @ ''_'') (tg_graph st); first = cg_size g0 in
             sbind (graph_error (build g0)) (\<lambda>g1.
             sbind (graph_error (cg_variable g1 (npv @ ''_0''))) (\<lambda>n0.
             sbind (smap (\<lambda>i. graph_error (cg_variable g1 (amc_npv_name i))) [0..<ndates]) (\<lambda>ns.
             Inr (st\<lparr>tg_graph := g1,
                    trade_node_ranges := AList.update tid (first, cg_size g1) (trade_node_ranges st),
                    amc_npv_nodes := AList.update tid (n0 # ns) (amc_npv_nodes st)\<rparr>)))))))"

definition add_trades :: "nat \<Rightarrow> portfolio \<Rightarrow> trade_graph_state \<Rightarrow> xva_error + trade_graph_state" where
  "add_trades ndates pf st = sfold (add_trade ndates) pf st"

text \<open>The contract of a trade's graph builder: from a well-formed graph it produces a
  well-formed graph that only appends to it.\<close>

definition builder_ok :: "(cgraph \<Rightarrow> cg_error + cgraph) \<Rightarrow> bool" where
  "builder_ok build \<longleftrightarrow> (\<forall>g g'. cg_wf g \<longrightarrow> build g = Inr g' \<longrightarrow> cg_wf g' \<and> cg_extends g g')"

definition engine_ok :: "trade_engine \<Rightarrow> bool" where
  "engine_ok e = (case e of ScriptedEngineCG npv build \<Rightarrow> builder_ok build | _ \<Rightarrow> True)"

subsection \<open>Random variates (lines 199--215)\<close>

definition rv_set :: "node \<Rightarrow> nat \<Rightarrow> real \<Rightarrow> operand list \<Rightarrow> xva_error + operand list" where
  "rv_set n path x vals =
     (if n < length vals \<and> path < length (vals ! n) then Inr (vals[n := (vals ! n)[path := x]])
      else Inl IndexOutOfRange)"

definition set_path_variates :: "node list list \<Rightarrow> nat \<Rightarrow> real list list \<Rightarrow> operand list \<Rightarrow> xva_error + operand list" where
  "set_path_variates rv path pv vals =
     sfold (\<lambda>j vs. sfold (\<lambda>k ws.
         sbind (nth_checked IndexOutOfRange (rv ! k) j) (\<lambda>n.
         sbind (sbind (nth_checked IndexOutOfRange pv j) (\<lambda>row. nth_checked IndexOutOfRange row k)) (\<lambda>x.
         rv_set n path x ws))) [0..<length rv] vs)
       [0..<length (hd rv)] vals"

definition populate_random_variates ::
  "nat \<Rightarrow> node list list \<Rightarrow> ('s \<Rightarrow> real list list \<times> 's) \<Rightarrow> 's \<Rightarrow> operand list \<Rightarrow> xva_error + operand list" where
  "populate_random_variates npaths rv next s vals =
     (if rv = [] then Inr vals
      else map_sum id fst (sfold (\<lambda>path (vs, g). case next g of (pv, g') \<Rightarrow>
                                    sbind (set_path_variates rv path pv vs) (\<lambda>vs'. Inr (vs', g')))
                             [0..<npaths] (vals, s)))"

definition gen_draw :: "('s \<Rightarrow> real list list \<times> 's) \<Rightarrow> 's \<Rightarrow> nat \<Rightarrow> real list list" where
  "gen_draw next s i = fst (next (((snd \<circ> next) ^^ i) s))"

subsection \<open>Constants, model parameters and the retention bitmap (lines 223--244)\<close>

text \<open>\<open>values[n] = RandomVariable(model_->size(), x)\<close> for each pair of a list.\<close>

definition broadcast_into :: "nat \<Rightarrow> (node \<times> real) list \<Rightarrow> operand list \<Rightarrow> xva_error + operand list" where
  "broadcast_into npaths ps vals =
     sfold (\<lambda>(n, x) vs. if n < length vs then Inr (vs[n := replicate npaths x]) else Inl IndexOutOfRange) ps vals"

definition populate_constants :: "nat \<Rightarrow> (real \<times> node) list \<Rightarrow> operand list \<Rightarrow> xva_error + operand list" where
  "populate_constants npaths cs vals = broadcast_into npaths (map (\<lambda>(x, n). (n, x)) cs) vals"

definition populate_model_parameters :: "nat \<Rightarrow> (node \<times> real) list \<Rightarrow> operand list \<Rightarrow> xva_error + operand list" where
  "populate_model_parameters npaths ps vals = broadcast_into npaths ps vals"

definition keep_nodes :: "nat \<Rightarrow> (string \<times> node list) list \<Rightarrow> xva_error + bool list" where
  "keep_nodes gsize amc =
     sfold (\<lambda>n ks. if n < length ks then Inr (ks[n := True]) else Inl IndexOutOfRange)
       (concat (map snd amc)) (replicate gsize False)"

subsection \<open>The pipeline (lines 106--251)\<close>

text \<open>The calibrated Gaussian cross asset model in its computation graph form
  (\<open>GaussianCamCG\<close> after \<open>model_->calculate()\<close>): its graph, its number of paths,
  the node table of its random variates and its model parameters.\<close>

record cam_cg_model =
  model_graph :: cgraph
  model_size :: nat
  model_random_variates :: "node list list"
  model_parameters :: "(node \<times> real) list"

definition initial_trade_state :: "cam_cg_model \<Rightarrow> trade_graph_state" where
  "initial_trade_state m = \<lparr>tg_graph = model_graph m, amc_npv_nodes = [], trade_node_ranges = []\<rparr>"

text \<open>Stages 4 to 8 of the constructor: the discretisation check, the trades' subgraphs,
  the value vector initialised to zero on every node, random variates from a generator
  built for \<open>rv.size()\<close> factors and \<open>rv.front().size()\<close> steps, constants, model
  parameters, the retention bitmap and the forward evaluation with reclamation.\<close>

definition xva_engine_cg ::
  "discretization \<Rightarrow> cam_cg_model \<Rightarrow> nat \<Rightarrow> portfolio \<Rightarrow> (nat \<Rightarrow> nat \<Rightarrow> 's) \<Rightarrow>
   ('s \<Rightarrow> real list list \<times> 's) \<Rightarrow> operand op_table \<Rightarrow>
   xva_error + (string \<times> node list) list \<times> operand option list" where
  "xva_engine_cg disc m ndates pf mk_gen next ops =
     (if disc \<noteq> Euler then Inl NotEulerDiscretization
      else sbind (add_trades ndates pf (initial_trade_state m)) (\<lambda>st.
        let g = tg_graph st; rv = model_random_variates m; n = model_size m in
        sbind (populate_random_variates n rv next (mk_gen (length rv) (length (hd rv)))
                 (replicate (cg_size g) (replicate n 0))) (\<lambda>v1.
        sbind (populate_constants n (cg_constants g) v1) (\<lambda>v2.
        sbind (populate_model_parameters n (model_parameters m) v2) (\<lambda>v3.
        sbind (keep_nodes (cg_size g) (amc_npv_nodes st)) (\<lambda>keep.
        sbind (map_sum EvaluationError id (forward_evaluation g (map Some v3) ops keep)) (\<lambda>vals.
        Inr (amc_npv_nodes st, vals))))))))"

text \<open>The inputs the constructor hands to \<open>GaussianCamCG\<close> (lines 110--128, a temporary
  hack in the code). It fills in EUR as the only currency and the EUR-EURIBOR-6M index by
  hand, whatever the cross asset model data lists. The simulation dates are a
  \<open>std::set\<close> built from the grid dates (lines 125--126), so they come out sorted and without
  repeats. There is one time step per year. Dates are serial numbers.\<close>

record cam_cg_inputs =
  cg_currencies :: "string list"
  cg_ir_indices :: "string list"
  cg_simulation_dates :: "int list"
  cg_time_steps_per_year :: nat

definition cam_cg_inputs_of :: "int list \<Rightarrow> cam_cg_inputs" where
  "cam_cg_inputs_of grid =
     \<lparr>cg_currencies = [''EUR''], cg_ir_indices = [''EUR-EURIBOR-6M''],
      cg_simulation_dates = sorted_list_of_set (set grid), cg_time_steps_per_year = 1\<rparr>"

subsection \<open>Auxiliary notions\<close>

definition amc_nodes_ok :: "nat \<Rightarrow> cgraph \<Rightarrow> (string \<times> node list) list \<Rightarrow> bool" where
  "amc_nodes_ok nd g amc \<longleftrightarrow> (\<forall>e \<in> set amc. length (snd e) = Suc nd \<and> (\<forall>n \<in> set (snd e). n < cg_size g))"

fun ranges_tile :: "nat \<Rightarrow> (nat \<times> nat) list \<Rightarrow> nat \<Rightarrow> bool" where
  "ranges_tile a [] b \<longleftrightarrow> a = b"
| "ranges_tile a (r # rs) b \<longleftrightarrow> fst r = a \<and> fst r \<le> snd r \<and> ranges_tile (snd r) rs b"

definition rv_cells :: "node list list \<Rightarrow> (nat \<times> nat) list" where
  "rv_cells rv = List.product [0..<length (hd rv)] [0..<length rv]"

definition cell_node :: "node list list \<Rightarrow> nat \<times> nat \<Rightarrow> node" where
  "cell_node rv c = rv ! snd c ! fst c"

definition rows_ok :: "nat \<Rightarrow> nat \<Rightarrow> operand list \<Rightarrow> bool" where
  "rows_ok len npaths vs \<longleftrightarrow> length vs = len \<and> (\<forall>v \<in> set vs. length v = npaths)"

subsection \<open>A trade builder satisfying the contract\<close>

text \<open>A minimal trade contribution: one node with operator \<open>opid\<close> on the inputs \<open>ps\<close>,
  registered under the trade's NPV name \<open>npv_0\<close> and, if \<open>amc\<close> holds, as
  \<open>_AMC_NPV_0\<close> for the single simulation date.\<close>

definition one_node_builder :: "string \<Rightarrow> bool \<Rightarrow> nat \<Rightarrow> node list \<Rightarrow> cgraph \<Rightarrow> cg_error + cgraph" where
  "one_node_builder npv amc opid ps g =
     sbind (cg_insert g opid ps npv) (\<lambda>(n, g1).
       Inr (if amc then cg_set_variable (cg_set_variable g1 (npv @ ''_0'') n) (amc_npv_name 0) n
            else cg_set_variable g1 (npv @ ''_0'') n))"

subsection \<open>Example inputs\<close>

definition demo_portfolio :: portfolio where
  "demo_portfolio =
     [(''A'', ScriptedEngineCG ''Npv'' (one_node_builder ''Npv'' True 0 [])),
      (''B'', ScriptedEngineCG ''Npv'' (one_node_builder ''Npv'' False 0 []))]"

definition demo_state :: trade_graph_state where
  "demo_state = \<lparr>tg_graph = cg_empty, amc_npv_nodes = [], trade_node_ranges = []\<rparr>"

subsection \<open>Facts used by the component's properties\<close>

lemma update_fresh: "k \<notin> set (map fst al) \<Longrightarrow> AList.update k v al = al @ [(k, v)]"
  by (induction al) auto

lemma set_update_cases: "x \<in> set (AList.update k v al) \<Longrightarrow> x = (k, v) \<or> x \<in> set al"
  by (induction al) (auto split: if_splits)

lemma duplicated_id_inj: "duplicated_id a i = duplicated_id b j \<longleftrightarrow> a = b \<and> i = j"
  using append_sep_inj [of a "CHR ''_''" "nat_to_string (i + 1)" b "nat_to_string (j + 1)"]
  by (auto simp: duplicated_id_def nat_to_string_inj underscore_not_in_nat_to_string)

lemma map_fst_duplicate_portfolio:
  "map fst (duplicate_portfolio n pf) = concat (map (\<lambda>i. map (\<lambda>tid. duplicated_id tid i) (map fst pf)) [0..<n])"
  by (simp add: duplicate_portfolio_def map_concat case_prod_beta comp_def)

lemma length_duplicate_portfolio: "length (duplicate_portfolio n pf) = n * length pf"
  by (simp add: duplicate_portfolio_def length_concat comp_def sum_list_triv)

lemma uint_dup_bound: "uint (dup_bound n) = sint n mod 2 ^ 64"
proof -
  have "sint (dup_bound n) = sint n"
    unfolding dup_bound_def by (rule sint_up_scast) (simp add: is_up)
  then show ?thesis using uint_sint [of "dup_bound n"] by (simp add: take_bit_eq_mod)
qed

lemma unat_dup_bound:
  "unat (dup_bound n) = (if 0 \<le> sint n then nat (sint n) else nat (sint n + 2 ^ 64))"
proof -
  have lo: "- (2 ^ 31) \<le> sint n" and hi: "sint n < 2 ^ 31"
    using sint_ge [of n] sint_lt [of n] by simp_all
  have "sint n mod 2 ^ 64 = (if 0 \<le> sint n then sint n else sint n + 2 ^ 64)"
  proof (cases "0 \<le> sint n")
    case True
    then show ?thesis using hi by simp
  next
    case False
    have "sint n mod 2 ^ 64 = (sint n + 2 ^ 64) mod 2 ^ 64" by simp
    also have "\<dots> = sint n + 2 ^ 64" using lo False by (intro mod_pos_pos_trivial) simp_all
    finally show ?thesis using False by simp
  qed
  then show ?thesis by (simp add: unat_eq_nat_uint uint_dup_bound)
qed

lemma dup_loop_concat:
  "dup_loop i bound pf acc = acc @ concat (map (\<lambda>k. map (\<lambda>(tid, t). (duplicated_id tid k, t)) pf) [unat i..<unat bound])"
proof (induction i bound pf acc rule: dup_loop.induct)
  case (1 i bound pf acc)
  show ?case
  proof (cases "i < bound")
    case True
    have lt: "unat i < unat bound" using True by (simp add: word_less_nat_alt)
    moreover have "unat bound < 2 ^ 64" using unsigned_less [of bound, where ?'a = nat] by simp
    ultimately have s: "unat (i + 1) = Suc (unat i)" by (simp add: unat_word_ariths(1))
    have "[unat i..<unat bound] = unat i # [Suc (unat i)..<unat bound]" using lt by (simp add: upt_conv_Cons)
    then show ?thesis using 1 [OF True] True s by (simp add: dup_loop.simps [of i])
  next
    case False
    then have "unat bound \<le> unat i" by (simp add: word_less_nat_alt not_less)
    then show ?thesis using False by (simp add: dup_loop.simps [of i])
  qed
qed

lemma graph_error_Inr [simp]: "graph_error r = Inr x \<longleftrightarrow> r = Inr x"
  by (cases r) (auto simp: graph_error_def)

lemma add_trade_InrE:
  assumes "add_trade nd (tid, eng) st = Inr st'"
  obtains npv build where "eng = ScriptedEngineCG npv build"
    and "build (cg_set_prefix (tid @ ''_'') (tg_graph st)) = Inr (tg_graph st')"
  using assms by (auto simp: add_trade_def Let_def split: trade_engine.splits)

lemma add_trade_npv_nodes:
  assumes "add_trade nd (tid, eng) st = Inr st'"
  obtains npv build n0 ns where "eng = ScriptedEngineCG npv build"
    and "cg_variable (tg_graph st') (npv @ ''_0'') = Inr n0"
    and "list_all2 (\<lambda>i n. cg_variable (tg_graph st') (amc_npv_name i) = Inr n) [0..<nd] ns"
    and "amc_npv_nodes st' = AList.update tid (n0 # ns) (amc_npv_nodes st)"
  using assms by (auto simp: add_trade_def Let_def smap_Inr_iff split: trade_engine.splits)

lemma add_trade_node_range:
  assumes "add_trade nd (tid, eng) st = Inr st'"
  shows "trade_node_ranges st' = AList.update tid (cg_size (tg_graph st), cg_size (tg_graph st')) (trade_node_ranges st)"
  using assms by (auto simp: add_trade_def Let_def split: trade_engine.splits)

lemma add_trade_graph:
  assumes "add_trade nd (tid, eng) st = Inr st'" and "engine_ok eng" and "cg_wf (tg_graph st)"
  shows "cg_wf (tg_graph st') \<and> cg_extends (tg_graph st) (tg_graph st')"
proof -
  obtain npv build where e: "eng = ScriptedEngineCG npv build"
    and b: "build (cg_set_prefix (tid @ ''_'') (tg_graph st)) = Inr (tg_graph st')"
    using assms(1) by (rule add_trade_InrE)
  define g1 where "g1 = tg_graph st'"
  have g: "tg_graph st' = g1" by (simp add: g1_def)
  note b = b [folded g1_def]
  have "builder_ok build" using assms(2) e by (simp add: engine_ok_def)
  moreover have "cg_wf (cg_set_prefix (tid @ ''_'') (tg_graph st))" using assms(3) by simp
  ultimately have "cg_wf g1 \<and> cg_extends (cg_set_prefix (tid @ ''_'') (tg_graph st)) g1"
    using b unfolding builder_ok_def by blast
  then show ?thesis
    using g cg_extends_trans [OF cg_set_prefix_extends] by blast
qed

lemma amc_nodes_ok_mono:
  "amc_nodes_ok nd g amc \<Longrightarrow> cg_size g \<le> cg_size g' \<Longrightarrow> amc_nodes_ok nd g' amc"
  by (fastforce simp: amc_nodes_ok_def)

lemma add_trade_amc:
  assumes "add_trade nd (tid, eng) st = Inr st'" and "engine_ok eng" and "cg_wf (tg_graph st)"
    and "amc_nodes_ok nd (tg_graph st) (amc_npv_nodes st)"
  shows "amc_nodes_ok nd (tg_graph st') (amc_npv_nodes st')"
proof -
  define g1 where "g1 = tg_graph st'"
  obtain npv build n0 ns where n0: "cg_variable g1 (npv @ ''_0'') = Inr n0"
    and ns: "list_all2 (\<lambda>i n. cg_variable g1 (amc_npv_name i) = Inr n) [0..<nd] ns"
    and am: "amc_npv_nodes st' = AList.update tid (n0 # ns) (amc_npv_nodes st)"
    using assms(1) unfolding g1_def by (rule add_trade_npv_nodes)
  have wf: "cg_wf g1" and ext: "cg_extends (tg_graph st) g1"
    using add_trade_graph [OF assms(1-3)] by (simp_all add: g1_def)
  have n0b: "n0 < cg_size g1" using cg_variable_wf [OF wf n0] .
  have len: "length ns = nd" and at: "\<forall>i < nd. cg_variable g1 (amc_npv_name i) = Inr (ns ! i)"
    using ns by (auto simp: list_all2_conv_all_nth)
  have nsb: "\<forall>n \<in> set ns. n < cg_size g1"
    using len at cg_variable_wf [OF wf] by (metis in_set_conv_nth)
  have old: "amc_nodes_ok nd g1 (amc_npv_nodes st)"
    using assms(4) cg_extends_size [OF ext] by (rule amc_nodes_ok_mono)
  have "length (snd e) = Suc nd \<and> (\<forall>n \<in> set (snd e). n < cg_size g1)"
    if "e \<in> set (AList.update tid (n0 # ns) (amc_npv_nodes st))" for e
  proof -
    from that have "e = (tid, n0 # ns) \<or> e \<in> set (amc_npv_nodes st)" by (rule set_update_cases)
    then show ?thesis using old len n0b nsb by (auto simp: amc_nodes_ok_def)
  qed
  then show ?thesis using am by (simp add: amc_nodes_ok_def g1_def)
qed

lemma add_trades_ranges:
  assumes "add_trades nd pf st = Inr st'" and "\<forall>t \<in> set pf. engine_ok (snd t)" and "cg_wf (tg_graph st)"
    and "distinct (map fst pf)" and "set (map fst pf) \<inter> set (map fst (trade_node_ranges st)) = {}"
  shows "\<exists>new. trade_node_ranges st' = trade_node_ranges st @ new \<and> map fst new = map fst pf \<and>
           ranges_tile (cg_size (tg_graph st)) (map snd new) (cg_size (tg_graph st')) \<and>
           cg_wf (tg_graph st') \<and> cg_extends (tg_graph st) (tg_graph st')"
  using assms
proof (induction pf arbitrary: st)
  case Nil
  then show ?case by (simp add: add_trades_def)
next
  case (Cons t pf)
  obtain tid eng where t: "t = (tid, eng)" by (cases t)
  from Cons.prems(1) t obtain st1 where s1: "add_trade nd (tid, eng) st = Inr st1"
    and rest: "add_trades nd pf st1 = Inr st'" by (auto simp: add_trades_def)
  have ok: "engine_ok eng" using Cons.prems(2) t by simp
  define g1 where "g1 = tg_graph st1"
  have g1: "tg_graph st1 = g1" by (simp add: g1_def)
  have r1: "trade_node_ranges st1 = trade_node_ranges st @ [(tid, cg_size (tg_graph st), cg_size g1)]"
    using add_trade_node_range [OF s1] Cons.prems(5) t by (simp add: update_fresh g1_def)
  have gr: "cg_wf g1 \<and> cg_extends (tg_graph st) g1"
    using add_trade_graph [OF s1 ok Cons.prems(3)] g1 by simp
  have "set (map fst pf) \<inter> set (map fst (trade_node_ranges st1)) = {}"
    using r1 Cons.prems(4,5) t by auto
  then obtain new where new: "trade_node_ranges st' = trade_node_ranges st1 @ new"
    and keys: "map fst new = map fst pf"
    and tile: "ranges_tile (cg_size g1) (map snd new) (cg_size (tg_graph st'))"
    and gr': "cg_wf (tg_graph st') \<and> cg_extends g1 (tg_graph st')"
    using Cons.IH [OF rest] Cons.prems(2,4) gr g1 by auto
  let ?new = "(tid, cg_size (tg_graph st), cg_size g1) # new"
  have le: "cg_size (tg_graph st) \<le> cg_size g1" using gr cg_extends_size by blast
  show ?case
  proof (intro exI conjI)
    show "trade_node_ranges st' = trade_node_ranges st @ ?new" using new r1 by simp
    show "map fst ?new = map fst (t # pf)" using keys t by simp
    show "ranges_tile (cg_size (tg_graph st)) (map snd ?new) (cg_size (tg_graph st'))"
      using tile le by simp
    show "cg_wf (tg_graph st')" using gr' by blast
    show "cg_extends (tg_graph st) (tg_graph st')" using gr gr' cg_extends_trans by blast
  qed
qed

lemma sfold_mark_true:
  "\<forall>n \<in> set ns. n < length ks \<Longrightarrow>
     sfold (\<lambda>n ks. if n < length ks then Inr (ks[n := True]) else Inl IndexOutOfRange) ns ks =
     Inr (fold (\<lambda>i ys. ys[i := True]) ns ks)"
  by (induction ns arbitrary: ks) auto

lemma broadcast_into_nth:
  assumes "\<forall>p \<in> set ps. fst p < length vals"
  shows "\<exists>vs. broadcast_into np ps vals = Inr vs \<and> length vs = length vals \<and>
     (\<forall>n < length vals. vs ! n = (case map_of (rev ps) n of Some x \<Rightarrow> replicate np x | None \<Rightarrow> vals ! n))"
  using assms
proof (induction ps arbitrary: vals)
  case Nil
  then show ?case by (simp add: broadcast_into_def)
next
  case (Cons p ps)
  obtain n x where p: "p = (n, x)" by (cases p)
  have pre: "\<forall>q \<in> set ps. fst q < length (vals[n := replicate np x])" using Cons.prems by simp
  obtain vs where vs: "broadcast_into np ps (vals[n := replicate np x]) = Inr vs"
    and len': "length vs = length (vals[n := replicate np x])"
    and at': "\<forall>m < length (vals[n := replicate np x]). vs ! m = (case map_of (rev ps) m of
                 Some y \<Rightarrow> replicate np y | None \<Rightarrow> vals[n := replicate np x] ! m)"
    using Cons.IH [OF pre] by blast
  have len: "length vs = length vals" using len' by simp
  have at: "\<forall>m < length vals. vs ! m = (case map_of (rev ps) m of
                 Some y \<Rightarrow> replicate np y | None \<Rightarrow> vals[n := replicate np x] ! m)"
    using at' by simp
  have step: "broadcast_into np (p # ps) vals = broadcast_into np ps (vals[n := replicate np x])"
    using Cons.prems p by (simp add: broadcast_into_def)
  have "vs ! m = (case map_of (rev (p # ps)) m of Some y \<Rightarrow> replicate np y | None \<Rightarrow> vals ! m)"
    if "m < length vals" for m
    using at that p by (cases "map_of (rev ps) m") (simp_all add: map_of_append map_add_def nth_list_update)
  then show ?case using step vs len by auto
qed

lemma broadcast_into_length:
  assumes "broadcast_into np ps vals = Inr vs"
  shows "length vs = length vals"
  by (rule sfold_preserves [OF assms [unfolded broadcast_into_def], where P = "\<lambda>ws. length ws = length vals"])
    (auto split: if_splits)

lemma rv_set_length: "rv_set n path x ws = Inr ws' \<Longrightarrow> length ws' = length ws"
  by (auto simp: rv_set_def split: if_splits)

lemma set_path_variates_preserves:
  assumes "set_path_variates rv path pv vals = Inr vs" and "P vals"
    and step: "\<And>n x ws ws'. P ws \<Longrightarrow> rv_set n path x ws = Inr ws' \<Longrightarrow> P ws'"
  shows "P vs"
proof (rule sfold_preserves [OF assms(1) [unfolded set_path_variates_def], where P = P])
  fix j ws ws'
  assume p: "P ws"
    and run: "sfold (\<lambda>k ws. sbind (nth_checked IndexOutOfRange (rv ! k) j) (\<lambda>n.
           sbind (sbind (nth_checked IndexOutOfRange pv j) (\<lambda>row. nth_checked IndexOutOfRange row k))
             (\<lambda>x. rv_set n path x ws))) [0..<length rv] ws = Inr ws'"
  show "P ws'"
    by (rule sfold_preserves [OF run, where P = P]) (use p in \<open>auto intro: step\<close>)
qed (rule assms(2))

lemma populate_random_variates_preserves:
  assumes "populate_random_variates npaths rv next s vals = Inr vs" and "P vals"
    and step: "\<And>path pv ws ws'. P ws \<Longrightarrow> set_path_variates rv path pv ws = Inr ws' \<Longrightarrow> P ws'"
  shows "P vs"
proof (cases "rv = []")
  case False
  then obtain g where run: "sfold (\<lambda>path (vs, g). case next g of (pv, g') \<Rightarrow>
        sbind (set_path_variates rv path pv vs) (\<lambda>vs'. Inr (vs', g'))) [0..<npaths] (vals, s) = Inr (vs, g)"
    using assms(1) by (auto simp: populate_random_variates_def map_sum_def split: sum.splits)
  have "P (fst (vs, g))"
    by (rule sfold_preserves [OF run, where P = "\<lambda>st. P (fst st)"])
      (use assms(2) in \<open>auto simp: case_prod_unfold intro: step\<close>)
  then show ?thesis by simp
qed (use assms in \<open>simp add: populate_random_variates_def\<close>)

lemma set_path_variates_length:
  assumes "set_path_variates rv path pv vals = Inr vs"
  shows "length vs = length vals"
  by (rule set_path_variates_preserves [OF assms, where P = "\<lambda>ws. length ws = length vals"])
    (simp_all add: rv_set_length)

lemma populate_random_variates_length:
  assumes "populate_random_variates npaths rv next s vals = Inr vs"
  shows "length vs = length vals"
  by (rule populate_random_variates_preserves [OF assms, where P = "\<lambda>ws. length ws = length vals"])
    (simp_all add: set_path_variates_length)

lemma rv_set_rows_ok: "rows_ok len np ws \<Longrightarrow> rv_set n path x ws = Inr ws' \<Longrightarrow> rows_ok len np ws'"
  by (auto simp: rv_set_def rows_ok_def split: if_splits dest!: set_update_subset_insert [THEN subsetD])

lemma broadcast_into_rows_ok:
  assumes "broadcast_into np ps vals = Inr vs" and "rows_ok len np vals"
  shows "rows_ok len np vs"
  by (rule sfold_preserves [OF assms(1) [unfolded broadcast_into_def], where P = "rows_ok len np"])
    (use assms(2) in \<open>auto simp: rows_ok_def split: if_splits dest!: set_update_subset_insert [THEN subsetD]\<close>)

lemma keep_nodes_Inr:
  "\<forall>n \<in> set (concat (map snd amc)). n < gsize \<Longrightarrow>
     keep_nodes gsize amc = Inr (fold (\<lambda>i ys. ys[i := True]) (concat (map snd amc)) (replicate gsize False))"
  by (simp add: keep_nodes_def sfold_mark_true)

lemma one_node_builder_ok: "builder_ok (one_node_builder npv amc opid ps)"
  unfolding builder_ok_def
proof (intro allI impI)
  fix g g' assume wf: "cg_wf g" and b: "one_node_builder npv amc opid ps g = Inr g'"
  then obtain n g1 where ins: "cg_insert g opid ps npv = Inr (n, g1)"
    and g': "g' = (if amc then cg_set_variable (cg_set_variable g1 (npv @ ''_0'') n) (amc_npv_name 0) n
                  else cg_set_variable g1 (npv @ ''_0'') n)"
    by (auto simp: one_node_builder_def split: prod.splits)
  have wf1: "cg_wf g1" using cg_insert_wf [OF wf ins] .
  have n: "n < cg_size g1" using cg_insert_Inr(1,2) [OF ins] by simp
  have ext: "cg_extends g g1" using cg_insert_extends [OF ins] .
  have sz: "cg_size (cg_set_variable g1 name m) = cg_size g1" for name m
    by (simp add: cg_set_variable_def cg_size_def)
  show "cg_wf g' \<and> cg_extends g g'"
    using g' wf1 n ext sz cg_set_variable_wf cg_extends_trans [OF _ cg_set_variable_extends] by auto
qed

lemma fold_product: "fold f (List.product xs ys) s = fold (\<lambda>x. fold (\<lambda>y. f (x, y)) ys) xs s"
  by (induction xs arbitrary: s) (simp_all add: fold_map comp_def)

lemma rows_ok_update:
  "rows_ok len npaths vs \<Longrightarrow> n < length vs \<Longrightarrow> path < npaths \<Longrightarrow>
     rows_ok len npaths (vs[n := (vs ! n)[path := x]])"
  by (auto simp: rows_ok_def dest!: set_update_subset_insert [THEN subsetD])

lemma set_path_variates_fold:
  assumes rect: "\<forall>k < length rv. length (rv ! k) = length (hd rv)"
    and bounds: "\<forall>n \<in> set (concat rv). n < len" and ok: "rows_ok len npaths vals" and path: "path < npaths"
    and pv: "length pv = length (hd rv)" "\<forall>j < length (hd rv). length (pv ! j) = length rv"
  shows "set_path_variates rv path pv vals =
           Inr (fold (\<lambda>c vs. vs[cell_node rv c := (vs ! cell_node rv c)[path := pv ! fst c ! snd c]]) (rv_cells rv) vals)
         \<and> rows_ok len npaths
             (fold (\<lambda>c vs. vs[cell_node rv c := (vs ! cell_node rv c)[path := pv ! fst c ! snd c]]) (rv_cells rv) vals)"
proof -
  let ?upd = "\<lambda>j k vs. vs[rv ! k ! j := (vs ! (rv ! k ! j))[path := pv ! j ! k]]"
  have node: "rv ! k ! j < len" if "k < length rv" "j < length (hd rv)" for j k
    using bounds that rect by (metis nth_mem UN_I set_concat)
  have inner: "sfold (\<lambda>k ws.
         sbind (nth_checked IndexOutOfRange (rv ! k) j) (\<lambda>n.
         sbind (sbind (nth_checked IndexOutOfRange pv j) (\<lambda>row. nth_checked IndexOutOfRange row k)) (\<lambda>x.
         rv_set n path x ws))) [0..<length rv] vs = Inr (fold (?upd j) [0..<length rv] vs)
       \<and> rows_ok len npaths (fold (?upd j) [0..<length rv] vs)"
    if j: "j < length (hd rv)" and vs: "rows_ok len npaths vs" for j vs
  proof (rule sfold_Inr_fold [where Q = "rows_ok len npaths"])
    fix k ws assume "k \<in> set [0..<length rv]" and ws: "rows_ok len npaths ws"
    then have k: "k < length rv" by simp
    have n: "rv ! k ! j < length ws" using node [OF k j] ws by (simp add: rows_ok_def)
    then have "path < length (ws ! (rv ! k ! j))" using ws path by (simp add: rows_ok_def)
    then show "sbind (nth_checked IndexOutOfRange (rv ! k) j) (\<lambda>n.
         sbind (sbind (nth_checked IndexOutOfRange pv j) (\<lambda>row. nth_checked IndexOutOfRange row k)) (\<lambda>x.
         rv_set n path x ws)) = Inr (?upd j k ws) \<and> rows_ok len npaths (?upd j k ws)"
      using rect k j pv n ws path by (simp add: rv_set_def rows_ok_update)
  qed (rule vs)
  have outer: "set_path_variates rv path pv vals =
      Inr (fold (\<lambda>j. fold (?upd j) [0..<length rv]) [0..<length (hd rv)] vals)
      \<and> rows_ok len npaths (fold (\<lambda>j. fold (?upd j) [0..<length rv]) [0..<length (hd rv)] vals)"
    unfolding set_path_variates_def
    by (rule sfold_Inr_fold [where Q = "rows_ok len npaths"]) (use inner ok in simp_all)
  show ?thesis
    using outer by (simp add: rv_cells_def fold_product cell_node_def)
qed

lemma cells_distinct:
  assumes d: "distinct (concat rv)" and rect: "\<forall>k < length rv. length (rv ! k) = length (hd rv)"
  shows "distinct (map (cell_node rv) (rv_cells rv))"
proof -
  have "inj_on (cell_node rv) (set (rv_cells rv))"
  proof (rule inj_onI)
    fix c c' assume c: "c \<in> set (rv_cells rv)" and c': "c' \<in> set (rv_cells rv)"
      and eq: "cell_node rv c = cell_node rv c'"
    obtain j k where p: "c = (j, k)" by (cases c)
    then have jk: "c = (j, k)" "j < length (hd rv)" "k < length rv"
      using c by (simp_all add: rv_cells_def)
    obtain j' k' where p': "c' = (j', k')" by (cases c')
    then have jk': "c' = (j', k')" "j' < length (hd rv)" "k' < length rv"
      using c' by (simp_all add: rv_cells_def)
    have "j < length (rv ! k)" and "j' < length (rv ! k')" using jk jk' rect by simp_all
    moreover have "rv ! k ! j = rv ! k' ! j'" using eq jk jk' by (simp add: cell_node_def)
    ultimately have "k = k' \<and> j = j'"
      using distinct_concat_nth_inj [OF d] jk(3) jk'(3) by blast
    then show "c = c'" using jk jk' by simp
  qed
  then show ?thesis by (simp add: distinct_map rv_cells_def distinct_product)
qed

lemma cells_nodes:
  assumes rect: "\<forall>k < length rv. length (rv ! k) = length (hd rv)"
  shows "cell_node rv ` set (rv_cells rv) = set (concat rv)"
proof
  show "cell_node rv ` set (rv_cells rv) \<subseteq> set (concat rv)"
  proof
    fix n assume "n \<in> cell_node rv ` set (rv_cells rv)"
    then obtain j k where jk: "j < length (hd rv)" "k < length rv" "n = rv ! k ! j"
      by (auto simp: rv_cells_def cell_node_def)
    then have "rv ! k \<in> set rv" and "n \<in> set (rv ! k)" using rect by simp_all
    then show "n \<in> set (concat rv)" by auto
  qed
  show "set (concat rv) \<subseteq> cell_node rv ` set (rv_cells rv)"
  proof
    fix n assume "n \<in> set (concat rv)"
    then obtain k j where "k < length rv" "j < length (rv ! k)" "n = rv ! k ! j"
      by (auto simp: in_set_conv_nth)
    then have "(j, k) \<in> set (rv_cells rv)" and "n = cell_node rv (j, k)"
      using rect by (simp_all add: rv_cells_def cell_node_def)
    then show "n \<in> cell_node rv ` set (rv_cells rv)" by blast
  qed
qed

lemma populate_paths:
  assumes rect: "\<forall>k < length rv. length (rv ! k) = length (hd rv)"
    and d: "distinct (concat rv)" and bounds: "\<forall>n \<in> set (concat rv). n < length vals"
    and ok: "rows_ok (length vals) npaths vals"
    and shape: "\<forall>g. length (fst (next g)) = length (hd rv) \<and>
                    (\<forall>j < length (hd rv). length (fst (next g) ! j) = length rv)"
    and i: "i \<le> npaths"
  shows "\<exists>vs. sfold (\<lambda>path (vs, g). case next g of (pv, g') \<Rightarrow>
                    sbind (set_path_variates rv path pv vs) (\<lambda>vs'. Inr (vs', g')))
                 [0..<i] (vals, s) = Inr (vs, ((snd \<circ> next) ^^ i) s) \<and>
           rows_ok (length vals) npaths vs \<and>
           (\<forall>c \<in> set (rv_cells rv). \<forall>q < npaths. vs ! cell_node rv c ! q =
              (if q < i then gen_draw next s q ! fst c ! snd c else vals ! cell_node rv c ! q)) \<and>
           (\<forall>n. n \<notin> set (concat rv) \<longrightarrow> vs ! n = vals ! n)"
  using i
proof (induction i)
  case 0
  then show ?case using ok by simp
next
  case (Suc i)
  have le: "i \<le> npaths" using Suc.prems by simp
  obtain vs where run: "sfold (\<lambda>path (vs, g). case next g of (pv, g') \<Rightarrow>
                    sbind (set_path_variates rv path pv vs) (\<lambda>vs'. Inr (vs', g')))
                 [0..<i] (vals, s) = Inr (vs, ((snd \<circ> next) ^^ i) s)"
    and vok: "rows_ok (length vals) npaths vs"
    and cells: "\<forall>c \<in> set (rv_cells rv). \<forall>q < npaths. vs ! cell_node rv c ! q =
              (if q < i then gen_draw next s q ! fst c ! snd c else vals ! cell_node rv c ! q)"
    and other: "\<forall>n. n \<notin> set (concat rv) \<longrightarrow> vs ! n = vals ! n"
    using Suc.IH [OF le] by blast
  define g where "g = ((snd \<circ> next) ^^ i) s"
  define pv where "pv = fst (next g)"
  let ?f = "\<lambda>c vs. vs[cell_node rv c := (vs ! cell_node rv c)[i := pv ! fst c ! snd c]]"
  have pi: "i < npaths" using Suc.prems by simp
  have step: "set_path_variates rv i pv vs = Inr (fold ?f (rv_cells rv) vs)
              \<and> rows_ok (length vals) npaths (fold ?f (rv_cells rv) vs)"
    using set_path_variates_fold [OF rect bounds vok pi] shape by (simp add: pv_def)
  have nodes_lt: "cell_node rv c < length vs" if "c \<in> set (rv_cells rv)" for c
  proof -
    have "cell_node rv c \<in> set (concat rv)" using that cells_nodes [OF rect] by blast
    then have "cell_node rv c < length vals" using bounds by blast
    then show ?thesis using vok by (simp add: rows_ok_def)
  qed
  have hit: "fold ?f (rv_cells rv) vs ! cell_node rv c = (vs ! cell_node rv c)[i := pv ! fst c ! snd c]"
    if "c \<in> set (rv_cells rv)" for c
    using fold_point_update_hit [OF cells_distinct [OF d rect] that nodes_lt [OF that]] .
  have miss: "fold ?f (rv_cells rv) vs ! n = vs ! n" if "n \<notin> set (concat rv)" for n
  proof -
    have "n \<notin> cell_node rv ` set (rv_cells rv)" using that cells_nodes [OF rect] by simp
    then show ?thesis by (rule fold_point_update_miss)
  qed
  have rowlen: "length (vs ! cell_node rv c) = npaths" if "c \<in> set (rv_cells rv)" for c
    using vok nodes_lt [OF that] by (simp add: rows_ok_def)
  show ?case
  proof (intro exI conjI)
    show "sfold (\<lambda>path (vs, g). case next g of (pv, g') \<Rightarrow>
                    sbind (set_path_variates rv path pv vs) (\<lambda>vs'. Inr (vs', g')))
                 [0..<Suc i] (vals, s) = Inr (fold ?f (rv_cells rv) vs, ((snd \<circ> next) ^^ Suc i) s)"
      using run step by (simp add: sfold_append g_def pv_def case_prod_unfold)
    show "rows_ok (length vals) npaths (fold ?f (rv_cells rv) vs)" using step by simp
    show "\<forall>c \<in> set (rv_cells rv). \<forall>q < npaths. fold ?f (rv_cells rv) vs ! cell_node rv c ! q =
              (if q < Suc i then gen_draw next s q ! fst c ! snd c else vals ! cell_node rv c ! q)"
    proof (intro ballI allI impI)
      fix c q assume c: "c \<in> set (rv_cells rv)" and q: "q < npaths"
      show "fold ?f (rv_cells rv) vs ! cell_node rv c ! q =
              (if q < Suc i then gen_draw next s q ! fst c ! snd c else vals ! cell_node rv c ! q)"
      proof (cases "q = i")
        case True
        then show ?thesis using hit [OF c] rowlen [OF c] q by (simp add: gen_draw_def g_def pv_def)
      next
        case False
        then show ?thesis using hit [OF c] cells c q by (simp add: less_Suc_eq)
      qed
    qed
    show "\<forall>n. n \<notin> set (concat rv) \<longrightarrow> fold ?f (rv_cells rv) vs ! n = vals ! n"
      using miss other by simp
  qed
qed

lemmas demo_eval_simps = add_trades_def demo_portfolio_def demo_state_def add_trade_def
  one_node_builder_def cg_insert_def cg_empty_def cg_size_def cg_set_prefix_def cg_set_variable_def
  cg_variable_def amc_npv_name_def nat_to_string.simps digit_char_def graph_error_def

lemma demo_run: "\<exists>st'. add_trades 1 demo_portfolio demo_state = Inr st'"
  by (simp add: demo_eval_simps)

lemma demo_portfolio_ok: "\<forall>t \<in> set demo_portfolio. engine_ok (snd t)"
  by (simp add: demo_portfolio_def engine_ok_def one_node_builder_ok)

lemma demo_state_wf: "cg_wf (tg_graph demo_state)"
  by (simp add: demo_state_def cg_wf_empty)

lemma add_trades_graph:
  assumes "add_trades nd pf st = Inr st'" and "\<forall>t \<in> set pf. engine_ok (snd t)" and "cg_wf (tg_graph st)"
  shows "cg_wf (tg_graph st') \<and> cg_extends (tg_graph st) (tg_graph st')"
  using assms
proof (induction pf arbitrary: st)
  case (Cons t pf)
  obtain tid eng where t: "t = (tid, eng)" by (cases t)
  from Cons.prems(1) t obtain st1 where s1: "add_trade nd (tid, eng) st = Inr st1"
    and rest: "add_trades nd pf st1 = Inr st'" by (auto simp: add_trades_def)
  have "cg_wf (tg_graph st1) \<and> cg_extends (tg_graph st) (tg_graph st1)"
    using add_trade_graph [OF s1 _ Cons.prems(3)] Cons.prems(2) t by simp
  then show ?case using Cons.IH [OF rest] Cons.prems(2) cg_extends_trans by auto
qed (simp add: add_trades_def)

lemma add_trades_amc:
  assumes "add_trades nd pf st = Inr st'" and "\<forall>t \<in> set pf. engine_ok (snd t)"
    and "cg_wf (tg_graph st)" and "amc_nodes_ok nd (tg_graph st) (amc_npv_nodes st)"
  shows "amc_nodes_ok nd (tg_graph st') (amc_npv_nodes st')"
  using assms
proof (induction pf arbitrary: st)
  case Nil
  then show ?case by (simp add: add_trades_def)
next
  case (Cons t pf)
  obtain tid eng where t: "t = (tid, eng)" by (cases t)
  from Cons.prems(1) t obtain st1 where s1: "add_trade nd (tid, eng) st = Inr st1"
    and rest: "add_trades nd pf st1 = Inr st'" by (auto simp: add_trades_def)
  have ok: "engine_ok eng" using Cons.prems(2) t by simp
  have "amc_nodes_ok nd (tg_graph st1) (amc_npv_nodes st1)"
    using add_trade_amc [OF s1 ok Cons.prems(3,4)] .
  moreover have "cg_wf (tg_graph st1)" using add_trade_graph [OF s1 ok Cons.prems(3)] by blast
  ultimately show ?case using Cons.IH [OF rest] Cons.prems(2) by simp
qed

text \<open>C2. Trade by trade (lines 171--188) the engine records the half-open node range
  each trade's builder appended: in portfolio order the ranges are consecutive, the first
  starts at the size of the model's graph and the last ends at the final size, so distinct
  trades own disjoint ranges covering exactly the nodes the trades added; the shared graph
  stays well-formed and only grows.\<close>

theorem add_trades_node_ranges_tile:
  assumes "add_trades nd pf st = Inr st'" and "\<forall>t \<in> set pf. engine_ok (snd t)"
    and "cg_wf (tg_graph st)" and "distinct (map fst pf)" and "trade_node_ranges st = []"
  shows "map fst (trade_node_ranges st') = map fst pf \<and>
         ranges_tile (cg_size (tg_graph st)) (map snd (trade_node_ranges st')) (cg_size (tg_graph st')) \<and>
         cg_wf (tg_graph st') \<and> cg_extends (tg_graph st) (tg_graph st')"
  using add_trades_ranges [OF assms(1-4)] assms(5) by auto

theorem add_trades_node_ranges_tile_witness:
  "\<exists>st'. add_trades 1 demo_portfolio demo_state = Inr st' \<and>
     map fst (trade_node_ranges st') = [''A'', ''B''] \<and>
     ranges_tile 0 (map snd (trade_node_ranges st')) (cg_size (tg_graph st'))"
proof -
  obtain st' where r: "add_trades 1 demo_portfolio demo_state = Inr st'" using demo_run by blast
  have "distinct (map fst demo_portfolio)" and "trade_node_ranges demo_state = []"
    by (simp_all add: demo_portfolio_def demo_state_def)
  then have "map fst (trade_node_ranges st') = map fst demo_portfolio \<and>
         ranges_tile (cg_size (tg_graph demo_state)) (map snd (trade_node_ranges st')) (cg_size (tg_graph st'))"
    using add_trades_node_ranges_tile [OF r demo_portfolio_ok demo_state_wf] by blast
  then show ?thesis
    using r by (simp add: demo_portfolio_def demo_state_def cg_empty_def cg_size_def)
qed

text \<open>C3. After the trade loop every trade has exactly one NPV node per simulation date
  plus the time-zero NPV node (\<open>amcNpvNodes[id]\<close> has \<open>simulationDates.size() + 1\<close>
  entries), and every one of them is a node of the final graph, so that marking them in
  \<open>keepNodes\<close> stays in range.\<close>

theorem add_trades_npv_nodes:
  assumes "add_trades nd pf st = Inr st'" and "\<forall>t \<in> set pf. engine_ok (snd t)"
    and "cg_wf (tg_graph st)" and "amc_npv_nodes st = []"
  shows "\<forall>e \<in> set (amc_npv_nodes st'). length (snd e) = Suc nd \<and> (\<forall>n \<in> set (snd e). n < cg_size (tg_graph st'))"
proof -
  have "amc_nodes_ok nd (tg_graph st) (amc_npv_nodes st)"
    using assms(4) by (simp add: amc_nodes_ok_def)
  then have "amc_nodes_ok nd (tg_graph st') (amc_npv_nodes st')"
    using add_trades_amc [OF assms(1-3)] by blast
  then show ?thesis by (simp add: amc_nodes_ok_def)
qed

theorem add_trades_npv_nodes_witness:
  "\<exists>st'. add_trades 1 demo_portfolio demo_state = Inr st' \<and>
     (\<forall>e \<in> set (amc_npv_nodes st'). length (snd e) = 2 \<and> (\<forall>n \<in> set (snd e). n < cg_size (tg_graph st')))"
proof -
  obtain st' where r: "add_trades 1 demo_portfolio demo_state = Inr st'" using demo_run by blast
  have "amc_npv_nodes demo_state = []" by (simp add: demo_state_def)
  then show ?thesis
    using r add_trades_npv_nodes [OF r demo_portfolio_ok demo_state_wf] by auto
qed

text \<open>C4. The retention bitmap (lines 240--244) has one flag per graph node and sets
  exactly the flags of the trades' NPV nodes, provided these are nodes of the graph.\<close>

theorem keep_nodes_marks_outputs:
  assumes "\<forall>n \<in> set (concat (map snd amc)). n < gsize"
  shows "\<exists>ks. keep_nodes gsize amc = Inr ks \<and> length ks = gsize \<and>
           (\<forall>n < gsize. ks ! n \<longleftrightarrow> n \<in> set (concat (map snd amc)))"
proof -
  show ?thesis using keep_nodes_Inr [OF assms] by (simp add: fold_update_const_nth)
qed

theorem keep_nodes_marks_outputs_witness:
  "keep_nodes 3 [(''A'', [0, 2])] = Inr [True, False, True]"
proof -
  have "\<forall>n \<in> set (concat (map snd [(''A'', [0::nat, 2])])). n < 3" by simp
  then obtain ks where "keep_nodes 3 [(''A'', [0, 2])] = Inr ks" and "length ks = 3"
    and "\<forall>n < 3. ks ! n \<longleftrightarrow> n \<in> set (concat (map snd [(''A'', [0::nat, 2])]))"
    using keep_nodes_marks_outputs by blast
  moreover have "ks = [True, False, True]"
    using calculation(2,3) by (simp add: list_eq_iff_nth_eq less_Suc_eq numeral_3_eq_3)
  ultimately show ?thesis by simp
qed

text \<open>C5. Populating the random variates (lines 199--215): when the variate node table
  \<open>rv\<close> is rectangular with distinct node indices inside the value vector, every value
  vector has one slot per path and the generator yields draws of the shape it was built
  for, the loop never reads out of range, and afterwards path \<open>p\<close> of node
  \<open>rv[k][j]\<close> holds component \<open>[j][k]\<close> of the generator's \<open>p\<close>-th draw, while every
  other node keeps its value.\<close>

theorem populate_random_variates_slices:
  assumes ne: "rv \<noteq> []" and rect: "\<forall>k < length rv. length (rv ! k) = length (hd rv)"
    and d: "distinct (concat rv)" and bounds: "\<forall>n \<in> set (concat rv). n < length vals"
    and rows: "\<forall>v \<in> set vals. length v = npaths"
    and shape: "\<forall>g. length (fst (next g)) = length (hd rv) \<and>
                    (\<forall>j < length (hd rv). length (fst (next g) ! j) = length rv)"
  shows "\<exists>vals'. populate_random_variates npaths rv next s vals = Inr vals' \<and> length vals' = length vals \<and>
     (\<forall>k < length rv. \<forall>j < length (rv ! k). \<forall>path < npaths.
        vals' ! (rv ! k ! j) ! path = gen_draw next s path ! j ! k) \<and>
     (\<forall>n < length vals. n \<notin> set (concat rv) \<longrightarrow> vals' ! n = vals ! n)"
proof -
  have ok: "rows_ok (length vals) npaths vals" using rows by (simp add: rows_ok_def)
  obtain vs where run: "sfold (\<lambda>path (vs, g). case next g of (pv, g') \<Rightarrow>
                    sbind (set_path_variates rv path pv vs) (\<lambda>vs'. Inr (vs', g')))
                 [0..<npaths] (vals, s) = Inr (vs, ((snd \<circ> next) ^^ npaths) s)"
    and vok: "rows_ok (length vals) npaths vs"
    and cells: "\<forall>c \<in> set (rv_cells rv). \<forall>q < npaths. vs ! cell_node rv c ! q =
              (if q < npaths then gen_draw next s q ! fst c ! snd c else vals ! cell_node rv c ! q)"
    and other: "\<forall>n. n \<notin> set (concat rv) \<longrightarrow> vs ! n = vals ! n"
    using populate_paths [OF rect d bounds ok shape order.refl] by blast
  have slot: "vs ! (rv ! k ! j) ! path = gen_draw next s path ! j ! k"
    if "k < length rv" "j < length (rv ! k)" "path < npaths" for k j path
  proof -
    have "(j, k) \<in> set (rv_cells rv)" using that rect by (simp add: rv_cells_def)
    then show ?thesis using cells that by (fastforce simp: cell_node_def)
  qed
  have res: "populate_random_variates npaths rv next s vals = Inr vs"
    using ne run by (simp add: populate_random_variates_def)
  show ?thesis
    using res vok slot other by (auto simp: rows_ok_def)
qed

theorem populate_random_variates_slices_witness:
  "\<exists>vals'. populate_random_variates 2 [[0, 1]] (\<lambda>g::nat. ([[real g], [real g + 1]], g + 2)) 0
              [[0, 0], [0, 0], [7, 7]] = Inr vals' \<and>
           vals' ! 1 ! 1 = 3 \<and> vals' ! 2 = [7, 7]"
proof -
  have h: "[[0::nat, 1]] \<noteq> []"
    "\<forall>k < length [[0::nat, 1]]. length ([[0::nat, 1]] ! k) = length (hd [[0::nat, 1]])"
    "distinct (concat [[0::nat, 1]])"
    "\<forall>n \<in> set (concat [[0::nat, 1]]). n < length [[0::real, 0], [0, 0], [7, 7]]"
    "\<forall>v \<in> set [[0::real, 0], [0, 0], [7, 7]]. length v = 2"
    "\<forall>g::nat. length (fst ([[real g], [real g + 1]], g + 2)) = length (hd [[0::nat, 1]]) \<and>
        (\<forall>j < length (hd [[0::nat, 1]]). length (fst ([[real g], [real g + 1]], g + 2) ! j) = length [[0::nat, 1]])"
    by (simp_all add: less_Suc_eq numeral_2_eq_2)
  obtain vals' where r: "populate_random_variates 2 [[0, 1]] (\<lambda>g::nat. ([[real g], [real g + 1]], g + 2)) 0
              [[0, 0], [0, 0], [7, 7]] = Inr vals'"
    and slot: "\<forall>k < length [[0::nat, 1]]. \<forall>j < length ([[0::nat, 1]] ! k). \<forall>path < 2.
        vals' ! ([[0::nat, 1]] ! k ! j) ! path = gen_draw (\<lambda>g::nat. ([[real g], [real g + 1]], g + 2)) 0 path ! j ! k"
    and other: "\<forall>n < length [[0::real, 0], [0, 0], [7, 7]]. n \<notin> set (concat [[0::nat, 1]]) \<longrightarrow>
        vals' ! n = [[0::real, 0], [0, 0], [7, 7]] ! n"
    using populate_random_variates_slices [OF h, of 0] by blast
  have "vals' ! ([[0::nat, 1]] ! 0 ! 1) ! 1 = gen_draw (\<lambda>g::nat. ([[real g], [real g + 1]], g + 2)) 0 1 ! 1 ! 0"
    using slot [rule_format, of 0 1 1] by simp
  then have "vals' ! 1 ! 1 = gen_draw (\<lambda>g::nat. ([[real g], [real g + 1]], g + 2)) 0 1 ! 1 ! 0"
    by simp
  also have "\<dots> = 3" by (simp add: gen_draw_def)
  finally have "vals' ! 1 ! 1 = 3" .
  moreover have "vals' ! 2 = [7, 7]" using other by simp
  ultimately show ?thesis using r by blast
qed

text \<open>C6. Constants are broadcast first and model parameters after them (lines 223--230):
  if every node index is inside the value vector, both loops succeed, a node bound to a
  model parameter holds the last value given for it on every path, a constant node not
  bound to a parameter holds its literal on every path, and every other node keeps its
  value.\<close>

theorem populate_constants_then_parameters:
  assumes "\<forall>c \<in> set cs. snd c < length vals" and "\<forall>p \<in> set ps. fst p < length vals"
  shows "\<exists>v1 v2. populate_constants np cs vals = Inr v1 \<and> populate_model_parameters np ps v1 = Inr v2 \<and>
     length v2 = length vals \<and>
     (\<forall>n < length vals. v2 ! n =
        (case map_of (rev ps) n of
           Some x \<Rightarrow> replicate np x
         | None \<Rightarrow> (case map_of (rev (map (\<lambda>(x, n). (n, x)) cs)) n of
                      Some x \<Rightarrow> replicate np x
                    | None \<Rightarrow> vals ! n)))"
proof -
  have "\<forall>p \<in> set (map (\<lambda>(x, n). (n, x)) cs). fst p < length vals" using assms(1) by auto
  then obtain v1 where v1: "populate_constants np cs vals = Inr v1" and l1: "length v1 = length vals"
    and at1: "\<forall>n < length vals. v1 ! n = (case map_of (rev (map (\<lambda>(x, n). (n, x)) cs)) n of
                 Some x \<Rightarrow> replicate np x | None \<Rightarrow> vals ! n)"
    unfolding populate_constants_def using broadcast_into_nth by blast
  have "\<forall>p \<in> set ps. fst p < length v1" using assms(2) l1 by simp
  then obtain v2 where v2: "populate_model_parameters np ps v1 = Inr v2" and l2: "length v2 = length v1"
    and at2: "\<forall>n < length v1. v2 ! n = (case map_of (rev ps) n of Some x \<Rightarrow> replicate np x | None \<Rightarrow> v1 ! n)"
    unfolding populate_model_parameters_def using broadcast_into_nth by blast
  show ?thesis
    using v1 v2 l1 l2 at1 at2 by (auto split: option.splits)
qed

theorem populate_constants_then_parameters_witness:
  "populate_constants 2 [(2, 0), (3, 1)] [[0, 0], [0, 0], [0, 0]] = Inr [[2, 2], [3, 3], [0, 0]] \<and>
   populate_model_parameters 2 [(1, 5)] [[2, 2], [3, 3], [0, 0]] = Inr [[2, 2], [5, 5], [0, 0]]"
proof -
  have "\<forall>c \<in> set [(2::real, 0::nat), (3, 1)]. snd c < length [[0::real, 0], [0, 0], [0, 0]]"
    and "\<forall>p \<in> set [(1::nat, 5::real)]. fst p < length [[0::real, 0], [0, 0], [0, 0]]" by simp_all
  then obtain v1 v2 where "populate_constants 2 [(2, 0), (3, 1)] [[0, 0], [0, 0], [0, 0]] = Inr v1"
    and "populate_model_parameters 2 [(1, 5)] v1 = Inr v2"
    using populate_constants_then_parameters by blast
  moreover have "populate_constants 2 [(2, 0), (3, 1)] [[0, 0], [0, 0], [0, 0]] = Inr [[2, 2], [3, 3], [0, 0]]"
    by (simp add: populate_constants_def broadcast_into_def numeral_2_eq_2)
  moreover have "populate_model_parameters 2 [(1, 5)] [[2, 2], [3, 3], [0, 0]] = Inr [[2, 2], [5, 5], [0, 0]]"
    by (simp add: populate_model_parameters_def broadcast_into_def numeral_2_eq_2)
  ultimately show ?thesis by simp
qed

text \<open>C7. The test duplication of the portfolio (lines 55--64) renames trade \<open>id\<close> of copy
  \<open>i\<close> to \<open>id_i\<close> (\<open>i\<close> from 1 to \<open>N\<close>): the ids it produces are exactly these, and
  they are pairwise distinct whenever the original ids are, so \<open>portfolio_->add\<close> never
  meets a duplicate id; the original portfolio itself is not kept, and with \<open>N = 0\<close> the
  engine prices no trade at all.\<close>

theorem duplicate_portfolio_ids:
  assumes "distinct (map fst pf)"
  shows "distinct (map fst (duplicate_portfolio n pf)) \<and> length (duplicate_portfolio n pf) = n * length pf \<and>
         set (map fst (duplicate_portfolio n pf)) = {duplicated_id tid i | tid i. tid \<in> set (map fst pf) \<and> i < n}"
proof (intro conjI)
  show "distinct (map fst (duplicate_portfolio n pf))"
  proof (induction n)
    case (Suc n)
    have "distinct (map (\<lambda>tid. duplicated_id tid n) (map fst pf))"
      using assms by (simp add: distinct_map inj_on_def duplicated_id_inj)
    moreover have "duplicated_id a n \<noteq> duplicated_id b i" if "i < n" for a b i
      using that by (simp add: duplicated_id_inj)
    ultimately show ?case
      using Suc.IH by (auto simp: map_fst_duplicate_portfolio)
  qed (simp add: duplicate_portfolio_def)
  show "length (duplicate_portfolio n pf) = n * length pf"
    by (induction n) (simp_all add: duplicate_portfolio_def)
  show "set (map fst (duplicate_portfolio n pf)) = {duplicated_id tid i | tid i. tid \<in> set (map fst pf) \<and> i < n}"
    by (auto simp: map_fst_duplicate_portfolio image_iff) (metis fst_conv)
qed

theorem duplicate_portfolio_ids_witness:
  "distinct (map fst (duplicate_portfolio 2 [(''a'', ()), (''a_1'', ())]))"
proof -
  have "distinct (map fst [(''a'', ()), (''a_1'', ())])" by simp
  then show ?thesis using duplicate_portfolio_ids by blast
qed

text \<open>C29. Every value the constructor hands to the forward evaluation is a random variable
  of the model's size. The value vector starts as \<open>g->size()\<close> zero variables of
  \<open>model_->size()\<close> paths (line 199). Setting the random variates path by path (lines
  206--212) and overwriting constants and model parameters with
  \<open>RandomVariable(model_->size(), x)\<close> (lines 223--230) keep that shape, so the operators of
  the evaluation always combine variables of equal size.\<close>

theorem populated_values_typed:
  assumes "populate_random_variates np rv next s (replicate len (replicate np 0)) = Inr v1"
    and "populate_constants np cs v1 = Inr v2" and "populate_model_parameters np ps v2 = Inr v3"
  shows "rows_ok len np v3"
proof -
  have "rows_ok len np v1"
  proof (rule populate_random_variates_preserves [OF assms(1), where P = "rows_ok len np"])
    show "rows_ok len np (replicate len (replicate np 0))" by (simp add: rows_ok_def)
  next
    fix path pv ws ws' assume "rows_ok len np ws" and "set_path_variates rv path pv ws = Inr ws'"
    then show "rows_ok len np ws'"
      using set_path_variates_preserves [where P = "rows_ok len np"] rv_set_rows_ok by blast
  qed
  then have "rows_ok len np v2"
    using assms(2) by (simp add: populate_constants_def broadcast_into_rows_ok)
  then show ?thesis
    using assms(3) by (simp add: populate_model_parameters_def broadcast_into_rows_ok)
qed


theorem populated_values_typed_witness:
  "\<exists>v1 v2 v3. populate_random_variates 2 [[0]] (\<lambda>g. ([[1]], g)) () (replicate 2 (replicate 2 0)) = Inr v1 \<and>
     populate_constants 2 [(5, 1)] v1 = Inr v2 \<and> populate_model_parameters 2 [] v2 = Inr v3 \<and>
     rows_ok 2 2 v3"
proof -
  have r1: "populate_random_variates 2 [[0]] (\<lambda>g. ([[1]], g)) () (replicate 2 (replicate 2 0)) = Inr [[1, 1], [0, 0]]"
    by (simp add: populate_random_variates_def set_path_variates_def rv_set_def nth_checked_def numeral_2_eq_2)
  have r2: "populate_constants 2 [(5, 1)] [[1, 1], [0, 0]] = Inr [[1, 1], [5, 5]]"
    by (simp add: populate_constants_def broadcast_into_def numeral_2_eq_2)
  have r3: "populate_model_parameters 2 [] [[1, 1], [5, 5]] = Inr [[1, 1], [5, 5]]"
    by (simp add: populate_model_parameters_def broadcast_into_def)
  show ?thesis using populated_values_typed [OF r1 r2 r3] r1 r2 r3 by blast
qed

text \<open>C33. The copy loop of lines 57--63 runs its \<open>Size\<close> counter up to the 32-bit
  \<open>N\<close> read as a 64-bit unsigned number, and produces exactly the duplicated portfolio with
  that many copies: \<open>N\<close> copies for a non-negative \<open>N\<close>, \<open>2^64 + N\<close> copies for a
  negative one.\<close>

theorem duplication_loop_copies:
  "dup_loop 0 (dup_bound n) pf [] =
   duplicate_portfolio (if 0 \<le> sint n then nat (sint n) else nat (sint n + 2 ^ 64)) pf"
proof -
  have "dup_loop 0 (dup_bound n) pf [] = duplicate_portfolio (unat (dup_bound n)) pf"
    by (simp add: dup_loop_concat duplicate_portfolio_def)
  then show ?thesis by (simp only: unat_dup_bound)
qed

theorem duplication_loop_copies_witness:
  "length (dup_loop 0 (dup_bound (- 1)) [(''T1'', ())] []) = 2 ^ 64 - 1 \<and>
   dup_loop 0 (dup_bound 0) [(''T1'', ())] [] = []"
  using duplication_loop_copies [of "- 1" "[(''T1'', ())]"] duplication_loop_copies [of 0 "[(''T1'', ())]"]
  by (simp add: length_duplicate_portfolio duplicate_portfolio_def)

end
