(* ===== verification/NormalSabr.thy ===== *)
theory NormalSabr
  imports Prelude
begin

text \<open>
  The normal SABR implied volatility of \<open>src/QuantExt/qle/models/normalsabr.cpp\<close>
  (Hagan's expansion for the normal model with the parameter clamping of lines 30--34), the
  alpha that reproduces an ATM volatility (line 49), and the helper functions \<open>deltaR\<close>,
  \<open>gfct\<close>, \<open>R\<close> and \<open>G\<close> of the anonymous namespace (lines 54--73), which serve the
  free-boundary variant declared at line 77 but not defined.

  The C++ \<open>Real\<close> is modelled as \<open>real\<close>: values are exact and rounding is not
  modelled. The IEEE special values that line 39 can produce are modelled as branches:
  \<^item> \<open>std::sqrt\<close> or \<open>std::log\<close> of a negative number is NaN. The NaN reaches \<open>vol\<close>,
    and the \<open>QL_REQUIRE(std::isfinite(vol))\<close> of line 42 throws (\<open>InvalidVol\<close>).
  \<^item> \<open>std::log(0)\<close> is \<open>-inf\<close>. Then \<open>close_enough(-inf, 0)\<close> is false, and
    \<open>zeta / -inf\<close> is 0. So \<open>vol\<close> is 0, and the floor \<open>1E-5\<close> is returned.

  Over exact reals these branches are never taken (\<open>normal_sabr_volatility_exact_total\<close>).
  In doubles they are: for strikes far above the forward with \<open>rho\<close> near 1, the sum
  \<open>sqrt(...) - rho + zeta\<close> cancels to 0 or to a negative number. Claims that hold only in
  exact arithmetic are therefore not stated as properties of the code.

  QuantLib's \<open>close_enough\<close> is modelled after its definition in \<open>ql/math/comparison.hpp\<close>.
\<close>

datatype sabr_error = InvalidVol
  \<comment> \<open>the \<open>QL_REQUIRE\<close> of line 42\<close>

definition ql_epsilon :: real where
  "ql_epsilon = 1 / 2 ^ 52"
  \<comment> \<open>\<open>QL_EPSILON\<close>, i.e. \<open>DBL_EPSILON\<close>\<close>

text \<open>\<open>close_enough(x, y)\<close> with its default of 42 ulps.\<close>

definition close_enough :: "real \<Rightarrow> real \<Rightarrow> bool" where
  "close_enough x y =
     (if x = y then True
      else let diff = \<bar>x - y\<bar>; tolerance = 42 * ql_epsilon in
        if x * y = 0 then diff < tolerance * tolerance
        else diff \<le> tolerance * \<bar>x\<bar> \<and> diff \<le> tolerance * \<bar>y\<bar>)"

text \<open>Lines 31--34: \<open>rho\<close> is pulled into \<open>[-1 + 1E-5, 1 - 1E-5]\<close>.\<close>

definition sabr_clamp_rho :: "real \<Rightarrow> real" where
  "sabr_clamp_rho rho =
     (if rho < -1 + 0.00001 then -1 + 0.00001 else if rho > 1 - 0.00001 then 1 - 0.00001 else rho)"

text \<open>The argument of the \<open>log\<close> of line 39: \<open>(sqrt(1 - 2 rho zeta + zeta^2) - rho + zeta) / (1 - rho)\<close>.\<close>

definition sabr_log_arg :: "real \<Rightarrow> real \<Rightarrow> real" where
  "sabr_log_arg zeta rho = (sqrt (1 - 2 * rho * zeta + zeta * zeta) - rho + zeta) / (1 - rho)"

text \<open>The time correction \<open>1 + T (2 - 3 rho^2) nu^2 / 24\<close> of lines 41 and 49, evaluated in the
  order the code writes it.\<close>

definition sabr_time_factor :: "real \<Rightarrow> real \<Rightarrow> real \<Rightarrow> real" where
  "sabr_time_factor expiryTime nu rho = 1 + expiryTime * (2 - 3 * rho * rho) * nu * nu / 24"

text \<open>Lines 26--46. A negative radicand or log argument makes \<open>x\<close>, \<open>f\<close> and \<open>vol\<close> NaN,
  and line 42 throws. A zero log argument makes \<open>x = -inf\<close> and \<open>f = 0\<close>. Otherwise
  \<open>x = ln a\<close>, and \<open>f\<close> is 1 when \<open>x\<close> is \<open>close_enough\<close> to 0, else \<open>zeta / x\<close>.\<close>

definition normal_sabr_volatility :: "real \<Rightarrow> real \<Rightarrow> real \<Rightarrow> real \<Rightarrow> real \<Rightarrow> real \<Rightarrow> sabr_error + real" where
  "normal_sabr_volatility strike forward expiryTime alpha nu rho =
     (let alpha = max alpha 0.00001;
          rho = sabr_clamp_rho rho;
          zeta = nu / alpha * (forward - strike);
          a = sabr_log_arg zeta rho
      in if 1 - 2 * rho * zeta + zeta * zeta < 0 \<or> a < 0 then Inl InvalidVol
         else
           let f = (if a = 0 then 0 else if close_enough (ln a) 0 then 1 else zeta / ln a);
               vol = alpha * f * sabr_time_factor expiryTime nu rho
           in Inr (max vol 0.00001))"

definition normal_sabr_alpha_from_atm_vol :: "real \<Rightarrow> real \<Rightarrow> real \<Rightarrow> real \<Rightarrow> real \<Rightarrow> real" where
  "normal_sabr_alpha_from_atm_vol forward expiryTime atmVol nu rho =
     max (atmVol / sabr_time_factor expiryTime nu rho) 0.00001"

subsection \<open>The helpers of the free-boundary expansion (lines 54--73)\<close>

definition deltaR :: "real \<Rightarrow> real \<Rightarrow> real" where
  "deltaR t s = exp (t / 8) - (3072 + t * (384 * t * (24 + t))) / 3072"

definition gfct :: "real \<Rightarrow> real" where
  "gfct s = s / tanh s - 1"

definition R_fct :: "real \<Rightarrow> real \<Rightarrow> real" where
  "R_fct t s =
     (let s2 = s * s; s4 = s2 * s2; s6 = s2 * s4; t2 = t * t; t3 = t2 * t;
          g = gfct s; g2 = g * g; g3 = g2 * g
      in 1 + 3 * t * g / (8 * s2) - (5 * t2 * (-8 * s2 + 3 * g2 + 24 * g)) / (128 * s4) +
         (35 * t3 * (-40 * s2 + 3 * g3 + 24 * g2 + 120 * g)) / (1024 * s6))"

text \<open>\<open>G\<close> evaluates its expression and discards it: the function has no \<open>return\<close>
  statement, so its result is undefined behaviour, modelled as \<open>None\<close>.\<close>

definition G :: "real \<Rightarrow> real \<Rightarrow> real option" where
  "G t s = (let v = sqrt (sinh s / s) * exp (- s * s / (2 * t) - t / 8) * (R_fct t s + deltaR t s) in None)"

text \<open>What \<open>deltaR\<close> is meant to be: the remainder of the cubic Taylor polynomial of
  \<open>exp(t/8)\<close>, whose Horner form is \<open>3072 + t (384 + t (24 + t))\<close>.\<close>

definition taylor_remainder :: "real \<Rightarrow> real" where
  "taylor_remainder t = exp (t / 8) - (3072 + t * (384 + t * (24 + t))) / 3072"

subsection \<open>Domain of the formula\<close>

lemma sabr_clamp_rho_abs: "\<bar>sabr_clamp_rho rho\<bar> < 1"
  unfolding sabr_clamp_rho_def by (auto simp: abs_less_iff)

lemma sabr_clamp_rho_id: "-1 + 0.00001 \<le> rho \<Longrightarrow> rho \<le> 1 - 0.00001 \<Longrightarrow> sabr_clamp_rho rho = rho"
  by (simp add: sabr_clamp_rho_def)

lemma sabr_radicand: "1 - 2 * rho * zeta + zeta * zeta = (zeta - rho)\<^sup>2 + (1 - rho\<^sup>2 :: real)"
  by (simp add: power2_eq_square algebra_simps)

lemma sabr_radicand_pos: "\<bar>rho :: real\<bar> < 1 \<Longrightarrow> 0 < 1 - 2 * rho * zeta + zeta * zeta"
proof -
  assume "\<bar>rho\<bar> < 1"
  then have "rho\<^sup>2 < 1" by (simp add: abs_square_less_1)
  then show ?thesis unfolding sabr_radicand by (simp add: add_nonneg_pos)
qed

lemma sabr_sqrt_gt: "\<bar>rho :: real\<bar> < 1 \<Longrightarrow> \<bar>zeta - rho\<bar> < sqrt (1 - 2 * rho * zeta + zeta * zeta)"
proof -
  assume r: "\<bar>rho\<bar> < 1"
  then have "rho\<^sup>2 < 1" by (simp add: abs_square_less_1)
  then have "sqrt ((zeta - rho)\<^sup>2) < sqrt (1 - 2 * rho * zeta + zeta * zeta)"
    unfolding sabr_radicand by (intro real_sqrt_less_mono) simp
  then show ?thesis by simp
qed

lemma sabr_log_arg_pos:
  "\<bar>rho :: real\<bar> < 1 \<Longrightarrow> 0 < sqrt (1 - 2 * rho * zeta + zeta * zeta) - rho + zeta"
  using sabr_sqrt_gt [of rho zeta] by linarith

lemma sabr_log_arg_zero: "rho < 1 \<Longrightarrow> sabr_log_arg 0 rho = 1"
  by (simp add: sabr_log_arg_def)

text \<open>Over exact reals the clamped \<open>rho\<close> keeps the radicand and the log argument positive,
  so the model never reaches line 42's error. This is a property of the real-number model
  only: in doubles the log argument cancels to 0 or below (see the findings).\<close>

lemma normal_sabr_volatility_exact_total:
  "\<exists>v. normal_sabr_volatility strike forward t alpha nu rho = Inr v"
proof -
  let ?c = "sabr_clamp_rho rho" and ?z = "nu / max alpha 0.00001 * (forward - strike)"
  have r: "\<bar>?c\<bar> < 1" by (rule sabr_clamp_rho_abs)
  then have d: "0 < 1 - ?c" by (simp add: abs_less_iff)
  have "0 < sabr_log_arg ?z ?c"
    using sabr_log_arg_pos [OF r, of ?z] d by (simp add: sabr_log_arg_def)
  then have h: "(1 - 2 * ?c * ?z + ?z * ?z < 0 \<or> sabr_log_arg ?z ?c < 0) = False"
    using sabr_radicand_pos [OF r, of ?z] by simp
  show ?thesis unfolding normal_sabr_volatility_def Let_def h if_False by simp
qed

subsection \<open>Properties\<close>

text \<open>C8. \<open>normalSabrAlphaFromAtmVol\<close> inverts \<open>normalSabrVolatility\<close> at the money: with
  \<open>rho\<close> inside the clamping range, a positive time correction and an ATM volatility
  large enough that neither floor binds, the volatility computed at strike = forward from the
  returned alpha is the ATM volatility.\<close>

theorem normal_sabr_atm_roundtrip:
  assumes "-1 + 0.00001 \<le> rho" and "rho \<le> 1 - 0.00001" and "0 < sabr_time_factor t nu rho"
    and "0.00001 * sabr_time_factor t nu rho \<le> atmVol" and "0.00001 \<le> atmVol"
  shows "normal_sabr_volatility forward forward t (normal_sabr_alpha_from_atm_vol forward t atmVol nu rho) nu rho = Inr atmVol"
proof -
  have a: "atmVol / sabr_time_factor t nu rho \<ge> 0.00001"
    using assms(3,4) by (simp add: pos_le_divide_eq)
  have r: "sabr_clamp_rho rho = rho" using sabr_clamp_rho_id assms(1,2) .
  have x0: "sabr_log_arg 0 rho = 1" using assms(2) by (simp add: sabr_log_arg_zero)
  show ?thesis
    using a assms(3,5) by (simp add: normal_sabr_volatility_def normal_sabr_alpha_from_atm_vol_def r x0
        close_enough_def Let_def max_def)
qed

theorem normal_sabr_atm_roundtrip_witness:
  "normal_sabr_volatility 0.03 0.03 0 (normal_sabr_alpha_from_atm_vol 0.03 0 0.01 0 0) 0 0 = Inr 0.01"
  by (rule normal_sabr_atm_roundtrip) (simp_all add: sabr_time_factor_def)

text \<open>C9. \<open>deltaR\<close> (line 54) is meant to be the remainder of the cubic Taylor polynomial of
  \<open>exp(t/8)\<close>, but the code's polynomial \<open>3072 + t (384 t (24 + t))\<close> is not the Horner form
  \<open>3072 + t (384 + t (24 + t))\<close>: the two agree only at \<open>t = 0\<close> and at the two roots of
  \<open>383 t^2 + 9192 t - 384\<close>.\<close>

theorem deltaR_vs_taylor:
  "deltaR t s = taylor_remainder t \<longleftrightarrow> t = 0 \<or> 383 * t\<^sup>2 + 9192 * t - 384 = 0"
proof -
  have p: "(3072 + t * (384 + t * (24 + t))) - (3072 + t * (384 * t * (24 + t))) =
           - t * (383 * t\<^sup>2 + 9192 * t - 384)"
    by (simp add: algebra_simps power2_eq_square)
  have "deltaR t s - taylor_remainder t =
        ((3072 + t * (384 + t * (24 + t))) - (3072 + t * (384 * t * (24 + t)))) / 3072"
    unfolding deltaR_def taylor_remainder_def by (simp add: field_simps)
  then have "deltaR t s - taylor_remainder t = - t * (383 * t\<^sup>2 + 9192 * t - 384) / 3072"
    by (simp only: p)
  then show ?thesis by auto
qed

end
