(* ===== verification/IterativeBootstrap.thy ===== *)
theory IterativeBootstrap
  imports Prelude "HOL-Library.Word"
begin

text \<open>
  \<open>QuantExt::IterativeBootstrap\<close> of \<open>src/QuantExt/qle/termstructures/iterativebootstrap.hpp\<close>:
  the set-up of the bootstrap helpers (\<open>setup\<close>, lines 69--76), the computation of the pillar
  dates and of the initial guess (\<open>initialize\<close>, lines 78--145) and the convergence loop with
  its single retry without the previous curve as guess (\<open>calculate\<close>, lines 147--263).
  Dates are serial numbers (\<open>int\<close>). The curve's \<open>Traits\<close> and \<open>Interpolator\<close> and the
  two one-dimensional solvers are collaborators whose code is outside the sources: they are
  the fields of the record \<open>bootstrap_traits\<close>, arbitrary functions of the pillar index, the
  curve data and the \<open>validData\<close> flag. A solver call returns the new curve data or the
  message of the exception it throws. \<open>QuantLib::Size\<close> is \<open>64 word\<close> where the code does
  arithmetic on it that can wrap (\<open>maxIterations() - 1\<close>, \<open>requiredPoints - 1\<close>, the
  iteration counter), and \<open>nat\<close> where it only indexes vectors.
\<close>

record helper =
  pillar_date :: int
  latest_relevant_date :: int
  quote_valid :: bool

datatype bootstrap_error =
    NoHelpers
  | AllInstrumentsExpired
  | NotEnoughAlive nat
  | DuplicatedPillar int
  | LatestRelevantDateNotIncreasing nat
  | InvalidQuote nat
  | InterpolationFailed nat
  | SolverFailed nat string          \<comment> \<open>exception of a solver at the i-th alive pillar\<close>
  | IterationFailed "64 word" nat string
  | NoConvergence "64 word" real
  | UndefinedBehaviour               \<comment> \<open>out-of-range read of \<open>instruments_\<close>\<close>

record bootstrap_traits =
  initial_date :: int                                   \<comment> \<open>\<open>Traits::initialDate(ts_)\<close>\<close>
  initial_value :: real                                 \<comment> \<open>\<open>Traits::initialValue(ts_)\<close>\<close>
  max_iterations :: "64 word"                           \<comment> \<open>\<open>Traits::maxIterations()\<close>\<close>
  required_points :: "64 word"                          \<comment> \<open>\<open>Interpolator::requiredPoints\<close>\<close>
  interp_global :: bool                                 \<comment> \<open>\<open>Interpolator::global\<close>\<close>
  time_from_reference :: "int \<Rightarrow> real"
  min_value_after :: "nat \<Rightarrow> real list \<Rightarrow> bool \<Rightarrow> nat \<Rightarrow> real"
  max_value_after :: "nat \<Rightarrow> real list \<Rightarrow> bool \<Rightarrow> nat \<Rightarrow> real"
  guess_value :: "nat \<Rightarrow> real list \<Rightarrow> bool \<Rightarrow> nat \<Rightarrow> real"
  extend_interpolation :: "nat \<Rightarrow> real list \<Rightarrow> bool"  \<comment> \<open>\<open>interpolator_.interpolate\<close> does not throw\<close>
  solve :: "nat \<Rightarrow> bool \<Rightarrow> real \<Rightarrow> real \<Rightarrow> real \<Rightarrow> real list \<Rightarrow> string + real list"
  accuracy :: real                                      \<comment> \<open>\<open>ts_->accuracy_\<close>\<close>
  global_accuracy :: real                               \<comment> \<open>\<open>globalAccuracy_\<close>\<close>

text \<open>The members of the bootstrap and of the curve \<open>ts_\<close> it writes.\<close>

record bootstrap_state =
  instruments :: "helper list"
  bs_dates :: "int list"
  bs_times :: "real list"
  bs_data :: "real list"
  previous_data :: "real list"
  max_date :: int
  moving :: bool
  initialized :: bool
  valid_curve :: bool
  loop_required :: bool
  first_alive_helper :: nat
  alive :: nat

definition bootstrap_setup :: "bootstrap_state \<Rightarrow> bootstrap_error + bootstrap_state" where
  "bootstrap_setup st = (if length (instruments st) > 0 then Inr st else Inl NoHelpers)"

text \<open>Lines 87--89: the scan for the first helper whose pillar is after the first date. The
  loop reads \<open>instruments_[i]\<close> without a bound check; a read past the end is undefined
  behaviour, the value \<open>None\<close>.\<close>

partial_function (option) first_alive :: "helper list \<Rightarrow> int \<Rightarrow> nat \<Rightarrow> nat option" where
  "first_alive ins fd i =
     (if i < length ins then (if pillar_date (ins ! i) \<le> fd then first_alive ins fd (i + 1) else Some i)
      else None)"

text \<open>One step of the pillar loop of lines 107--133 for helper \<open>j\<close>: the dates so far, the
  maximal latest relevant date and \<open>loopRequired_\<close>.\<close>

definition pillar_step :: "helper list \<Rightarrow> nat \<Rightarrow> int list \<times> int \<times> bool \<Rightarrow> bootstrap_error + int list \<times> int \<times> bool" where
  "pillar_step ins j acc =
     (case acc of (ds, md, lr) \<Rightarrow>
       let h = ins ! j; d = pillar_date h in
       if last ds = d then Inl (DuplicatedPillar d)
       else let lrd = latest_relevant_date h in
         if \<not> md < lrd then Inl (LatestRelevantDateNotIncreasing j)
         else Inr (ds @ [d], lrd, lr \<or> d \<noteq> lrd))"

text \<open>\<open>std::vector::resize(n)\<close> with value-initialised new elements.\<close>

definition resize :: "nat \<Rightarrow> 'a \<Rightarrow> 'a list \<Rightarrow> 'a list" where
  "resize n x xs = take n xs @ replicate (n - length xs) x"

definition initialize :: "bootstrap_traits \<Rightarrow> bootstrap_state \<Rightarrow> bootstrap_error + bootstrap_state" where
  "initialize tr st =
     (let ins = sort_key pillar_date (instruments st); n = length ins; fd = initial_date tr in
      if n = 0 then Inl UndefinedBehaviour
      else if \<not> fd < pillar_date (ins ! (n - 1)) then Inl AllInstrumentsExpired
      else case first_alive ins fd 0 of
        None \<Rightarrow> Inl UndefinedBehaviour
      | Some fa \<Rightarrow>
          let alv = n - fa in
          if \<not> required_points tr - 1 \<le> (word_of_nat alv :: 64 word) then Inl (NotEnoughAlive alv)
          else sbind (sfold (pillar_step ins) [fa..<n] ([fd], fd, loop_required st)) (\<lambda>(ds, md, lr).
            let reinit = (\<not> valid_curve st \<or> length (bs_data st) \<noteq> alv + 1) in
            Inr (st\<lparr>instruments := ins, bs_dates := ds, bs_times := map (time_from_reference tr) ds,
                    max_date := md, loop_required := lr, first_alive_helper := fa, alive := alv,
                    bs_data := (if reinit then replicate (alv + 1) (initial_value tr) else bs_data st),
                    previous_data := (if reinit then resize (alv + 1) 0 (previous_data st) else previous_data st),
                    initialized := True\<rparr>)))"

subsection \<open>The convergence loop (lines 147--263)\<close>

text \<open>Lines 194--197.\<close>

definition adjust_guess :: "real \<Rightarrow> real \<Rightarrow> real \<Rightarrow> real" where
  "adjust_guess mn mx g =
     (if mx \<le> g then mx - (mx - mn) / 5 else if g \<le> mn then mn + (mx - mn) / 5 else g)"

text \<open>Lines 189--240 for pillar \<open>i\<close>: bracket, guess, extend the interpolation when the
  data are not yet valid (falling back to linear interpolation for a global interpolator), and
  call the Newton-safe solver on valid data, Brent otherwise.\<close>

definition solve_pillar :: "bootstrap_traits \<Rightarrow> bool \<Rightarrow> nat \<Rightarrow> nat \<Rightarrow> real list \<Rightarrow> bootstrap_error + real list" where
  "solve_pillar tr validData fa i data =
     (let mn = min_value_after tr i data validData fa;
          mx = max_value_after tr i data validData fa;
          g = adjust_guess mn mx (guess_value tr i data validData fa) in
      if \<not> validData \<and> \<not> extend_interpolation tr i data \<and> \<not> interp_global tr then Inl (InterpolationFailed i)
      else map_sum (SolverFailed i) id (solve tr i validData g mn mx data))"

definition sweep :: "bootstrap_traits \<Rightarrow> bool \<Rightarrow> nat \<Rightarrow> nat \<Rightarrow> real list \<Rightarrow> bootstrap_error + real list" where
  "sweep tr validData fa alv data = sfold (solve_pillar tr validData fa) [1..<alv + 1] data"

text \<open>Lines 247--249.\<close>

definition max_change :: "real list \<Rightarrow> real list \<Rightarrow> nat \<Rightarrow> real" where
  "max_change data prev alv = fold (\<lambda>i c. max c \<bar>data ! i - prev ! i\<bar>) [2..<alv + 1] \<bar>data ! 1 - prev ! 1\<bar>"

text \<open>Line 178: \<open>Traits::maxIterations() - 1\<close> in \<open>Size\<close> arithmetic.\<close>

definition iteration_limit :: "bootstrap_traits \<Rightarrow> 64 word" where
  "iteration_limit tr = max_iterations tr - 1"

text \<open>The outcome of the loop: the converged state, or a request to start again without
  the previous curve as guess (lines 223--233).\<close>

datatype calc_outcome = Done bootstrap_state | Retry bootstrap_state

text \<open>The loop of lines 183--260, from iteration \<open>it\<close>. A retry carries the state at the
  start of the failing sweep; the partial updates of that sweep are discarded by the
  reinitialisation that follows the retry.\<close>

function calc_loop :: "bootstrap_traits \<Rightarrow> bootstrap_state \<Rightarrow> 64 word \<Rightarrow> bool \<Rightarrow> bootstrap_error + calc_outcome" where
  "calc_loop tr st it validData =
     (let prev = bs_data st in
      case sweep tr validData (first_alive_helper st) (alive st) (bs_data st) of
        Inl e \<Rightarrow>
          (case e of
             SolverFailed i msg \<Rightarrow>
               if valid_curve st then Inr (Retry (st\<lparr>previous_data := prev\<rparr>)) else Inl (IterationFailed it i msg)
           | _ \<Rightarrow> Inl e)
      | Inr d \<Rightarrow>
          let st' = st\<lparr>bs_data := d, previous_data := prev\<rparr> in
          if \<not> loop_required st' then Inr (Done st')
          else let change = max_change d prev (alive st) in
            if change \<le> global_accuracy tr \<or> change \<le> accuracy tr then Inr (Done st')
            else if \<not> it < iteration_limit tr then Inl (NoConvergence it change)
            else calc_loop tr st' (it + 1) True)"
  by pat_completeness auto
termination
  by (relation "measure (\<lambda>(tr, st, it, v). unat (iteration_limit tr - it))")
    (auto simp: word_distance_decreases)

text \<open>Lines 159--172: every alive helper must have a valid quote.\<close>

definition check_quotes :: "bootstrap_state \<Rightarrow> bootstrap_error + unit" where
  "check_quotes st =
     sfold (\<lambda>j u. if quote_valid (instruments st ! j) then Inr u else Inl (InvalidQuote j))
       [first_alive_helper st..<length (instruments st)] ()"

text \<open>\<open>calculate\<close>: initialise when needed, check the quotes, run the loop; on a solver
  failure with a previously valid curve, invalidate it and start again (lines 230--232).
  The recursion stops because the repeated call starts with \<open>validCurve_ = false\<close>, under
  which no retry is possible.\<close>

function calculate :: "bootstrap_traits \<Rightarrow> bootstrap_state \<Rightarrow> bootstrap_error + bootstrap_state" where
  "calculate tr st =
     (case (if \<not> initialized st \<or> moving st then initialize tr st else Inr st) of
        Inl e \<Rightarrow> Inl e
      | Inr st1 \<Rightarrow>
          (case check_quotes st1 of
             Inl e \<Rightarrow> Inl e
           | Inr _ \<Rightarrow>
               (case calc_loop tr st1 0 (valid_curve st1) of
                  Inl e \<Rightarrow> Inl e
                | Inr (Done st2) \<Rightarrow> Inr (st2\<lparr>valid_curve := True\<rparr>)
                | Inr (Retry st2) \<Rightarrow> calculate tr (st2\<lparr>valid_curve := False, initialized := False\<rparr>))))"
  by pat_completeness auto
termination
proof (relation "measure (\<lambda>(tr, st). if valid_curve st then 1 else 0)")
  have retry: "calc_loop tr st it v = Inr (Retry s) \<Longrightarrow> valid_curve st \<and> valid_curve s" for tr st it v s
  proof (induction tr st it v rule: calc_loop.induct)
    case (1 tr st it validData)
    show ?case
      using 1(2) 1(1) [OF refl]
      by (auto simp: Let_def split: sum.splits bootstrap_error.splits if_splits)
  qed
  have init: "initialize tr st = Inr st1 \<Longrightarrow> valid_curve st1 = valid_curve st" for tr st st1
    by (auto simp: initialize_def Let_def split: if_splits option.splits prod.splits)
  fix tr st st1 u r st2
  assume i: "(if \<not> initialized st \<or> moving st then initialize tr st else Inr st) = Inr st1"
    and "check_quotes st1 = Inr u" and c0: "calc_loop tr st1 0 (valid_curve st1) = Inr r" and "r = Retry st2"
  then have c: "calc_loop tr st1 0 (valid_curve st1) = Inr (Retry st2)" by simp
  have "valid_curve st1 = valid_curve st"
    using i init by (auto split: if_splits)
  then show "((tr, st2\<lparr>valid_curve := False, initialized := False\<rparr>), tr, st)
             \<in> measure (\<lambda>(tr, st). if valid_curve st then 1 else 0)"
    using retry [OF c] by simp
qed auto

text \<open>A small curve for the witnesses: two helpers given out of pillar order, the later one
  with a latest relevant date after its pillar (so the convergence loop is required), and
  traits whose solver returns the bracketed guess. \<open>nc_traits\<close> has a solver that moves
  every pillar by one and \<open>maxIterations() = 1\<close>.\<close>

definition demo_traits :: bootstrap_traits where
  "demo_traits = \<lparr>initial_date = 0, initial_value = 1, max_iterations = 100, required_points = 2,
     interp_global = False, time_from_reference = (\<lambda>d. real_of_int d / 365),
     min_value_after = (\<lambda>_ _ _ _. 0), max_value_after = (\<lambda>_ _ _ _. 2), guess_value = (\<lambda>_ _ _ _. 1),
     extend_interpolation = (\<lambda>_ _. True), solve = (\<lambda>i _ g _ _ d. Inr (d[i := g])),
     accuracy = 1 / 10 ^ 12, global_accuracy = 1 / 10 ^ 10\<rparr>"
definition demo_helpers :: "helper list" where
  "demo_helpers = [\<lparr>pillar_date = 10, latest_relevant_date = 12, quote_valid = True\<rparr>,
                   \<lparr>pillar_date = 5, latest_relevant_date = 5, quote_valid = True\<rparr>]"
definition demo_curve :: bootstrap_state where
  "demo_curve = \<lparr>instruments = demo_helpers, bs_dates = [], bs_times = [], bs_data = [], previous_data = [],
     max_date = 0, moving = False, initialized = False, valid_curve = False, loop_required = False,
     first_alive_helper = 0, alive = 0\<rparr>"
definition nc_traits :: bootstrap_traits where
  "nc_traits = demo_traits\<lparr>max_iterations := 1, solve := (\<lambda>i _ _ _ _ d. Inr (d[i := d ! i + 1]))\<rparr>"
text \<open>Helpers whose first, expired one and last, alive one have invalid quotes.\<close>
definition iq_helpers :: "helper list" where
  "iq_helpers = [\<lparr>pillar_date = 0, latest_relevant_date = 0, quote_valid = False\<rparr>,
                 \<lparr>pillar_date = 5, latest_relevant_date = 5, quote_valid = True\<rparr>,
                 \<lparr>pillar_date = 10, latest_relevant_date = 12, quote_valid = False\<rparr>]"

declare calc_loop.simps [simp del] calculate.simps [simp del]

lemmas demo_bootstrap_simps = demo_traits_def demo_curve_def demo_helpers_def first_alive.simps pillar_step_def
  resize_def initialize_def check_quotes_def sweep_def solve_pillar_def adjust_guess_def max_change_def
  iteration_limit_def

subsection \<open>Helper lemmas\<close>

lemma check_quotes_find:
  "check_quotes st = (case find (\<lambda>j. \<not> quote_valid (instruments st ! j)) [first_alive_helper st..<length (instruments st)] of
     None \<Rightarrow> Inr () | Some j \<Rightarrow> Inl (InvalidQuote j))"
  unfolding check_quotes_def by (rule sfold_check_find)

lemma first_alive_from:
  assumes "i < length ins" and "fd < pillar_date (ins ! (length ins - 1))"
    and "\<forall>j < i. pillar_date (ins ! j) \<le> fd"
  shows "\<exists>fa. first_alive ins fd i = Some fa \<and> i \<le> fa \<and> fa < length ins \<and> fd < pillar_date (ins ! fa) \<and>
           (\<forall>j < fa. pillar_date (ins ! j) \<le> fd)"
  using assms
proof (induction "length ins - i" arbitrary: i)
  case 0
  then show ?case by simp
next
  case (Suc k)
  show ?case
  proof (cases "pillar_date (ins ! i) \<le> fd")
    case True
    then have "i \<noteq> length ins - 1" using Suc.prems(2) by auto
    then have i1: "i + 1 < length ins" using Suc.prems(1) by simp
    have pre: "\<forall>j < i + 1. pillar_date (ins ! j) \<le> fd"
      using Suc.prems(3) True less_Suc_eq by auto
    have "k = length ins - (i + 1)" using Suc.hyps by simp
    from Suc.hyps(1) [OF this i1 Suc.prems(2) pre] obtain fa where
      "first_alive ins fd (i + 1) = Some fa \<and> i + 1 \<le> fa \<and> fa < length ins \<and> fd < pillar_date (ins ! fa) \<and>
       (\<forall>j < fa. pillar_date (ins ! j) \<le> fd)" by blast
    moreover have "first_alive ins fd i = first_alive ins fd (i + 1)"
      using Suc.prems(1) True by (simp add: first_alive.simps [of ins fd i])
    ultimately show ?thesis by auto
  next
    case False
    then have "first_alive ins fd i = Some i"
      using Suc.prems(1) by (simp add: first_alive.simps [of ins fd i])
    then show ?thesis using False Suc.prems by auto
  qed
qed

lemma pillar_loop:
  assumes "sorted (map pillar_date ins)" and "b \<le> length ins" and "a \<le> b"
    and "sfold (pillar_step ins) [a..<b] (ds0, md0, lr0) = Inr (ds, md, lr)"
    and "ds0 \<noteq> []" and "sorted_wrt (<) ds0" and "a < b \<Longrightarrow> last ds0 \<le> pillar_date (ins ! a)"
  shows "ds = ds0 @ map (\<lambda>j. pillar_date (ins ! j)) [a..<b] \<and> sorted_wrt (<) ds \<and>
         sorted_wrt (<) (md0 # map (\<lambda>j. latest_relevant_date (ins ! j)) [a..<b]) \<and>
         md = last (md0 # map (\<lambda>j. latest_relevant_date (ins ! j)) [a..<b])"
  using assms(2-4,7)
proof (induction b arbitrary: ds md lr)
  case 0
  then show ?case using assms(6) by simp
next
  case (Suc b)
  show ?case
  proof (cases "a = Suc b")
    case True
    then show ?thesis using Suc.prems assms(6) by simp
  next
    case False
    then have ab: "a \<le> b" using Suc.prems(2) by simp
    have split: "[a..<Suc b] = [a..<b] @ [b]" using ab by simp
    obtain u where u: "sfold (pillar_step ins) [a..<b] (ds0, md0, lr0) = Inr u"
      and step: "pillar_step ins b u = Inr (ds, md, lr)"
      using Suc.prems(3) unfolding split by (rule sfold_Inr_step)
    obtain ds1 md1 lr1 where u': "u = (ds1, md1, lr1)" by (cases u)
    have p1: "b \<le> length ins" using Suc.prems(1) by simp
    have p3: "a < b \<Longrightarrow> last ds0 \<le> pillar_date (ins ! a)" using Suc.prems(4) by simp
    have IH: "ds1 = ds0 @ map (\<lambda>j. pillar_date (ins ! j)) [a..<b] \<and> sorted_wrt (<) ds1 \<and>
         sorted_wrt (<) (md0 # map (\<lambda>j. latest_relevant_date (ins ! j)) [a..<b]) \<and>
         md1 = last (md0 # map (\<lambda>j. latest_relevant_date (ins ! j)) [a..<b])"
      using Suc.IH [OF p1 ab u [unfolded u'] p3] .
    have le: "last ds1 \<le> pillar_date (ins ! b)"
    proof (cases "a = b")
      case True
      then show ?thesis using IH Suc.prems(4) by simp
    next
      case False
      then have "last ds1 = pillar_date (ins ! (b - 1))" using IH ab by (simp add: last_map)
      moreover have "pillar_date (ins ! (b - 1)) \<le> pillar_date (ins ! b)"
        using assms(1) Suc.prems(1) sorted_nth_mono [of "map pillar_date ins" "b - 1" b] by simp
      ultimately show ?thesis by simp
    qed
    have ne: "last ds1 \<noteq> pillar_date (ins ! b)" and lt: "md1 < latest_relevant_date (ins ! b)"
      and eq: "ds = ds1 @ [pillar_date (ins ! b)]" and md: "md = latest_relevant_date (ins ! b)"
      using step u' by (simp_all add: pillar_step_def Let_def split: if_splits)
    have ds1ne: "ds1 \<noteq> []" using IH assms(5) by simp
    have lt1: "last ds1 < pillar_date (ins ! b)" using le ne by simp
    have "sorted_wrt (<) (ds1 @ [pillar_date (ins ! b)])"
      using sorted_wrt_less_snoc [OF conjunct1 [OF conjunct2 [OF IH]] ds1ne lt1] .
    then have "sorted_wrt (<) ds" using eq by simp
    moreover have "sorted_wrt (<) ((md0 # map (\<lambda>j. latest_relevant_date (ins ! j)) [a..<b]) @ [latest_relevant_date (ins ! b)])"
      using sorted_wrt_less_snoc IH lt by blast
    ultimately show ?thesis using IH eq md split by simp
  qed
qed

lemma initialize_InrE:
  assumes "initialize tr st = Inr st'"
  obtains fa ds md lr where "sort_key pillar_date (instruments st) \<noteq> []"
    and "initial_date tr < pillar_date (sort_key pillar_date (instruments st) ! (length (instruments st) - 1))"
    and "first_alive (sort_key pillar_date (instruments st)) (initial_date tr) 0 = Some fa"
    and "sfold (pillar_step (sort_key pillar_date (instruments st))) [fa..<length (instruments st)]
           ([initial_date tr], initial_date tr, loop_required st) = Inr (ds, md, lr)"
    and "st' = st\<lparr>instruments := sort_key pillar_date (instruments st), bs_dates := ds,
           bs_times := map (time_from_reference tr) ds,
           max_date := md, loop_required := lr, first_alive_helper := fa, alive := length (instruments st) - fa,
           bs_data := (if \<not> valid_curve st \<or> length (bs_data st) \<noteq> length (instruments st) - fa + 1
                       then replicate (length (instruments st) - fa + 1) (initial_value tr) else bs_data st),
           previous_data := (if \<not> valid_curve st \<or> length (bs_data st) \<noteq> length (instruments st) - fa + 1
                       then resize (length (instruments st) - fa + 1) 0 (previous_data st) else previous_data st),
           initialized := True\<rparr>"
proof -
  let ?ins = "sort_key pillar_date (instruments st)"
  have len: "length ?ins = length (instruments st)" by simp
  have nil: "?ins = [] \<longleftrightarrow> instruments st = []" by (metis len length_0_conv)
  have ne: "?ins \<noteq> []" and lst: "initial_date tr < pillar_date (?ins ! (length (instruments st) - 1))"
    using assms unfolding initialize_def Let_def len by (auto simp: nil split: if_splits)
  obtain fa where fa: "first_alive ?ins (initial_date tr) 0 = Some fa"
    using assms ne lst unfolding initialize_def Let_def len by (auto simp: nil split: option.splits if_splits)
  show ?thesis
    using assms ne lst fa that unfolding initialize_def Let_def len
    by (auto simp: nil split: if_splits)
qed
lemma first_alive_Some:
  assumes "first_alive ins fd 0 = Some fa" and "ins \<noteq> []" and "fd < pillar_date (ins ! (length ins - 1))"
  shows "fa < length ins \<and> fd < pillar_date (ins ! fa)"
  using first_alive_from [of 0 ins fd] assms by auto

lemma calc_loop_retry_valid:
  "calc_loop tr st it v = Inr (Retry s) \<Longrightarrow> valid_curve st"
proof (induction tr st it v rule: calc_loop.induct)
  case (1 tr st it v)
  show ?case
  proof (cases "sweep tr v (first_alive_helper st) (alive st) (bs_data st)")
    case (Inl e)
    then show ?thesis using 1(2) by (cases e) (simp_all add: calc_loop.simps [of tr st it v] split: if_splits)
  next
    case (Inr d)
    show ?thesis
      using 1(2) 1(1) [OF refl Inr refl] Inr by (simp add: calc_loop.simps [of tr st it v] Let_def split: if_splits)
  qed
qed

lemma calc_loop_done:
  "calc_loop tr st it v = Inr (Done s) \<Longrightarrow>
     alive s = alive st \<and> valid_curve s = valid_curve st \<and> loop_required s = loop_required st \<and>
     (loop_required s \<longrightarrow> max_change (bs_data s) (previous_data s) (alive s) \<le> max (global_accuracy tr) (accuracy tr))"
proof (induction tr st it v rule: calc_loop.induct)
  case (1 tr st it v)
  show ?case
  proof (cases "sweep tr v (first_alive_helper st) (alive st) (bs_data st)")
    case (Inl e)
    then show ?thesis using 1(2) by (cases e) (simp_all add: calc_loop.simps [of tr st it v] split: if_splits)
  next
    case (Inr d)
    show ?thesis
      using 1(2) 1(1) [OF refl Inr refl] Inr
      by (simp add: calc_loop.simps [of tr st it v] Let_def split: if_splits) (auto simp: max_def)
  qed
qed

lemma sweep_error:
  assumes "sweep tr v fa alv data = Inl e"
  shows "(\<exists>i m. e = SolverFailed i m) \<or> (\<exists>i. e = InterpolationFailed i)"
proof -
  obtain i d where "solve_pillar tr v fa i d = Inl e"
    using assms unfolding sweep_def by (rule sfold_InlE)
  then show ?thesis
    by (auto simp: solve_pillar_def Let_def map_sum_def split: if_splits sum.splits)
qed

lemma solve_pillar_total:
  assumes solver: "\<And>i v g mn mx d. \<exists>d'. solve tr i v g mn mx d = Inr d'"
    and interp: "interp_global tr \<or> (\<forall>i d. extend_interpolation tr i d)"
  shows "\<exists>d'. solve_pillar tr v fa i d = Inr d'"
proof -
  obtain d' where "solve tr i v (adjust_guess (min_value_after tr i d v fa) (max_value_after tr i d v fa)
      (guess_value tr i d v fa)) (min_value_after tr i d v fa) (max_value_after tr i d v fa) d = Inr d'"
    using solver by blast
  then show ?thesis using interp by (auto simp: solve_pillar_def Let_def map_sum_def)
qed

lemma sweep_total:
  assumes solver: "\<And>i v g mn mx d. \<exists>d'. solve tr i v g mn mx d = Inr d'"
    and interp: "interp_global tr \<or> (\<forall>i d. extend_interpolation tr i d)"
  shows "\<exists>d'. sweep tr v fa alv d = Inr d'"
proof (cases "sweep tr v fa alv d")
  case (Inl e)
  then obtain i d0 where "solve_pillar tr v fa i d0 = Inl e"
    unfolding sweep_def by (rule sfold_InlE)
  then show ?thesis using solve_pillar_total [OF solver interp, of v fa i d0] by simp
qed simp

lemma calc_loop_progress:
  "(\<And>v fa alv d. \<exists>d'. sweep tr v fa alv d = Inr d') \<Longrightarrow>
     (\<exists>s. calc_loop tr st it v = Inr (Done s)) \<or> (\<exists>k c. calc_loop tr st it v = Inl (NoConvergence k c))"
proof (induction tr st it v rule: calc_loop.induct)
  case (1 tr st it v)
  obtain d where sw: "sweep tr v (first_alive_helper st) (alive st) (bs_data st) = Inr d"
    using 1(2) by blast
  show ?case
    using 1(1) [OF refl sw refl] 1(2) sw by (simp add: calc_loop.simps [of tr st it v] Let_def)
qed

lemma demo_run_calculate:
  "calculate demo_traits demo_curve = Inr (demo_curve\<lparr>instruments := sort_key pillar_date demo_helpers,
      bs_dates := [0, 5, 10], bs_times := [0, 1 / 73, 2 / 73], bs_data := [1, 1, 1], previous_data := [1, 1, 1],
      max_date := 12, initialized := True, valid_curve := True, loop_required := True, alive := 2\<rparr>)"
  apply (subst calculate.simps)
  apply (simp add: demo_bootstrap_simps Let_def)
  apply (subst calc_loop.simps)
  apply (simp add: demo_bootstrap_simps Let_def)
  done

subsection \<open>Properties\<close>

text \<open>C10. After a successful \<open>initialize\<close> (lines 78--145) the curve's dates are the first
  date followed by the pillars of the alive helpers, strictly increasing; the latest relevant
  dates of the alive helpers are strictly increasing; at least one helper is alive; and the
  dates, times and data vectors all have \<open>alive + 1\<close> entries.\<close>

theorem initialize_pillars:
  assumes "initialize tr st = Inr st'"
  shows "bs_dates st' = initial_date tr # map pillar_date (drop (first_alive_helper st') (instruments st')) \<and>
         sorted_wrt (<) (bs_dates st') \<and>
         sorted_wrt (<) (map latest_relevant_date (drop (first_alive_helper st') (instruments st'))) \<and>
         0 < alive st' \<and> first_alive_helper st' + alive st' = length (instruments st') \<and>
         length (bs_data st') = alive st' + 1 \<and> length (bs_times st') = alive st' + 1 \<and> initialized st'"
proof -
  let ?ins = "sort_key pillar_date (instruments st)"
  let ?fd = "initial_date tr"
  obtain fa ds md lr where ne: "?ins \<noteq> []"
    and lst: "?fd < pillar_date (?ins ! (length (instruments st) - 1))"
    and fa: "first_alive ?ins ?fd 0 = Some fa"
    and loop: "sfold (pillar_step ?ins) [fa..<length (instruments st)] ([?fd], ?fd, loop_required st) = Inr (ds, md, lr)"
    and st': "st' = st\<lparr>instruments := ?ins, bs_dates := ds, bs_times := map (time_from_reference tr) ds,
           max_date := md, loop_required := lr, first_alive_helper := fa, alive := length (instruments st) - fa,
           bs_data := (if \<not> valid_curve st \<or> length (bs_data st) \<noteq> length (instruments st) - fa + 1
                       then replicate (length (instruments st) - fa + 1) (initial_value tr) else bs_data st),
           previous_data := (if \<not> valid_curve st \<or> length (bs_data st) \<noteq> length (instruments st) - fa + 1
                       then resize (length (instruments st) - fa + 1) 0 (previous_data st) else previous_data st),
           initialized := True\<rparr>"
    using assms by (rule initialize_InrE)
  have len: "length ?ins = length (instruments st)" by simp
  have fa': "fa < length ?ins \<and> ?fd < pillar_date (?ins ! fa)"
    using first_alive_Some [OF fa ne] lst len by simp
  have sorted: "sorted (map pillar_date ?ins)" by simp
  have p3: "fa \<le> length ?ins" using fa' by simp
  have p5: "[?fd] \<noteq> []" and p6: "sorted_wrt (<) [?fd]" by simp_all
  have p7: "fa < length ?ins \<Longrightarrow> last [?fd] \<le> pillar_date (?ins ! fa)" using fa' by simp
  have P: "ds = [?fd] @ map (\<lambda>j. pillar_date (?ins ! j)) [fa..<length ?ins] \<and> sorted_wrt (<) ds \<and>
         sorted_wrt (<) (?fd # map (\<lambda>j. latest_relevant_date (?ins ! j)) [fa..<length ?ins]) \<and>
         md = last (?fd # map (\<lambda>j. latest_relevant_date (?ins ! j)) [fa..<length ?ins])"
    by (rule pillar_loop [OF sorted order.refl p3 loop [folded len] p5 p6 p7])
  have d: "ds = ?fd # map pillar_date (drop fa ?ins)"
    using conjunct1 [OF P] by (simp add: map_nth_upt_drop)
  have s: "sorted_wrt (<) ds" using P by blast
  have l0: "sorted_wrt (<) (map (\<lambda>j. latest_relevant_date (?ins ! j)) [fa..<length ?ins])"
    using conjunct1 [OF conjunct2 [OF conjunct2 [OF P]]] by (simp only: sorted_wrt.simps)
  have l: "sorted_wrt (<) (map latest_relevant_date (drop fa ?ins))"
    using l0 by (simp only: map_nth_upt_drop)
  have f: "bs_dates st' = ds" "instruments st' = ?ins" "first_alive_helper st' = fa"
    "alive st' = length (instruments st) - fa" "length (bs_data st') = length (instruments st) - fa + 1"
    "length (bs_times st') = length (instruments st) - fa + 1" "initialized st'"
    using d fa' len by (simp_all add: st')
  show ?thesis
    unfolding f(1-4)
  proof (intro conjI)
    show "ds = ?fd # map pillar_date (drop fa ?ins)" by (rule d)
    show "sorted_wrt (<) ds" by (rule s)
    show "sorted_wrt (<) (map latest_relevant_date (drop fa ?ins))" by (rule l)
  qed (use fa' len f(5-7) in simp_all)
qed

theorem initialize_pillars_witness:
  "\<exists>st'. initialize demo_traits demo_curve = Inr st' \<and> bs_dates st' = [0, 5, 10] \<and>
     sorted_wrt (<) (bs_dates st') \<and> alive st' = 2"
proof -
  have i: "initialize demo_traits demo_curve = Inr (demo_curve\<lparr>instruments := sort_key pillar_date demo_helpers,
      bs_dates := [0, 5, 10], bs_times := [0, 1 / 73, 2 / 73], bs_data := [1, 1, 1], previous_data := [0, 0, 0],
      max_date := 12, initialized := True, loop_required := True, alive := 2\<rparr>)"
    by (simp add: demo_bootstrap_simps Let_def)
  have "sorted_wrt (<) (bs_dates (demo_curve\<lparr>instruments := sort_key pillar_date demo_helpers,
      bs_dates := [0, 5, 10], bs_times := [0, 1 / 73, 2 / 73], bs_data := [1, 1, 1], previous_data := [0, 0, 0],
      max_date := 12, initialized := True, loop_required := True, alive := 2\<rparr>))"
    using initialize_pillars [OF i] by blast
  with i show ?thesis by (intro exI [of _ "demo_curve\<lparr>instruments := sort_key pillar_date demo_helpers,
      bs_dates := [0, 5, 10], bs_times := [0, 1 / 73, 2 / 73], bs_data := [1, 1, 1], previous_data := [0, 0, 0],
      max_date := 12, initialized := True, loop_required := True, alive := 2\<rparr>"]) simp
qed

text \<open>C11. The scan of lines 87--89 for the first alive helper has no bound check, but the
  \<open>QL_REQUIRE\<close> of line 86 (the last pillar is after the first date) makes it terminate
  inside the vector, at the first helper whose pillar is after the first date.\<close>

theorem first_alive_terminates:
  assumes "ins \<noteq> []" and "fd < pillar_date (ins ! (length ins - 1))"
  shows "\<exists>fa. first_alive ins fd 0 = Some fa \<and> fa < length ins \<and> fd < pillar_date (ins ! fa) \<and>
           (\<forall>j < fa. pillar_date (ins ! j) \<le> fd)"
  using first_alive_from [of 0 ins fd] assms by auto

theorem first_alive_terminates_witness:
  "first_alive [\<lparr>pillar_date = 0, latest_relevant_date = 0, quote_valid = True\<rparr>,
                \<lparr>pillar_date = 5, latest_relevant_date = 5, quote_valid = True\<rparr>] 1 0 = Some 1"
proof -
  let ?ins = "[\<lparr>pillar_date = 0, latest_relevant_date = 0, quote_valid = True\<rparr>,
               \<lparr>pillar_date = 5 :: int, latest_relevant_date = 5, quote_valid = True\<rparr>]"
  have "?ins \<noteq> []" and "(1::int) < pillar_date (?ins ! (length ?ins - 1))" by simp_all
  from first_alive_terminates [OF this] obtain fa where
    "first_alive ?ins 1 0 = Some fa" and "fa < 2" and "1 < pillar_date (?ins ! fa)" by auto
  moreover have "fa = 1" using calculation(2,3) by (cases fa) auto
  ultimately show ?thesis by simp
qed

text \<open>C12. When \<open>calculate\<close> returns, the curve is marked valid and, if the convergence loop
  was required, the last sweep moved no pillar by more than the larger of \<open>globalAccuracy\<close>
  and the curve's \<open>accuracy\<close>.\<close>

theorem calculate_converged:
  "calculate tr st = Inr st' \<Longrightarrow>
     valid_curve st' \<and> (loop_required st' \<longrightarrow>
       max_change (bs_data st') (previous_data st') (alive st') \<le> max (global_accuracy tr) (accuracy tr))"
proof (induction tr st arbitrary: st' rule: calculate.induct)
  case (1 tr st)
  obtain st1 where i: "(if \<not> initialized st \<or> moving st then initialize tr st else Inr st) = Inr st1"
    and q: "\<exists>u. check_quotes st1 = Inr u"
    and c: "\<exists>r. calc_loop tr st1 0 (valid_curve st1) = Inr r"
    using 1(2) by (auto simp: calculate.simps [of tr st] split: sum.splits)
  then obtain u r where q: "check_quotes st1 = Inr u" and c: "calc_loop tr st1 0 (valid_curve st1) = Inr r"
    by blast
  show ?case
  proof (cases r)
    case (Done st2)
    then have "st' = st2\<lparr>valid_curve := True\<rparr>"
      using 1(2) i q c by (simp add: calculate.simps [of tr st])
    then show ?thesis using calc_loop_done [OF c [unfolded Done]] by auto
  next
    case (Retry st2)
    then have "calculate tr (st2\<lparr>valid_curve := False, initialized := False\<rparr>) = Inr st'"
      using 1(2) i q c by (simp add: calculate.simps [of tr st])
    then show ?thesis using 1(1) [OF i q c Retry] by blast
  qed
qed

theorem calculate_converged_witness:
  "\<exists>st'. calculate demo_traits demo_curve = Inr st' \<and> valid_curve st' \<and> loop_required st' \<and>
     max_change (bs_data st') (previous_data st') (alive st') \<le> max (global_accuracy demo_traits) (accuracy demo_traits)"
  using calculate_converged [OF demo_run_calculate] demo_run_calculate by (simp add: demo_curve_def)

text \<open>C13. The convergence loop asks for a retry without the previous curve only when the
  curve was valid; the retry of line 231 starts with \<open>validCurve_ = false\<close>, so
  \<open>calculate\<close> recurses at most once.\<close>

theorem calc_loop_no_retry_without_curve:
  assumes "\<not> valid_curve st"
  shows "calc_loop tr st it v \<noteq> Inr (Retry s)"
  using calc_loop_retry_valid assms by blast

theorem calc_loop_no_retry_without_curve_witness:
  "calc_loop demo_traits demo_curve 0 False \<noteq> Inr (Retry demo_curve)"
  by (rule calc_loop_no_retry_without_curve) (simp add: demo_curve_def)

text \<open>C14. The loop fails with the convergence error of lines 254--257 only when the loop is
  required, the last change exceeds both tolerances, and the iteration counter has reached
  \<open>maxIterations() - 1\<close>.\<close>

theorem calc_loop_no_convergence:
  "calc_loop tr st it v = Inl (NoConvergence k c) \<Longrightarrow>
     iteration_limit tr \<le> k \<and> loop_required st \<and> max (global_accuracy tr) (accuracy tr) < c"
proof (induction tr st it v rule: calc_loop.induct)
  case (1 tr st it v)
  show ?case
  proof (cases "sweep tr v (first_alive_helper st) (alive st) (bs_data st)")
    case (Inl e)
    then show ?thesis using 1(2) sweep_error [OF Inl]
      by (auto simp: calc_loop.simps [of tr st it v] split: if_splits)
  next
    case (Inr d)
    show ?thesis
      using 1(2) 1(1) [OF refl Inr refl] Inr
      by (simp add: calc_loop.simps [of tr st it v] Let_def not_less split: if_splits)
  qed
qed

theorem calc_loop_no_convergence_witness:
  "calc_loop nc_traits (demo_curve\<lparr>instruments := sort_key pillar_date demo_helpers,
      bs_dates := [0, 5, 10], bs_times := [0, 1 / 73, 2 / 73], bs_data := [1, 1, 1], previous_data := [0, 0, 0],
      max_date := 12, initialized := True, loop_required := True, alive := 2\<rparr>) 0 False = Inl (NoConvergence 0 1) \<and>
   max (global_accuracy nc_traits) (accuracy nc_traits) < 1"
proof -
  have c: "calc_loop nc_traits (demo_curve\<lparr>instruments := sort_key pillar_date demo_helpers,
      bs_dates := [0, 5, 10], bs_times := [0, 1 / 73, 2 / 73], bs_data := [1, 1, 1], previous_data := [0, 0, 0],
      max_date := 12, initialized := True, loop_required := True, alive := 2\<rparr>) 0 False = Inl (NoConvergence 0 1)"
    by (subst calc_loop.simps) (simp add: demo_bootstrap_simps nc_traits_def Let_def upt_rec)
  show ?thesis using calc_loop_no_convergence [OF c] c by blast
qed

text \<open>C15. The guess adjustment of lines 194--197 always puts the guess strictly inside a
  non-empty bracket.\<close>

theorem adjust_guess_bracketed:
  assumes "mn < mx"
  shows "mn < adjust_guess mn mx g \<and> adjust_guess mn mx g < mx"
  using assms by (auto simp: adjust_guess_def field_simps)

theorem adjust_guess_bracketed_witness: "0 < adjust_guess 0 10 12 \<and> adjust_guess 0 10 12 < (10::real)"
  by (rule adjust_guess_bracketed) simp

text \<open>C27. The convergence measure of lines 247--249, a running maximum over the alive
  pillars, is the largest change of any alive pillar \<open>1..alive\<close>. So the test of
  \<open>calculate\<close> bounds the change of every pillar, not only of the pillars the loop
  visits last.\<close>

theorem max_change_is_max:
  assumes "1 \<le> alv"
  shows "max_change data prev alv = Max ((\<lambda>i. \<bar>data ! i - prev ! i\<bar>) ` {1..alv})"
proof -
  have s: "set [2..<alv + 1] = {2..alv}" by auto
  have i: "{1..alv} = insert 1 {2..alv}" using assms by auto
  show ?thesis by (simp only: max_change_def fold_max_Max s i image_insert)
qed

theorem max_change_is_max_witness:
  "1 \<le> (2::nat) \<and> max_change [0, 1, 5] [0, 2, 3] 2 = Max ((\<lambda>i. \<bar>[0, 1, 5] ! i - [0, 2, 3] ! i\<bar>) ` {1..2::nat}) \<and>
   max_change [0, 1, 5] [0, 2, 3] 2 = (2::real)"
proof -
  have "max_change [0, 1, 5] [0, 2, 3] 2 = Max ((\<lambda>i. \<bar>[0, 1, 5] ! i - [0, 2, 3] ! i\<bar>) ` {1..2::nat})"
    using max_change_is_max [of 2 "[0, 1, 5]" "[0, 2, 3]"] by simp
  moreover have "max_change [0, 1, 5] [0, 2, 3] 2 = (2::real)"
    by (simp add: max_change_def upt_rec)
  ultimately show ?thesis by simp
qed

text \<open>C30. Progress of \<open>calculate\<close>. Suppose the solvers never throw and the interpolation
  can always be extended, or the interpolator is global, so that it falls back to linear. Suppose
  also that initialisation and the quote check pass. Then \<open>calculate\<close> always ends, and only
  in one of two ways: with a valid curve, or with the \<open>QL_REQUIRE\<close> of line 254 that reports
  non-convergence. No solver, interpolation or iteration failure and no retry can occur.\<close>

theorem calculate_progress:
  assumes solver: "\<And>i v g mn mx d. \<exists>d'. solve tr i v g mn mx d = Inr d'"
    and interp: "interp_global tr \<or> (\<forall>i d. extend_interpolation tr i d)"
    and init: "(if \<not> initialized st \<or> moving st then initialize tr st else Inr st) = Inr st1"
    and quotes: "check_quotes st1 = Inr u"
  shows "(\<exists>st'. calculate tr st = Inr st' \<and> valid_curve st') \<or> (\<exists>k c. calculate tr st = Inl (NoConvergence k c))"
proof -
  have "(\<exists>s. calc_loop tr st1 0 (valid_curve st1) = Inr (Done s)) \<or>
        (\<exists>k c. calc_loop tr st1 0 (valid_curve st1) = Inl (NoConvergence k c))"
    by (rule calc_loop_progress) (rule sweep_total [OF solver interp])
  then show ?thesis using init quotes by (auto simp: calculate.simps [of tr st])
qed

theorem calculate_progress_witness:
  "(\<exists>st'. calculate demo_traits demo_curve = Inr st' \<and> valid_curve st') \<or>
   (\<exists>k c. calculate demo_traits demo_curve = Inl (NoConvergence k c))"
proof -
  have solver: "\<And>i v g mn mx d. \<exists>d'. solve demo_traits i v g mn mx d = Inr d'"
    by (simp add: demo_traits_def)
  have interp: "interp_global demo_traits \<or> (\<forall>i d. extend_interpolation demo_traits i d)"
    by (simp add: demo_traits_def)
  have "\<exists>st1. (if \<not> initialized demo_curve \<or> moving demo_curve then initialize demo_traits demo_curve else Inr demo_curve) = Inr st1
      \<and> check_quotes st1 = Inr ()"
    by (simp add: demo_bootstrap_simps Let_def)
  then obtain st1 where i: "(if \<not> initialized demo_curve \<or> moving demo_curve then initialize demo_traits demo_curve
      else Inr demo_curve) = Inr st1" and q: "check_quotes st1 = Inr ()" by blast
  show ?thesis by (rule calculate_progress [OF solver interp i q])
qed

text \<open>C34. The quote check of lines 159--172 throws for the first alive helper, in pillar
  order, whose quote is invalid, and ignores the expired helpers before \<open>firstAliveHelper_\<close>;
  when such a helper exists, \<open>calculate\<close> fails with that error before any pillar is solved.\<close>

theorem calculate_first_invalid_quote:
  assumes init: "(if \<not> initialized st \<or> moving st then initialize tr st else Inr st) = Inr st1"
  shows "check_quotes st1 = (case find (\<lambda>j. \<not> quote_valid (instruments st1 ! j)) [first_alive_helper st1..<length (instruments st1)] of
           None \<Rightarrow> Inr () | Some j \<Rightarrow> Inl (InvalidQuote j)) \<and>
         (\<forall>j. find (\<lambda>j. \<not> quote_valid (instruments st1 ! j)) [first_alive_helper st1..<length (instruments st1)] = Some j \<longrightarrow>
           calculate tr st = Inl (InvalidQuote j))"
  using init by (auto simp: check_quotes_find calculate.simps [of tr st])

theorem calculate_first_invalid_quote_witness:
  "calculate demo_traits (demo_curve\<lparr>instruments := iq_helpers\<rparr>) = Inl (InvalidQuote 2)"
proof -
  have "\<exists>st1. (if \<not> initialized (demo_curve\<lparr>instruments := iq_helpers\<rparr>) \<or> moving (demo_curve\<lparr>instruments := iq_helpers\<rparr>)
      then initialize demo_traits (demo_curve\<lparr>instruments := iq_helpers\<rparr>) else Inr (demo_curve\<lparr>instruments := iq_helpers\<rparr>)) = Inr st1
      \<and> find (\<lambda>j. \<not> quote_valid (instruments st1 ! j)) [first_alive_helper st1..<length (instruments st1)] = Some 2"
    by (simp add: demo_bootstrap_simps iq_helpers_def Let_def upt_rec)
  then show ?thesis using calculate_first_invalid_quote by blast
qed

end
