(* ===== verification/BootstrapLifecycle.thy ===== *)
theory BootstrapLifecycle
  imports IterativeBootstrap
begin

text \<open>
  The life of an \<open>IterativeBootstrap\<close> object across calls. The constructor (lines 64--67
  of \<open>src/QuantExt/qle/termstructures/iterativebootstrap.hpp\<close>) and \<open>setup\<close> create it.
  After that the curve calls \<open>calculate()\<close> whenever its lazy value is needed. Between
  calls the market may change the validity of a helper's quote, and date-relative helpers
  may move their dates after an evaluation date change. These changes come from the
  observers, which are outside the sources. They are the events of the inductive step
  relation \<open>bs_step\<close>. A calculation step is a call of \<open>calculate\<close> that returns normally.
  After a call that throws, the state of the object's members is not modelled, so such
  runs end there.

  Two facts hold along every run, and both are proved by rule induction. The vectors of an
  initialised curve always have \<open>alive + 1\<close> entries, and a valid curve is initialised.
  \<open>loopRequired_\<close>, once set, is never reset.
\<close>

text \<open>The contract of the solvers (\<open>BootstrapError\<close> writes the root into
  \<open>ts_->data_[i]\<close>): a solver call does not change the length of the curve data.\<close>

definition solver_keeps_length :: "bootstrap_traits \<Rightarrow> bool" where
  "solver_keeps_length tr \<longleftrightarrow> (\<forall>i v g mn mx d d'. solve tr i v g mn mx d = Inr d' \<longrightarrow> length d' = length d)"

definition bs_shape :: "bootstrap_state \<Rightarrow> bool" where
  "bs_shape st \<longleftrightarrow> first_alive_helper st + alive st = length (instruments st) \<and>
     length (bs_dates st) = alive st + 1 \<and> length (bs_times st) = alive st + 1 \<and>
     length (bs_data st) = alive st + 1 \<and> length (previous_data st) = alive st + 1"

definition bs_inv :: "bootstrap_state \<Rightarrow> bool" where
  "bs_inv st \<longleftrightarrow> (initialized st \<longrightarrow> bs_shape st) \<and> (valid_curve st \<longrightarrow> initialized st)"

text \<open>The events between two uses of the curve, and the constructor: \<open>initialized_\<close> and
  \<open>validCurve_\<close> start false, \<open>loopRequired_\<close> starts as \<open>Interpolator::global\<close> and
  \<open>previousData_\<close> empty. The curve's own members, and the counters that the constructor
  leaves uninitialised, come from the curve state \<open>c\<close>.\<close>

datatype bs_event = Calculate | QuoteChanged nat bool | HelpersMoved "helper list"

definition bootstrap_new :: "bootstrap_traits \<Rightarrow> bootstrap_state \<Rightarrow> bootstrap_state" where
  "bootstrap_new tr c = c\<lparr>previous_data := [], initialized := False, valid_curve := False,
                          loop_required := interp_global tr\<rparr>"

inductive bs_step :: "bootstrap_traits \<Rightarrow> bootstrap_state \<Rightarrow> bs_event \<Rightarrow> bootstrap_state \<Rightarrow> bool" for tr where
  calc: "calculate tr st = Inr st' \<Longrightarrow> bs_step tr st Calculate st'"
| quote: "j < length (instruments st) \<Longrightarrow>
    bs_step tr st (QuoteChanged j b) (st\<lparr>instruments := (instruments st)[j := (instruments st ! j)\<lparr>quote_valid := b\<rparr>]\<rparr>)"
| moved: "length hs = length (instruments st) \<Longrightarrow> bs_step tr st (HelpersMoved hs) (st\<lparr>instruments := hs\<rparr>)"

inductive bs_reachable :: "bootstrap_traits \<Rightarrow> bootstrap_state \<Rightarrow> bool" for tr where
  reach_setup: "bootstrap_setup (bootstrap_new tr c) = Inr st \<Longrightarrow> bs_reachable tr st"
| reach_step: "bs_reachable tr st \<Longrightarrow> bs_step tr st e st' \<Longrightarrow> bs_reachable tr st'"

subsection \<open>Helper lemmas\<close>

lemma length_resize: "length (resize n x xs) = n"
  by (simp add: resize_def)

lemma pillar_loop_length:
  "sfold (pillar_step ins) js (ds0, md0, lr0) = Inr (ds, md, lr) \<Longrightarrow> length ds = length ds0 + length js \<and> (lr0 \<longrightarrow> lr)"
proof (induction js arbitrary: ds0 md0 lr0)
  case (Cons j js)
  obtain t where s0: "pillar_step ins j (ds0, md0, lr0) = Inr t" and r0: "sfold (pillar_step ins) js t = Inr (ds, md, lr)"
    using Cons.prems by (cases "pillar_step ins j (ds0, md0, lr0)") auto
  obtain ds1 md1 lr1 where t: "t = (ds1, md1, lr1)" by (cases t)
  have r: "sfold (pillar_step ins) js (ds1, md1, lr1) = Inr (ds, md, lr)" using r0 t by simp
  have "length ds1 = Suc (length ds0) \<and> (lr0 \<longrightarrow> lr1)"
    using s0 t by (auto simp: pillar_step_def Let_def split: if_splits)
  then show ?case using Cons.IH [OF r] by simp
qed simp

lemma initialize_shape:
  assumes "initialize tr st = Inr st'" and "bs_inv st"
  shows "bs_shape st' \<and> initialized st' \<and> valid_curve st' = valid_curve st \<and>
         length (instruments st') = length (instruments st) \<and> (loop_required st \<longrightarrow> loop_required st')"
proof -
  let ?ins = "sort_key pillar_date (instruments st)"
  obtain fa ds md lr where ne: "?ins \<noteq> []"
    and lst: "initial_date tr < pillar_date (?ins ! (length (instruments st) - 1))"
    and fa: "first_alive ?ins (initial_date tr) 0 = Some fa"
    and loop: "sfold (pillar_step ?ins) [fa..<length (instruments st)]
           ([initial_date tr], initial_date tr, loop_required st) = Inr (ds, md, lr)"
    and st': "st' = st\<lparr>instruments := ?ins, bs_dates := ds, bs_times := map (time_from_reference tr) ds,
           max_date := md, loop_required := lr, first_alive_helper := fa, alive := length (instruments st) - fa,
           bs_data := (if \<not> valid_curve st \<or> length (bs_data st) \<noteq> length (instruments st) - fa + 1
                       then replicate (length (instruments st) - fa + 1) (initial_value tr) else bs_data st),
           previous_data := (if \<not> valid_curve st \<or> length (bs_data st) \<noteq> length (instruments st) - fa + 1
                       then resize (length (instruments st) - fa + 1) 0 (previous_data st) else previous_data st),
           initialized := True\<rparr>"
    using assms(1) by (rule initialize_InrE)
  have fa': "fa < length (instruments st)"
    using first_alive_Some [OF fa ne] lst by simp
  have l: "length ds = Suc (length (instruments st) - fa) \<and> (loop_required st \<longrightarrow> lr)"
    using pillar_loop_length [OF loop] fa' by simp
  have prev: "length (previous_data st) = length (instruments st) - fa + 1"
    if "valid_curve st" and "length (bs_data st) = length (instruments st) - fa + 1"
    using assms(2) that by (simp add: bs_inv_def bs_shape_def)
  show ?thesis
    using fa' l prev by (simp add: st' bs_shape_def length_resize)
qed

lemma sweep_length:
  assumes "solver_keeps_length tr" and "sweep tr v fa alv d = Inr d'"
  shows "length d' = length d"
  by (rule sfold_preserves [OF assms(2) [unfolded sweep_def], where P = "\<lambda>x. length x = length d"])
    (use assms(1) in \<open>auto simp: solve_pillar_def Let_def map_sum_def solver_keeps_length_def split: if_splits sum.splits\<close>)

lemma calc_loop_frame:
  "calc_loop tr st it v = Inr r \<Longrightarrow>
     \<exists>s d p. (r = Done s \<or> r = Retry s) \<and> s = st\<lparr>bs_data := d, previous_data := p\<rparr> \<and>
       (solver_keeps_length tr \<longrightarrow> length d = length (bs_data st) \<and> length p = length (bs_data st))"
proof (induction tr st it v arbitrary: r rule: calc_loop.induct)
  case (1 tr st it v)
  show ?case
  proof (cases "sweep tr v (first_alive_helper st) (alive st) (bs_data st)")
    case (Inl e)
    then have "r = Retry (st\<lparr>previous_data := bs_data st\<rparr>)"
      using 1(2) by (cases e) (auto simp: calc_loop.simps [of tr st it v] split: if_splits)
    then show ?thesis by (intro exI [of _ "st\<lparr>previous_data := bs_data st\<rparr>"] exI [of _ "bs_data st"]) simp
  next
    case (Inr d)
    have ld: "solver_keeps_length tr \<longrightarrow> length d = length (bs_data st)" using sweep_length Inr by blast
    show ?thesis
      using 1(1) [OF refl Inr refl _ refl] 1(2) Inr ld
      by (auto simp: calc_loop.simps [of tr st it v] Let_def split: if_splits)
  qed
qed

lemma calculate_frame:
  "calculate tr st = Inr st' \<Longrightarrow>
     valid_curve st' \<and> initialized st' \<and> length (instruments st') = length (instruments st) \<and>
     (loop_required st \<longrightarrow> loop_required st') \<and> (solver_keeps_length tr \<longrightarrow> bs_inv st \<longrightarrow> bs_inv st')"
proof (induction tr st arbitrary: st' rule: calculate.induct)
  case (1 tr st)
  obtain st1 where i: "(if \<not> initialized st \<or> moving st then initialize tr st else Inr st) = Inr st1"
    and q: "\<exists>u. check_quotes st1 = Inr u"
    and c: "\<exists>r. calc_loop tr st1 0 (valid_curve st1) = Inr r"
    using 1(2) by (auto simp: calculate.simps [of tr st] split: sum.splits)
  then obtain u r where q: "check_quotes st1 = Inr u" and c: "calc_loop tr st1 0 (valid_curve st1) = Inr r"
    by blast
  have s1: "initialized st1 \<and> length (instruments st1) = length (instruments st) \<and>
      (loop_required st \<longrightarrow> loop_required st1) \<and> (bs_inv st \<longrightarrow> bs_shape st1)"
  proof (cases "\<not> initialized st \<or> moving st")
    case True
    then have ini: "initialize tr st = Inr st1" using i by simp
    have "initialized st1 \<and> length (instruments st1) = length (instruments st) \<and> (loop_required st \<longrightarrow> loop_required st1)"
      using ini by (auto elim!: initialize_InrE dest: pillar_loop_length)
    then show ?thesis using initialize_shape [OF ini] by blast
  next
    case False
    then show ?thesis using i by (auto simp: bs_inv_def)
  qed
  obtain s d p where o: "r = Done s \<or> r = Retry s" and s: "s = st1\<lparr>bs_data := d, previous_data := p\<rparr>"
    and l: "solver_keeps_length tr \<longrightarrow> length d = length (bs_data st1) \<and> length p = length (bs_data st1)"
    using calc_loop_frame [OF c] by blast
  show ?case
  proof (cases r)
    case (Done st2)
    then have "st' = st2\<lparr>valid_curve := True\<rparr>" and "st2 = s"
      using 1(2) i q c o by (simp_all add: calculate.simps [of tr st])
    then show ?thesis using s1 s l by (auto simp: bs_inv_def bs_shape_def)
  next
    case (Retry st2)
    then have r: "calculate tr (st2\<lparr>valid_curve := False, initialized := False\<rparr>) = Inr st'" and "st2 = s"
      using 1(2) i q c o by (simp_all add: calculate.simps [of tr st])
    then show ?thesis using 1(1) [OF i q c Retry r] s1 s by (auto simp: bs_inv_def)
  qed
qed

lemma bs_step_frame:
  "bs_step tr st e st' \<Longrightarrow>
     length (instruments st') = length (instruments st) \<and> (loop_required st \<longrightarrow> loop_required st') \<and>
     (solver_keeps_length tr \<longrightarrow> bs_inv st \<longrightarrow> bs_inv st')"
  by (induction rule: bs_step.induct) (auto dest: calculate_frame simp: bs_inv_def bs_shape_def)

subsection \<open>Properties\<close>

text \<open>C31. In every state reachable from the constructor and \<open>setup\<close>, an initialised
  curve has \<open>firstAliveHelper_ + alive_ = n_\<close>. Its dates, times, data and previous data
  each have \<open>alive_ + 1\<close> entries, and a valid curve is initialised. This holds provided the
  solvers keep the length of the data. So the reads \<open>data[i]\<close> and \<open>previousData_[i]\<close>
  for \<open>i \<le> alive_\<close> in the loop of lines 183--260 are always in range.\<close>

theorem bs_reachable_inv:
  assumes "solver_keeps_length tr" and "bs_reachable tr st"
  shows "bs_inv st"
  using assms(2)
proof (induction rule: bs_reachable.induct)
  case (reach_setup c st)
  then show ?case by (auto simp: bootstrap_setup_def bootstrap_new_def bs_inv_def split: if_splits)
next
  case (reach_step st e st')
  then show ?case using bs_step_frame assms(1) by blast
qed

theorem bs_reachable_inv_witness:
  "solver_keeps_length demo_traits \<and> bs_reachable demo_traits (demo_curve\<lparr>instruments := sort_key pillar_date demo_helpers,
      bs_dates := [0, 5, 10], bs_times := [0, 1 / 73, 2 / 73], bs_data := [1, 1, 1], previous_data := [1, 1, 1],
      max_date := 12, initialized := True, valid_curve := True, loop_required := True, alive := 2\<rparr>) \<and> bs_inv (demo_curve\<lparr>instruments := sort_key pillar_date demo_helpers,
      bs_dates := [0, 5, 10], bs_times := [0, 1 / 73, 2 / 73], bs_data := [1, 1, 1], previous_data := [1, 1, 1],
      max_date := 12, initialized := True, valid_curve := True, loop_required := True, alive := 2\<rparr>)"
proof -
  have k: "solver_keeps_length demo_traits" by (simp add: solver_keeps_length_def demo_traits_def)
  have r0: "bs_reachable demo_traits demo_curve"
    by (rule bs_reachable.reach_setup [of _ demo_curve])
      (simp add: bootstrap_setup_def bootstrap_new_def demo_curve_def demo_traits_def demo_helpers_def)
  have r1: "bs_reachable demo_traits (demo_curve\<lparr>instruments := sort_key pillar_date demo_helpers,
      bs_dates := [0, 5, 10], bs_times := [0, 1 / 73, 2 / 73], bs_data := [1, 1, 1], previous_data := [1, 1, 1],
      max_date := 12, initialized := True, valid_curve := True, loop_required := True, alive := 2\<rparr>)"
    by (rule bs_reachable.reach_step [OF r0 bs_step.calc [OF demo_run_calculate]])
  show ?thesis using bs_reachable_inv [OF k r1] k r1 by blast
qed

text \<open>C32. \<open>loopRequired_\<close> is only ever set. It starts as \<open>Interpolator::global\<close> and
  \<open>initialize\<close> (line 130) can only set it. Nothing resets it, not even a re-initialisation
  after the helpers moved. So once one set of pillars needed the convergence loop, every
  later calculation runs the loop, along every run of the object.\<close>

theorem loop_required_never_reset:
  assumes "(\<lambda>s s'. \<exists>e. bs_step tr s e s')\<^sup>*\<^sup>* st st'" and "loop_required st"
  shows "loop_required st'"
  using assms by (induction rule: rtranclp_induct) (auto dest: bs_step_frame)

theorem loop_required_never_reset_witness:
  "(\<lambda>s s'. \<exists>e. bs_step demo_traits s e s')\<^sup>*\<^sup>* demo_curve (demo_curve\<lparr>instruments := sort_key pillar_date demo_helpers,
      bs_dates := [0, 5, 10], bs_times := [0, 1 / 73, 2 / 73], bs_data := [1, 1, 1], previous_data := [1, 1, 1],
      max_date := 12, initialized := True, valid_curve := True, loop_required := True, alive := 2\<rparr>) \<and>
   (\<lambda>s s'. \<exists>e. bs_step demo_traits s e s')\<^sup>*\<^sup>* (demo_curve\<lparr>instruments := sort_key pillar_date demo_helpers,
      bs_dates := [0, 5, 10], bs_times := [0, 1 / 73, 2 / 73], bs_data := [1, 1, 1], previous_data := [1, 1, 1],
      max_date := 12, initialized := True, valid_curve := True, loop_required := True, alive := 2\<rparr>) ((demo_curve\<lparr>instruments := sort_key pillar_date demo_helpers,
      bs_dates := [0, 5, 10], bs_times := [0, 1 / 73, 2 / 73], bs_data := [1, 1, 1], previous_data := [1, 1, 1],
      max_date := 12, initialized := True, valid_curve := True, loop_required := True, alive := 2\<rparr>)\<lparr>instruments := [\<lparr>pillar_date = 5, latest_relevant_date = 5, quote_valid = False\<rparr>,
        \<lparr>pillar_date = 10, latest_relevant_date = 12, quote_valid = True\<rparr>]\<rparr>) \<and>
   loop_required (demo_curve\<lparr>instruments := sort_key pillar_date demo_helpers,
      bs_dates := [0, 5, 10], bs_times := [0, 1 / 73, 2 / 73], bs_data := [1, 1, 1], previous_data := [1, 1, 1],
      max_date := 12, initialized := True, valid_curve := True, loop_required := True, alive := 2\<rparr>) \<and>
   loop_required ((demo_curve\<lparr>instruments := sort_key pillar_date demo_helpers,
      bs_dates := [0, 5, 10], bs_times := [0, 1 / 73, 2 / 73], bs_data := [1, 1, 1], previous_data := [1, 1, 1],
      max_date := 12, initialized := True, valid_curve := True, loop_required := True, alive := 2\<rparr>)\<lparr>instruments := [\<lparr>pillar_date = 5, latest_relevant_date = 5, quote_valid = False\<rparr>,
        \<lparr>pillar_date = 10, latest_relevant_date = 12, quote_valid = True\<rparr>]\<rparr>)"
proof -
  have c: "(\<lambda>s s'. \<exists>e. bs_step demo_traits s e s')\<^sup>*\<^sup>* demo_curve (demo_curve\<lparr>instruments := sort_key pillar_date demo_helpers,
      bs_dates := [0, 5, 10], bs_times := [0, 1 / 73, 2 / 73], bs_data := [1, 1, 1], previous_data := [1, 1, 1],
      max_date := 12, initialized := True, valid_curve := True, loop_required := True, alive := 2\<rparr>)"
    using bs_step.calc [OF demo_run_calculate] by blast
  have "bs_step demo_traits (demo_curve\<lparr>instruments := sort_key pillar_date demo_helpers,
      bs_dates := [0, 5, 10], bs_times := [0, 1 / 73, 2 / 73], bs_data := [1, 1, 1], previous_data := [1, 1, 1],
      max_date := 12, initialized := True, valid_curve := True, loop_required := True, alive := 2\<rparr>) (QuoteChanged 0 False) ((demo_curve\<lparr>instruments := sort_key pillar_date demo_helpers,
      bs_dates := [0, 5, 10], bs_times := [0, 1 / 73, 2 / 73], bs_data := [1, 1, 1], previous_data := [1, 1, 1],
      max_date := 12, initialized := True, valid_curve := True, loop_required := True, alive := 2\<rparr>)\<lparr>instruments := [\<lparr>pillar_date = 5, latest_relevant_date = 5, quote_valid = False\<rparr>,
        \<lparr>pillar_date = 10, latest_relevant_date = 12, quote_valid = True\<rparr>]\<rparr>)"
    using bs_step.quote [of 0 "demo_curve\<lparr>instruments := sort_key pillar_date demo_helpers,
      bs_dates := [0, 5, 10], bs_times := [0, 1 / 73, 2 / 73], bs_data := [1, 1, 1], previous_data := [1, 1, 1],
      max_date := 12, initialized := True, valid_curve := True, loop_required := True, alive := 2\<rparr>" demo_traits False] by (simp add: demo_helpers_def)
  then have q: "(\<lambda>s s'. \<exists>e. bs_step demo_traits s e s')\<^sup>*\<^sup>* (demo_curve\<lparr>instruments := sort_key pillar_date demo_helpers,
      bs_dates := [0, 5, 10], bs_times := [0, 1 / 73, 2 / 73], bs_data := [1, 1, 1], previous_data := [1, 1, 1],
      max_date := 12, initialized := True, valid_curve := True, loop_required := True, alive := 2\<rparr>) ((demo_curve\<lparr>instruments := sort_key pillar_date demo_helpers,
      bs_dates := [0, 5, 10], bs_times := [0, 1 / 73, 2 / 73], bs_data := [1, 1, 1], previous_data := [1, 1, 1],
      max_date := 12, initialized := True, valid_curve := True, loop_required := True, alive := 2\<rparr>)\<lparr>instruments := [\<lparr>pillar_date = 5, latest_relevant_date = 5, quote_valid = False\<rparr>,
        \<lparr>pillar_date = 10, latest_relevant_date = 12, quote_valid = True\<rparr>]\<rparr>)"
    by blast
  have l: "loop_required (demo_curve\<lparr>instruments := sort_key pillar_date demo_helpers,
      bs_dates := [0, 5, 10], bs_times := [0, 1 / 73, 2 / 73], bs_data := [1, 1, 1], previous_data := [1, 1, 1],
      max_date := 12, initialized := True, valid_curve := True, loop_required := True, alive := 2\<rparr>)" by simp
  show ?thesis using loop_required_never_reset [OF q l] c q l by blast
qed

end
