(* ===== verification/CrossAssetModelData.thy ===== *)
theory CrossAssetModelData
  imports NormalSabr "HOL-Library.Multiset"
begin

text \<open>
  The configuration of the cross asset model, \<open>ore::data::CrossAssetModelData\<close> of
  \<open>src/OREData/ored/model/crossassetmodeldata.cpp\<close>, which the XVA engine reads its
  discretisation from. Modelled are:
  \<^item> the completion of the per-asset-class configurations from the parsed ones and a
    \<open>default\<close> entry (\<open>buildIrConfigs\<close>, \<open>buildFxConfigs\<close>, \<open>buildEqConfigs\<close>,
    \<open>buildInfConfigs\<close>, \<open>buildCrConfigs\<close>);
  \<^item> \<open>validate\<close>, \<open>clear\<close>, the two equality operators and
    \<open>InstantaneousCorrelations::fromXML\<close>;
  \<^item> the composition in \<open>fromXML\<close>;
  \<^item> \<open>toXML\<close> of the model data and of the correlations, and the round trip of
    \<open>fromXML\<close> after \<open>toXML\<close>.

  A parsed configuration (\<open>IrLgmData\<close>, \<open>FxBsData\<close>, \<open>EqBsData\<close>, \<open>CrLgmData\<close>,
  \<open>CrCirData\<close>, the inflation model data) is its key (currency, foreign currency, equity
  name, index or credit name) and the list of its remaining fields, which the code copies
  unchanged. The classes' own XML parsing is not in the sources: \<open>fromXML\<close> takes the parsed
  children of the \<open>CrossAssetModel\<close> node in document order. \<open>std::map\<close> is a partial
  function \<open>string \<rightharpoonup> _\<close> updated in document order, so the last entry for a key wins.
\<close>

record config =
  cfg_key :: string
  cfg_params :: "(string \<times> string) list"

text \<open>Inflation model data: Dodgson-Kainth, Jarrow-Yildirim, or another subclass of
  \<open>InflationModelData\<close> (which only the default completion distinguishes).\<close>

datatype inf_model_data = InfDk config | InfJy config | InfOther config

type_synonym corr_key = "string \<times> string"
  \<comment> \<open>a \<open>CorrelationKey\<close>: the pair of correlation factors, rendered\<close>

datatype cam_error =
    IrConfigMissing string
  | FxConfigMissing string
  | EqConfigMissing string
  | InfConfigMissing string
  | InfNotDkOrJy
  | CrConfigMissing string
  | CrRequireFailed string   \<comment> \<open>the \<open>QL_REQUIRE\<close> of line 564, whose message is empty\<close>
  | NoIrData
  | InconsistentFx
  | CurrencyMismatch
  | NoInstantaneousCorrelations

record cam_model_data =
  domestic_ccy :: string
  currencies :: "string list"
  equities :: "string list"
  infindices :: "string list"
  credit_names :: "string list"
  bootstrap_tolerance :: real
  ir_configs :: "config list"
  fx_configs :: "config list"
  eq_configs :: "config list"
  inf_configs :: "inf_model_data list"
  cr_lgm_configs :: "config list"
  cr_cir_configs :: "config list"
  correlations :: "(corr_key \<times> real) list"

subsection \<open>Equality (lines 115--182)\<close>

text \<open>\<open>InstantaneousCorrelations::operator==\<close>: both maps are walked in key order in
  lockstep; keys must agree and values be \<open>close_enough\<close>, and both walks must end together.\<close>

fun corr_eq :: "(corr_key \<times> real) list \<Rightarrow> (corr_key \<times> real) list \<Rightarrow> bool" where
  "corr_eq (c1 # cs1) (c2 # cs2) = (fst c1 = fst c2 \<and> close_enough (snd c1) (snd c2) \<and> corr_eq cs1 cs2)"
| "corr_eq [] [] = True"
| "corr_eq _ _ = False"

definition cam_eq :: "cam_model_data \<Rightarrow> cam_model_data \<Rightarrow> bool" where
  "cam_eq d e =
     (corr_eq (correlations d) (correlations e) \<and>
      domestic_ccy d = domestic_ccy e \<and> currencies d = currencies e \<and> equities d = equities e \<and>
      infindices d = infindices e \<and> bootstrap_tolerance d = bootstrap_tolerance e \<and>
      length (ir_configs d) = length (ir_configs e) \<and> length (fx_configs d) = length (fx_configs e) \<and>
      length (eq_configs d) = length (eq_configs e) \<and> length (inf_configs d) = length (inf_configs e) \<and>
      length (cr_lgm_configs d) = length (cr_lgm_configs e) \<and> length (cr_cir_configs d) = length (cr_cir_configs e) \<and>
      (\<forall>i < length (ir_configs d). ir_configs d ! i = ir_configs e ! i) \<and>
      (\<forall>i < length (fx_configs d). fx_configs d ! i = fx_configs e ! i) \<and>
      (\<forall>i < length (eq_configs d). eq_configs d ! i = eq_configs e ! i) \<and>
      (\<forall>i < length (cr_lgm_configs d). cr_lgm_configs d ! i = cr_lgm_configs e ! i) \<and>
      (\<forall>i < length (cr_cir_configs d). cr_cir_configs d ! i = cr_cir_configs e ! i))"

text \<open>The two \<open>operator!=\<close> (lines 129--131 and 182) negate the equalities.\<close>

definition corr_neq :: "(corr_key \<times> real) list \<Rightarrow> (corr_key \<times> real) list \<Rightarrow> bool" where
  "corr_neq xs ys = (\<not> corr_eq xs ys)"

definition cam_neq :: "cam_model_data \<Rightarrow> cam_model_data \<Rightarrow> bool" where
  "cam_neq d e = (\<not> cam_eq d e)"

subsection \<open>\<open>clear\<close> and \<open>validate\<close> (lines 184--202)\<close>

definition cam_clear :: "cam_model_data \<Rightarrow> cam_model_data" where
  "cam_clear d = d\<lparr>currencies := [], equities := [], ir_configs := [], fx_configs := [], eq_configs := [],
                    inf_configs := [], cr_lgm_configs := [], cr_cir_configs := [], correlations := []\<rparr>"

definition cam_validate :: "cam_model_data \<Rightarrow> cam_error + unit" where
  "cam_validate d =
     (if \<not> 0 < length (ir_configs d) then Inl NoIrData
      else if length (fx_configs d) \<noteq> length (ir_configs d) - 1 then Inl InconsistentFx
      else sfold (\<lambda>i u. if cfg_key (fx_configs d ! i) = cfg_key (ir_configs d ! (i + 1)) then Inr u
                        else Inl CurrencyMismatch) [0..<length (fx_configs d)] ())"

text \<open>\<open>pairToStrings\<close> (lines 204--207), a free helper that nothing in the sources calls.\<close>

definition pair_to_strings :: "string \<times> string \<Rightarrow> string list" where
  "pair_to_strings p = [fst p, snd p]"

subsection \<open>Completion from the default configuration (lines 429--586)\<close>

text \<open>The lookup the IR, FX, EQ and CR builders share: the configuration stored under
  the key, or a copy of the \<open>default\<close> one whose key is overwritten with the requested one
  and whose other fields are kept, or the builder's error.\<close>

definition lookup_or_default :: "(string \<Rightarrow> cam_error) \<Rightarrow> (string \<rightharpoonup> config) \<Rightarrow> string \<Rightarrow> cam_error + config" where
  "lookup_or_default err m k =
     (case m k of
        Some c \<Rightarrow> Inr c
      | None \<Rightarrow> (case m ''default'' of None \<Rightarrow> Inl (err k) | Some def \<Rightarrow> Inr (def\<lparr>cfg_key := k\<rparr>)))"

text \<open>\<open>buildIrConfigs\<close> resizes \<open>irConfigs_\<close> to the currencies and fills it in their order.\<close>

definition build_ir_configs :: "string list \<Rightarrow> (string \<rightharpoonup> config) \<Rightarrow> cam_error + config list" where
  "build_ir_configs ccys m = smap (lookup_or_default IrConfigMissing m) ccys"

text \<open>\<open>buildFxConfigs\<close> appends one configuration per foreign currency, skipping the
  domestic one.\<close>

definition build_fx_configs ::
  "string \<Rightarrow> string list \<Rightarrow> (string \<rightharpoonup> config) \<Rightarrow> config list \<Rightarrow> cam_error + config list" where
  "build_fx_configs dccy ccys m fxs =
     sbind (smap (lookup_or_default FxConfigMissing m) (filter (\<lambda>c. c \<noteq> dccy) ccys)) (\<lambda>new. Inr (fxs @ new))"

definition build_eq_configs :: "string list \<Rightarrow> (string \<rightharpoonup> config) \<Rightarrow> config list \<Rightarrow> cam_error + config list" where
  "build_eq_configs names m eqs =
     sbind (smap (lookup_or_default EqConfigMissing m) names) (\<lambda>new. Inr (eqs @ new))"

text \<open>\<open>buildInfConfigs\<close>: a missing index gets a copy of the default data, of the same
  subclass, \<^emph>\<open>unchanged\<close>: unlike the other builders it does not set the copy's index.\<close>

definition inf_lookup_or_default :: "(string \<rightharpoonup> inf_model_data) \<Rightarrow> string \<Rightarrow> cam_error + inf_model_data" where
  "inf_lookup_or_default mp idx =
     (case mp idx of
        Some d \<Rightarrow> Inr d
      | None \<Rightarrow> (case mp ''default'' of
          None \<Rightarrow> Inl (InfConfigMissing idx)
        | Some (InfDk c) \<Rightarrow> Inr (InfDk c)
        | Some (InfJy c) \<Rightarrow> Inr (InfJy c)
        | Some (InfOther c) \<Rightarrow> Inl InfNotDkOrJy))"

definition build_inf_configs ::
  "string list \<Rightarrow> (string \<rightharpoonup> inf_model_data) \<Rightarrow> inf_model_data list \<Rightarrow> cam_error + inf_model_data list" where
  "build_inf_configs idxs mp infs = sbind (smap (inf_lookup_or_default mp) idxs) (\<lambda>new. Inr (infs @ new))"

text \<open>\<open>buildCrConfigs\<close>: a name with LGM data must not also have CIR data; a name with
  neither gets the LGM default (the CIR default is never used).\<close>

definition cr_step ::
  "(string \<rightharpoonup> config) \<Rightarrow> (string \<rightharpoonup> config) \<Rightarrow> string \<Rightarrow> config list \<times> config list \<Rightarrow> cam_error + config list \<times> config list" where
  "cr_step lm cm n acc =
     (case acc of (ls, cs) \<Rightarrow>
       case lm n of
         Some c \<Rightarrow> if cm n \<noteq> None then Inl (CrRequireFailed '''') else Inr (ls @ [c], cs)
       | None \<Rightarrow> (case cm n of
           Some c \<Rightarrow> Inr (ls, cs @ [c])
         | None \<Rightarrow> (case lm ''default'' of
             None \<Rightarrow> Inl (CrConfigMissing n)
           | Some def \<Rightarrow> Inr (ls @ [def\<lparr>cfg_key := n\<rparr>], cs))))"

definition build_cr_configs ::
  "string list \<Rightarrow> (string \<rightharpoonup> config) \<Rightarrow> (string \<rightharpoonup> config) \<Rightarrow> cam_error + config list \<times> config list" where
  "build_cr_configs names lm cm = sfold (cr_step lm cm) names ([], [])"

subsection \<open>\<open>fromXML\<close> (lines 71--90 and 209--427)\<close>

text \<open>The parsed children of the \<open>CrossAssetModel\<close> node: the lists of names, the
  configurations of each model section in document order (an absent section is an empty
  list), the \<open>InflationIndexModels\<close> children as (node name, data) pairs if that node is
  present, and the \<open>InstantaneousCorrelations\<close> entries if that node is present.\<close>

record cam_xml =
  x_domestic :: string
  x_currencies :: "string list"
  x_equities :: "string list"
  x_infindices :: "string list"
  x_credit_names :: "string list"
  x_tolerance :: real
  x_ir :: "config list"
  x_fx :: "config list"
  x_eq :: "config list"
  x_inf :: "(string \<times> config) list option"
  x_cr_lgm :: "config list"
  x_cr_cir :: "config list"
  x_correlations :: "(corr_key \<times> real) list option"

text \<open>The loops that fill \<open>irDataMap\<close>, \<open>fxDataMap\<close>, \<open>eqDataMap\<close>, \<open>crLgmDataMap\<close> and
  \<open>crCirDataMap\<close>: each parsed configuration is stored under its key.\<close>

definition data_map :: "config list \<Rightarrow> string \<rightharpoonup> config" where
  "data_map cfgs = fold (\<lambda>c m. m(cfg_key c \<mapsto> c)) cfgs Map.empty"

text \<open>Lines 336--356: \<open>LGM\<close> and \<open>DodgsonKainth\<close> nodes are DK data, \<open>JarrowYildirim\<close>
  nodes JY data, other nodes are skipped. The map key \<open>indexName\<close> is bound before
  \<open>imData->fromXML(cn)\<close>. It is a reference to the index member, so it is read after the
  parse. That holds when \<open>index()\<close> returns a reference, and its declaration is not in the
  sources. The model keys by the parsed index.\<close>

definition inf_data_map :: "(string \<times> config) list \<Rightarrow> string \<rightharpoonup> inf_model_data" where
  "inf_data_map nodes =
     fold (\<lambda>(nm, c) mp. if nm = ''LGM'' \<or> nm = ''DodgsonKainth'' then mp(cfg_key c \<mapsto> InfDk c)
                        else if nm = ''JarrowYildirim'' then mp(cfg_key c \<mapsto> InfJy c) else mp)
       nodes Map.empty"

text \<open>\<open>InstantaneousCorrelations::fromXML\<close>: the entries are passed through the
  \<open>CorrelationMatrixBuilder\<close> \<open>cmb\<close> (whose code is not in the sources); a missing node
  is an error.\<close>

definition inst_corr_from_xml ::
  "((corr_key \<times> real) list \<Rightarrow> (corr_key \<times> real) list) \<Rightarrow> (corr_key \<times> real) list option \<Rightarrow>
   cam_error + (corr_key \<times> real) list" where
  "inst_corr_from_xml cmb node = (case node of None \<Rightarrow> Inl NoInstantaneousCorrelations | Some es \<Rightarrow> Inr (cmb es))"

text \<open>\<open>CrossAssetModelData::fromXML\<close>: clear, read the name lists, build the IR, FX, EQ,
  inflation (only if its node is present) and credit configurations, the correlations, and
  validate.\<close>

definition cam_from_xml ::
  "((corr_key \<times> real) list \<Rightarrow> (corr_key \<times> real) list) \<Rightarrow> cam_xml \<Rightarrow> cam_model_data \<Rightarrow> cam_error + cam_model_data" where
  "cam_from_xml cmb x d =
     (let d0 = (cam_clear d)\<lparr>domestic_ccy := x_domestic x, currencies := x_currencies x,
                  equities := x_equities x, infindices := x_infindices x, credit_names := x_credit_names x,
                  bootstrap_tolerance := x_tolerance x\<rparr> in
      sbind (build_ir_configs (currencies d0) (data_map (x_ir x))) (\<lambda>irs.
      sbind (build_fx_configs (domestic_ccy d0) (currencies d0) (data_map (x_fx x)) (fx_configs d0)) (\<lambda>fxs.
      sbind (build_eq_configs (equities d0) (data_map (x_eq x)) (eq_configs d0)) (\<lambda>eqs.
      sbind (case x_inf x of None \<Rightarrow> Inr (inf_configs d0)
             | Some nodes \<Rightarrow> build_inf_configs (infindices d0) (inf_data_map nodes) (inf_configs d0)) (\<lambda>infs.
      sbind (build_cr_configs (credit_names d0) (data_map (x_cr_lgm x)) (data_map (x_cr_cir x))) (\<lambda>(ls, cs).
      sbind (inst_corr_from_xml cmb (x_correlations x)) (\<lambda>corr.
        let d1 = d0\<lparr>ir_configs := irs, fx_configs := fxs, eq_configs := eqs, inf_configs := infs,
                    cr_lgm_configs := ls, cr_cir_configs := cs, correlations := corr\<rparr> in
        sbind (cam_validate d1) (\<lambda>_. Inr d1))))))))"

text \<open>An empty object and a parsed configuration for the witnesses: EUR domestic, USD
  foreign, IR data for EUR and a default, only a default FX configuration, one equity and one
  credit name completed from the LGM default.\<close>

definition empty_cam :: cam_model_data where
  "empty_cam = \<lparr>domestic_ccy = [], currencies = [], equities = [], infindices = [], credit_names = [],
     bootstrap_tolerance = 0, ir_configs = [], fx_configs = [], eq_configs = [], inf_configs = [],
     cr_lgm_configs = [], cr_cir_configs = [], correlations = []\<rparr>"

definition demo_xml :: cam_xml where
  "demo_xml = \<lparr>x_domestic = ''EUR'', x_currencies = [''EUR'', ''USD''], x_equities = [''SP5''],
     x_infindices = [], x_credit_names = [''CPTY''], x_tolerance = 0.0001,
     x_ir = [\<lparr>cfg_key = ''EUR'', cfg_params = []\<rparr>, \<lparr>cfg_key = ''default'', cfg_params = [(''a'', ''0.03'')]\<rparr>],
     x_fx = [\<lparr>cfg_key = ''default'', cfg_params = [(''DomesticCcy'', ''EUR'')]\<rparr>],
     x_eq = [\<lparr>cfg_key = ''SP5'', cfg_params = []\<rparr>], x_inf = None,
     x_cr_lgm = [\<lparr>cfg_key = ''default'', cfg_params = []\<rparr>], x_cr_cir = [], x_correlations = Some []\<rparr>"

subsection \<open>\<open>toXML\<close> (lines 92--113 and 588--637)\<close>

text \<open>\<open>toXML\<close> writes the name lists, the tolerance, one node per configuration in the
  order of the vectors, the inflation models (the \<open>InflationIndexModels\<close> node is always
  written, possibly empty) and the correlations. The configuration classes' own \<open>toXML\<close>
  and \<open>fromXML\<close> are not in the sources: a configuration's node is read back as the same
  configuration, and the name of the node an inflation model writes is the parameter
  \<open>inf_tag\<close>. A real is written with \<open>to_string\<close> and read back with \<open>parseReal\<close>: the
  composition is the parameter \<open>real_text\<close>.\<close>

definition inst_corr_to_xml :: "(real \<Rightarrow> real) \<Rightarrow> (corr_key \<times> real) list \<Rightarrow> (corr_key \<times> real) list option" where
  "inst_corr_to_xml real_text cs = Some (map (\<lambda>(k, v). (k, real_text v)) cs)"

definition inf_node :: "(inf_model_data \<Rightarrow> string) \<Rightarrow> inf_model_data \<Rightarrow> string \<times> config" where
  "inf_node inf_tag i = (inf_tag i, case i of InfDk c \<Rightarrow> c | InfJy c \<Rightarrow> c | InfOther c \<Rightarrow> c)"

definition cam_to_xml :: "(inf_model_data \<Rightarrow> string) \<Rightarrow> (real \<Rightarrow> real) \<Rightarrow> cam_model_data \<Rightarrow> cam_xml" where
  "cam_to_xml inf_tag real_text d =
     \<lparr>x_domestic = domestic_ccy d, x_currencies = currencies d, x_equities = equities d,
      x_infindices = infindices d, x_credit_names = credit_names d,
      x_tolerance = real_text (bootstrap_tolerance d),
      x_ir = ir_configs d, x_fx = fx_configs d, x_eq = eq_configs d,
      x_inf = Some (map (inf_node inf_tag) (inf_configs d)),
      x_cr_lgm = cr_lgm_configs d, x_cr_cir = cr_cir_configs d,
      x_correlations = inst_corr_to_xml real_text (correlations d)\<rparr>"

text \<open>The conditions under which writing and reading back reproduces the object: the
  configurations are keyed in the order of the name lists, the names are distinct, every
  inflation model writes a node name that \<open>fromXML\<close> recognises for its class, the credit
  names split into the LGM and the CIR configurations, and the object is valid.\<close>

definition inf_tag_ok :: "(inf_model_data \<Rightarrow> string) \<Rightarrow> inf_model_data \<Rightarrow> bool" where
  "inf_tag_ok inf_tag i =
     (case i of InfDk _ \<Rightarrow> inf_tag i = ''LGM'' \<or> inf_tag i = ''DodgsonKainth''
      | InfJy _ \<Rightarrow> inf_tag i = ''JarrowYildirim'' | InfOther _ \<Rightarrow> False)"

definition cam_round_trip_ok :: "(inf_model_data \<Rightarrow> string) \<Rightarrow> cam_model_data \<Rightarrow> bool" where
  "cam_round_trip_ok inf_tag d =
     (cam_validate d = Inr () \<and>
      distinct (currencies d) \<and> map cfg_key (ir_configs d) = currencies d \<and>
      map cfg_key (fx_configs d) = filter (\<lambda>c. c \<noteq> domestic_ccy d) (currencies d) \<and>
      distinct (equities d) \<and> map cfg_key (eq_configs d) = equities d \<and>
      distinct (infindices d) \<and> map (\<lambda>i. cfg_key (snd (inf_node inf_tag i))) (inf_configs d) = infindices d \<and>
      list_all (inf_tag_ok inf_tag) (inf_configs d) \<and>
      distinct (credit_names d) \<and>
      map cfg_key (cr_lgm_configs d) = filter (\<lambda>n. n \<in> set (map cfg_key (cr_lgm_configs d))) (credit_names d) \<and>
      map cfg_key (cr_cir_configs d) = filter (\<lambda>n. n \<notin> set (map cfg_key (cr_lgm_configs d))) (credit_names d))"

text \<open>A valid object for the round trip, with one inflation model and a CIR credit name.\<close>

definition demo_inf_tag :: "inf_model_data \<Rightarrow> string" where
  "demo_inf_tag i = (case i of InfDk _ \<Rightarrow> ''DodgsonKainth'' | InfJy _ \<Rightarrow> ''JarrowYildirim'' | InfOther _ \<Rightarrow> ''Other'')"

definition demo_cam :: cam_model_data where
  "demo_cam = \<lparr>domestic_ccy = ''EUR'', currencies = [''EUR'', ''USD''], equities = [''SP5''],
     infindices = [''CPI''], credit_names = [''A'', ''B''], bootstrap_tolerance = 0.0001,
     ir_configs = [\<lparr>cfg_key = ''EUR'', cfg_params = []\<rparr>, \<lparr>cfg_key = ''USD'', cfg_params = []\<rparr>],
     fx_configs = [\<lparr>cfg_key = ''USD'', cfg_params = []\<rparr>], eq_configs = [\<lparr>cfg_key = ''SP5'', cfg_params = []\<rparr>],
     inf_configs = [InfJy \<lparr>cfg_key = ''CPI'', cfg_params = []\<rparr>],
     cr_lgm_configs = [\<lparr>cfg_key = ''B'', cfg_params = []\<rparr>], cr_cir_configs = [\<lparr>cfg_key = ''A'', cfg_params = []\<rparr>],
     correlations = [((''IR:EUR'', ''IR:USD''), 0.5)]\<rparr>"

subsection \<open>A declarative specification of \<open>buildCrConfigs\<close>\<close>

text \<open>A credit name is acceptable when it does not have both LGM and CIR data, and when
  it has neither, an LGM default exists. For acceptable names, the LGM configurations are those of
  the names without CIR data, in name order, each its own LGM data or the renamed default. The CIR
  configurations are those of the names with CIR data. The error is determined by the first
  unacceptable name.\<close>

definition cr_name_ok :: "(string \<rightharpoonup> config) \<Rightarrow> (string \<rightharpoonup> config) \<Rightarrow> string \<Rightarrow> bool" where
  "cr_name_ok lm cm n = ((lm n = None \<or> cm n = None) \<and> (lm n = None \<and> cm n = None \<longrightarrow> lm ''default'' \<noteq> None))"

definition cr_spec :: "(string \<rightharpoonup> config) \<Rightarrow> (string \<rightharpoonup> config) \<Rightarrow> string list \<Rightarrow> config list \<times> config list" where
  "cr_spec lm cm ns =
     (map (\<lambda>n. case lm n of Some c \<Rightarrow> c | None \<Rightarrow> (the (lm ''default''))\<lparr>cfg_key := n\<rparr>) (filter (\<lambda>n. cm n = None) ns),
      map (\<lambda>n. the (cm n)) (filter (\<lambda>n. cm n \<noteq> None) ns))"

definition cr_spec_error :: "(string \<rightharpoonup> config) \<Rightarrow> string \<Rightarrow> cam_error" where
  "cr_spec_error lm n = (if lm n \<noteq> None then CrRequireFailed '''' else CrConfigMissing n)"

subsection \<open>Helper lemmas\<close>

lemma data_map_fold_keyed:
  "fold (\<lambda>c m. m(cfg_key c \<mapsto> c)) cfgs m0 k = Some c \<Longrightarrow> (\<forall>k c. m0 k = Some c \<longrightarrow> cfg_key c = k) \<Longrightarrow> cfg_key c = k"
  by (induction cfgs arbitrary: m0) auto

lemma data_map_keyed: "data_map cfgs k = Some c \<Longrightarrow> cfg_key c = k"
  unfolding data_map_def using data_map_fold_keyed by fastforce

lemma smap_lookup_keys:
  assumes "\<And>k c. m k = Some c \<Longrightarrow> cfg_key c = k"
  shows "smap (lookup_or_default err m) ks = Inr cs \<Longrightarrow>
           map cfg_key cs = ks \<and> (\<forall>i < length ks. \<forall>c. m (ks ! i) = Some c \<longrightarrow> cs ! i = c)"
proof (induction ks arbitrary: cs)
  case (Cons k ks)
  then obtain c cs' where c: "lookup_or_default err m k = Inr c" and r: "smap (lookup_or_default err m) ks = Inr cs'"
    and cs: "cs = c # cs'" by auto
  have "cfg_key c = k \<and> (\<forall>c'. m k = Some c' \<longrightarrow> c = c')"
    using c assms by (auto simp: lookup_or_default_def split: option.splits)
  then show ?case using Cons.IH [OF r] cs by (auto simp: nth_Cons split: nat.splits)
qed simp

lemma nth_tl_eq_iff: "length xs = length ys - 1 \<Longrightarrow> xs = tl ys \<longleftrightarrow> (\<forall>i < length xs. xs ! i = ys ! Suc i)"
proof
  assume "length xs = length ys - 1" and "\<forall>i < length xs. xs ! i = ys ! Suc i"
  then show "xs = tl ys" by (intro nth_equalityI) (simp_all add: nth_tl)
qed (simp add: nth_tl)

lemma cam_validate_Inr_iff:
  "cam_validate d = Inr u \<longleftrightarrow> ir_configs d \<noteq> [] \<and> map cfg_key (fx_configs d) = tl (map cfg_key (ir_configs d))"
proof (cases "ir_configs d = [] \<or> length (fx_configs d) \<noteq> length (ir_configs d) - 1")
  case True
  then show ?thesis by (auto simp: cam_validate_def dest: arg_cong [of _ _ length])
next
  case False
  then have "cam_validate d = Inr u \<longleftrightarrow>
      (\<forall>i < length (fx_configs d). cfg_key (fx_configs d ! i) = cfg_key (ir_configs d ! (i + 1)))"
    by (simp add: cam_validate_def sfold_check_Inr Ball_def atLeastLessThan_iff)
  also have "\<dots> \<longleftrightarrow> map cfg_key (fx_configs d) = tl (map cfg_key (ir_configs d))"
    using nth_tl_eq_iff [of "map cfg_key (fx_configs d)" "map cfg_key (ir_configs d)"] False by simp
  finally show ?thesis using False by simp
qed

lemma cons_filter_neq: "P x \<Longrightarrow> x # filter P xs \<noteq> xs"
proof (induction xs arbitrary: x)
  case (Cons y ys)
  then show ?case by auto
qed simp

lemma filter_neq_tl:
  "xs \<noteq> [] \<Longrightarrow> filter (\<lambda>c. c \<noteq> a) xs = tl xs \<longleftrightarrow> hd xs = a \<and> a \<notin> set (tl xs)"
proof (cases xs)
  case (Cons c cs)
  show ?thesis
  proof (cases "c = a")
    case True
    then show ?thesis using Cons by (auto simp: filter_id_conv)
  next
    case False
    then show ?thesis using Cons cons_filter_neq [of "\<lambda>c. c \<noteq> a" c cs] by simp
  qed
qed simp

lemma build_ir_keys:
  "build_ir_configs ccys (data_map cfgs) = Inr irs \<Longrightarrow>
     map cfg_key irs = ccys \<and> (\<forall>i < length ccys. \<forall>c. data_map cfgs (ccys ! i) = Some c \<longrightarrow> irs ! i = c)"
  unfolding build_ir_configs_def by (rule smap_lookup_keys [OF data_map_keyed])

lemma build_fx_keys:
  "build_fx_configs dc ccys (data_map cfgs) fxs0 = Inr fxs \<Longrightarrow>
     map cfg_key fxs = map cfg_key fxs0 @ filter (\<lambda>c. c \<noteq> dc) ccys"
  unfolding build_fx_configs_def using smap_lookup_keys [OF data_map_keyed] by fastforce

lemma build_eq_keys:
  "build_eq_configs names (data_map cfgs) eqs0 = Inr eqs \<Longrightarrow> map cfg_key eqs = map cfg_key eqs0 @ names"
  unfolding build_eq_configs_def using smap_lookup_keys [OF data_map_keyed] by fastforce

lemma smap_Inr_ex: "(\<exists>ys. smap f xs = Inr ys) \<longleftrightarrow> (\<forall>x \<in> set xs. \<exists>y. f x = Inr y)"
  by (induction xs) auto

lemma cam_from_xml_InrE:
  assumes "cam_from_xml cmb x d = Inr d'"
  obtains irs fxs eqs ls cs where
    "build_ir_configs (x_currencies x) (data_map (x_ir x)) = Inr irs"
    "build_fx_configs (x_domestic x) (x_currencies x) (data_map (x_fx x)) [] = Inr fxs"
    "build_eq_configs (x_equities x) (data_map (x_eq x)) [] = Inr eqs"
    "build_cr_configs (x_credit_names x) (data_map (x_cr_lgm x)) (data_map (x_cr_cir x)) = Inr (ls, cs)"
    "ir_configs d' = irs" "fx_configs d' = fxs" "eq_configs d' = eqs"
    "cr_lgm_configs d' = ls" "cr_cir_configs d' = cs"
    "domestic_ccy d' = x_domestic x" "currencies d' = x_currencies x" "equities d' = x_equities x"
    "cam_validate d' = Inr ()"
  using assms
  by (auto simp: cam_from_xml_def Let_def cam_clear_def split: prod.splits)

lemma close_enough_pos:
  "0 < x \<Longrightarrow> 0 < y \<Longrightarrow> close_enough x y \<longleftrightarrow> x = y \<or> (\<bar>x - y\<bar> \<le> 42 * ql_epsilon * x \<and> \<bar>x - y\<bar> \<le> 42 * ql_epsilon * y)"
  by (simp add: close_enough_def Let_def)

lemma corr_eq_refl: "corr_eq xs xs"
  by (induction xs) (simp_all add: close_enough_def)

lemma close_enough_sym: "close_enough x y = close_enough y x"
  by (auto simp: close_enough_def Let_def abs_minus_commute mult.commute)

lemma corr_eq_sym: "corr_eq xs ys = corr_eq ys xs"
  by (induction xs ys rule: corr_eq.induct) (auto simp: close_enough_sym)

lemma cr_step_ok: "(\<exists>t. cr_step lm cm n acc = Inr t) \<longleftrightarrow>
    (lm n = None \<or> cm n = None) \<and> (lm n = None \<and> cm n = None \<longrightarrow> lm ''default'' \<noteq> None)"
  by (cases acc) (auto simp: cr_step_def split: option.splits)

lemma cr_fold_keys:
  assumes "\<And>k c. lm k = Some c \<Longrightarrow> cfg_key c = k" and "\<And>k c. cm k = Some c \<Longrightarrow> cfg_key c = k"
  shows "sfold (cr_step lm cm) ns (ls_init, cs_init) = Inr (ls, cs) \<Longrightarrow>
    mset (map cfg_key ls) + mset (map cfg_key cs) = mset (map cfg_key ls_init) + mset (map cfg_key cs_init) + mset ns \<and>
    (\<forall>k \<in> set (map cfg_key cs). k \<in> set (map cfg_key cs_init) \<or> lm k = None)"
proof (induction ns arbitrary: ls_init cs_init)
  case (Cons n ns)
  obtain ls1 cs1 where st: "cr_step lm cm n (ls_init, cs_init) = Inr (ls1, cs1)"
    and rest: "sfold (cr_step lm cm) ns (ls1, cs1) = Inr (ls, cs)"
    using Cons.prems by auto
  have step: "mset (map cfg_key ls1) + mset (map cfg_key cs1) = mset (map cfg_key ls_init) + mset (map cfg_key cs_init) + {#n#} \<and>
      (\<forall>k \<in> set (map cfg_key cs1). k \<in> set (map cfg_key cs_init) \<or> lm k = None)"
    using st assms by (auto simp: cr_step_def split: option.splits if_splits)
  note IH = Cons.IH [OF rest]
  have i1: "mset (map cfg_key ls) + mset (map cfg_key cs) = mset (map cfg_key ls1) + mset (map cfg_key cs1) + mset ns"
    using conjunct1 [OF IH] .
  have i2: "\<forall>k \<in> set (map cfg_key cs). k \<in> set (map cfg_key cs1) \<or> lm k = None"
    using conjunct2 [OF IH] .
  show ?case
  proof (intro conjI)
    show "mset (map cfg_key ls) + mset (map cfg_key cs) = mset (map cfg_key ls_init) + mset (map cfg_key cs_init) + mset (n # ns)"
      using i1 step by simp
    show "\<forall>k \<in> set (map cfg_key cs). k \<in> set (map cfg_key cs_init) \<or> lm k = None"
    proof
      fix k assume "k \<in> set (map cfg_key cs)"
      with i2 have "k \<in> set (map cfg_key cs1) \<or> lm k = None" by (rule bspec)
      then show "k \<in> set (map cfg_key cs_init) \<or> lm k = None" using conjunct2 [OF step] by (auto dest: bspec)
    qed
  qed
qed simp

lemma data_map_hit: "distinct (map cfg_key cs) \<Longrightarrow> c \<in> set cs \<Longrightarrow> data_map cs (cfg_key c) = Some c"
  unfolding data_map_def by (rule fold_map_upd_hit [where g = "\<lambda>x. x"])

lemma data_map_None: "data_map cs k = None \<longleftrightarrow> k \<notin> set (map cfg_key cs)"
  unfolding data_map_def
  using fold_map_upd_None [where g = "\<lambda>x. x" and f = cfg_key and mi = Map.empty and xs = cs and k = k] by simp

lemma smap_data_map: "distinct (map cfg_key cs) \<Longrightarrow> smap (lookup_or_default err (data_map cs)) (map cfg_key cs) = Inr cs"
  by (rule smap_map_Inr) (simp add: lookup_or_default_def data_map_hit)

lemma cr_fold_exact:
  assumes "\<forall>n \<in> set ns. (lm n = None) \<noteq> (cm n = None)"
  shows "sfold (cr_step lm cm) ns (ls_init, cs_init) =
           Inr (ls_init @ map (\<lambda>n. the (lm n)) (filter (\<lambda>n. lm n \<noteq> None) ns),
                cs_init @ map (\<lambda>n. the (cm n)) (filter (\<lambda>n. cm n \<noteq> None) ns))"
  using assms by (induction ns arbitrary: ls_init cs_init) (auto simp: cr_step_def split: option.splits)

lemma cam_round_trip_okD:
  assumes "cam_round_trip_ok inf_tag d"
  shows "cam_validate d = Inr ()" and "distinct (currencies d)" and "map cfg_key (ir_configs d) = currencies d"
    and "map cfg_key (fx_configs d) = filter (\<lambda>c. c \<noteq> domestic_ccy d) (currencies d)"
    and "distinct (equities d)" and "map cfg_key (eq_configs d) = equities d"
    and "distinct (infindices d)" and "map (\<lambda>i. cfg_key (snd (inf_node inf_tag i))) (inf_configs d) = infindices d"
    and "list_all (inf_tag_ok inf_tag) (inf_configs d)" and "distinct (credit_names d)"
    and "map cfg_key (cr_lgm_configs d) = filter (\<lambda>n. n \<in> set (map cfg_key (cr_lgm_configs d))) (credit_names d)"
    and "map cfg_key (cr_cir_configs d) = filter (\<lambda>n. n \<notin> set (map cfg_key (cr_lgm_configs d))) (credit_names d)"
  using assms unfolding cam_round_trip_ok_def by (blast+)

lemma inf_data_map_tagged:
  assumes "list_all (inf_tag_ok tag) infs"
  shows "inf_data_map (map (inf_node tag) infs) = fold (\<lambda>i m. m(cfg_key (snd (inf_node tag i)) \<mapsto> i)) infs Map.empty"
  unfolding inf_data_map_def fold_map
  apply (rule fold_cong)
  using assms by (auto simp: inf_node_def inf_tag_ok_def list_all_iff split: inf_model_data.splits)

lemma build_inf_round_trip:
  assumes "list_all (inf_tag_ok tag) infs" and "distinct (map (\<lambda>i. cfg_key (snd (inf_node tag i))) infs)"
  shows "build_inf_configs (map (\<lambda>i. cfg_key (snd (inf_node tag i))) infs) (inf_data_map (map (inf_node tag) infs)) [] = Inr infs"
proof -
  have "smap (inf_lookup_or_default (inf_data_map (map (inf_node tag) infs))) (map (\<lambda>i. cfg_key (snd (inf_node tag i))) infs) = Inr infs"
  proof (rule smap_map_Inr)
    fix i assume "i \<in> set infs"
    then have "fold (\<lambda>i m. m(cfg_key (snd (inf_node tag i)) \<mapsto> i)) infs Map.empty (cfg_key (snd (inf_node tag i))) = Some i"
      using fold_map_upd_hit [where g = "\<lambda>x. x", OF assms(2)] by blast
    then show "inf_lookup_or_default (inf_data_map (map (inf_node tag) infs)) (cfg_key (snd (inf_node tag i))) = Inr i"
      by (simp add: inf_data_map_tagged [OF assms(1)] inf_lookup_or_default_def)
  qed
  then show ?thesis by (simp add: build_inf_configs_def)
qed

lemma build_cr_round_trip:
  assumes "distinct ns" and kl: "map cfg_key ls = filter (\<lambda>n. n \<in> set (map cfg_key ls)) ns"
    and kc: "map cfg_key cs = filter (\<lambda>n. n \<notin> set (map cfg_key ls)) ns"
  shows "build_cr_configs ns (data_map ls) (data_map cs) = Inr (ls, cs)"
proof -
  have dl: "distinct (map cfg_key ls)" using assms(1) by (subst kl) simp
  have dc: "distinct (map cfg_key cs)" using assms(1) by (subst kc) simp
  have sc: "set (map cfg_key cs) = {n \<in> set ns. n \<notin> set (map cfg_key ls)}"
    using arg_cong [OF kc, of set] by simp
  have ex: "\<forall>n \<in> set ns. (data_map ls n = None) \<noteq> (data_map cs n = None)"
    using sc by (auto simp: data_map_None)
  have "filter (\<lambda>n. data_map ls n \<noteq> None) ns = filter (\<lambda>n. n \<in> set (map cfg_key ls)) ns"
    by (simp add: data_map_None)
  also have "\<dots> = map cfg_key ls" by (rule kl [symmetric])
  finally have fl: "filter (\<lambda>n. data_map ls n \<noteq> None) ns = map cfg_key ls" .
  have "filter (\<lambda>n. data_map cs n \<noteq> None) ns = filter (\<lambda>n. n \<notin> set (map cfg_key ls)) ns"
    by (rule filter_cong) (use sc in \<open>auto simp: data_map_None\<close>)
  also have "\<dots> = map cfg_key cs" by (rule kc [symmetric])
  finally have fc: "filter (\<lambda>n. data_map cs n \<noteq> None) ns = map cfg_key cs" .
  have ml: "map (\<lambda>n. the (data_map ls n)) (map cfg_key ls) = ls"
    unfolding map_map by (rule map_idI) (simp add: data_map_hit [OF dl])
  have mc: "map (\<lambda>n. the (data_map cs n)) (map cfg_key cs) = cs"
    unfolding map_map by (rule map_idI) (simp add: data_map_hit [OF dc])
  show ?thesis
    unfolding build_cr_configs_def using cr_fold_exact [OF ex, of "[]" "[]"] by (simp only: fl fc ml mc append_Nil)
qed

lemma cam_validate_cong:
  "ir_configs d = ir_configs e \<Longrightarrow> fx_configs d = fx_configs e \<Longrightarrow> cam_validate d = cam_validate e"
  by (simp add: cam_validate_def)

lemma cam_from_xml_cam_to_xml:
  assumes "cam_round_trip_ok inf_tag d"
  shows "cam_from_xml cmb (cam_to_xml inf_tag real_text d) e =
           Inr (d\<lparr>bootstrap_tolerance := real_text (bootstrap_tolerance d),
                  correlations := cmb (map (\<lambda>(k, v). (k, real_text v)) (correlations d))\<rparr>)"
proof -
  note ok = cam_round_trip_okD [OF assms]
  have ir: "build_ir_configs (currencies d) (data_map (ir_configs d)) = Inr (ir_configs d)"
    using smap_data_map [of "ir_configs d" IrConfigMissing] ok(2,3) by (simp add: build_ir_configs_def)
  have fx: "build_fx_configs (domestic_ccy d) (currencies d) (data_map (fx_configs d)) [] = Inr (fx_configs d)"
    using smap_data_map [of "fx_configs d" FxConfigMissing] ok(2,4) by (simp add: build_fx_configs_def)
  have eq: "build_eq_configs (equities d) (data_map (eq_configs d)) [] = Inr (eq_configs d)"
    using smap_data_map [of "eq_configs d" EqConfigMissing] ok(5,6) by (simp add: build_eq_configs_def)
  have inf: "build_inf_configs (infindices d) (inf_data_map (map (inf_node inf_tag) (inf_configs d))) [] = Inr (inf_configs d)"
    using build_inf_round_trip [OF ok(9)] ok(7,8) by simp
  have cr: "build_cr_configs (credit_names d) (data_map (cr_lgm_configs d)) (data_map (cr_cir_configs d)) =
              Inr (cr_lgm_configs d, cr_cir_configs d)"
    by (rule build_cr_round_trip [OF ok(10-12)])
  define d' where "d' = d\<lparr>bootstrap_tolerance := real_text (bootstrap_tolerance d),
                  correlations := cmb (map (\<lambda>(k, v). (k, real_text v)) (correlations d))\<rparr>"
  have v: "cam_validate d' = Inr ()" using ok(1) cam_validate_cong [of d' d] by (simp add: d'_def)
  have rec: "e\<lparr>domestic_ccy := domestic_ccy d, currencies := currencies d, equities := equities d,
        infindices := infindices d, credit_names := credit_names d, bootstrap_tolerance := real_text (bootstrap_tolerance d),
        ir_configs := ir_configs d, fx_configs := fx_configs d, eq_configs := eq_configs d, inf_configs := inf_configs d,
        cr_lgm_configs := cr_lgm_configs d, cr_cir_configs := cr_cir_configs d,
        correlations := cmb (map (\<lambda>(k, v). (k, real_text v)) (correlations d))\<rparr> = d'"
    by (cases d, cases e) (simp add: d'_def)
  show ?thesis
    unfolding d'_def [symmetric]
    by (simp add: cam_from_xml_def cam_to_xml_def inst_corr_from_xml_def inst_corr_to_xml_def Let_def
        ir fx eq inf cr rec v cam_clear_def)
qed

lemma cr_fold_spec:
  "sfold (cr_step lm cm) ns (ls_init, cs_init) =
     (case find (\<lambda>n. \<not> cr_name_ok lm cm n) ns of
        None \<Rightarrow> Inr (ls_init @ fst (cr_spec lm cm ns), cs_init @ snd (cr_spec lm cm ns))
      | Some n \<Rightarrow> Inl (cr_spec_error lm n))"
  by (induction ns arbitrary: ls_init cs_init)
    (auto simp: cr_step_def cr_name_ok_def cr_spec_def cr_spec_error_def split: option.splits)

subsection \<open>Properties\<close>

text \<open>C16. \<open>buildIrConfigs\<close> (lines 429--456) succeeds exactly when every currency has an
  IR configuration or a \<open>default\<close> one exists; otherwise it fails with the missing currency.\<close>

theorem build_ir_configs_succeeds_iff:
  "(\<exists>irs. build_ir_configs ccys m = Inr irs) \<longleftrightarrow> set ccys \<subseteq> dom m \<or> ''default'' \<in> dom m"
  unfolding build_ir_configs_def smap_Inr_ex
  by (auto simp: lookup_or_default_def split: option.splits)

text \<open>C17. For the IR and FX configurations that \<open>fromXML\<close> builds from the parsed sections,
  \<open>validate\<close> (lines 196--202) succeeds exactly when the currency list is non-empty, starts
  with the domestic currency and does not repeat it.\<close>

theorem build_ir_fx_validate_iff:
  assumes ir: "build_ir_configs ccys (data_map irc) = Inr irs"
    and fx: "build_fx_configs dc ccys (data_map fxc) [] = Inr fxs"
  shows "cam_validate (d\<lparr>ir_configs := irs, fx_configs := fxs\<rparr>) = Inr () \<longleftrightarrow>
           ccys \<noteq> [] \<and> hd ccys = dc \<and> dc \<notin> set (tl ccys)"
proof -
  have ki: "map cfg_key irs = ccys" using build_ir_keys [OF ir] by blast
  have kf: "map cfg_key fxs = filter (\<lambda>c. c \<noteq> dc) ccys" using build_fx_keys [OF fx] by simp
  have "irs \<noteq> [] \<longleftrightarrow> ccys \<noteq> []" using ki by auto
  then show ?thesis
    using filter_neq_tl [of ccys dc] by (auto simp: cam_validate_Inr_iff ki kf)
qed

theorem build_ir_fx_validate_iff_witness:
  "\<exists>irs fxs. build_ir_configs [''EUR'', ''USD''] (data_map (x_ir demo_xml)) = Inr irs \<and>
     build_fx_configs ''EUR'' [''EUR'', ''USD''] (data_map (x_fx demo_xml)) [] = Inr fxs \<and>
     cam_validate (empty_cam\<lparr>ir_configs := irs, fx_configs := fxs\<rparr>) = Inr ()"
proof -
  obtain irs where ir: "build_ir_configs [''EUR'', ''USD''] (data_map (x_ir demo_xml)) = Inr irs"
    by (simp add: build_ir_configs_def lookup_or_default_def data_map_def demo_xml_def)
  obtain fxs where fx: "build_fx_configs ''EUR'' [''EUR'', ''USD''] (data_map (x_fx demo_xml)) [] = Inr fxs"
    by (simp add: build_fx_configs_def lookup_or_default_def data_map_def demo_xml_def)
  show ?thesis using build_ir_fx_validate_iff [OF ir fx, of empty_cam] ir fx by auto
qed

text \<open>C18. A successful \<open>fromXML\<close> yields a currency list headed by the domestic currency,
  which occurs only once, one IR configuration per currency in that order, one FX configuration
  per foreign currency in that order, and one equity configuration per equity.\<close>

theorem cam_from_xml_currency_layout:
  assumes "cam_from_xml cmb x d = Inr d'"
  shows "currencies d' \<noteq> [] \<and> hd (currencies d') = domestic_ccy d' \<and> domestic_ccy d' \<notin> set (tl (currencies d')) \<and>
         map cfg_key (ir_configs d') = currencies d' \<and> map cfg_key (fx_configs d') = tl (currencies d') \<and>
         map cfg_key (eq_configs d') = equities d'"
proof -
  obtain irs fxs eqs ls cs where ir: "build_ir_configs (x_currencies x) (data_map (x_ir x)) = Inr irs"
    and fx: "build_fx_configs (x_domestic x) (x_currencies x) (data_map (x_fx x)) [] = Inr fxs"
    and eq: "build_eq_configs (x_equities x) (data_map (x_eq x)) [] = Inr eqs"
    and f: "ir_configs d' = irs" "fx_configs d' = fxs" "eq_configs d' = eqs"
      "domestic_ccy d' = x_domestic x" "currencies d' = x_currencies x" "equities d' = x_equities x"
    and v: "cam_validate d' = Inr ()"
    using assms by (rule cam_from_xml_InrE)
  have ki: "map cfg_key irs = x_currencies x" using build_ir_keys [OF ir] by blast
  have kf: "map cfg_key fxs = filter (\<lambda>c. c \<noteq> x_domestic x) (x_currencies x)" using build_fx_keys [OF fx] by simp
  have ke: "map cfg_key eqs = x_equities x" using build_eq_keys [OF eq] by simp
  have vi: "irs \<noteq> [] \<and> map cfg_key fxs = tl (map cfg_key irs)"
    using v f(1,2) by (simp add: cam_validate_Inr_iff)
  then have ne: "x_currencies x \<noteq> []" using ki by auto
  then have "hd (x_currencies x) = x_domestic x \<and> x_domestic x \<notin> set (tl (x_currencies x))"
    using filter_neq_tl [OF ne] vi ki kf by simp
  then show ?thesis using ne ki kf ke f vi by simp
qed

theorem cam_from_xml_currency_layout_witness:
  "\<exists>d'. cam_from_xml id demo_xml empty_cam = Inr d' \<and> hd (currencies d') = ''EUR'' \<and>
     map cfg_key (fx_configs d') = [''USD'']"
proof -
  obtain d' where r: "cam_from_xml id demo_xml empty_cam = Inr d'"
    by (simp add: cam_from_xml_def demo_xml_def empty_cam_def cam_clear_def data_map_def Let_def
        build_ir_configs_def build_fx_configs_def build_eq_configs_def build_cr_configs_def cr_step_def
        lookup_or_default_def inst_corr_from_xml_def cam_validate_def)
  have "hd (currencies d') = domestic_ccy d' \<and> map cfg_key (fx_configs d') = tl (currencies d')"
    using cam_from_xml_currency_layout [OF r] by blast
  moreover have "domestic_ccy d' = ''EUR''" and "currencies d' = [''EUR'', ''USD'']"
    using r by (auto elim!: cam_from_xml_InrE simp: demo_xml_def)
  ultimately show ?thesis using r by auto
qed

text \<open>C19. \<open>fromXML\<close> starts with \<open>clear()\<close> and overwrites every other member, so its
  result does not depend on the object it is called on, although the FX, equity and
  inflation builders append to their vectors.\<close>

theorem cam_from_xml_ignores_previous_state: "cam_from_xml cmb x d = cam_from_xml cmb x d'"
proof -
  have eq: "(cam_clear d)\<lparr>domestic_ccy := x_domestic x, currencies := x_currencies x,
                  equities := x_equities x, infindices := x_infindices x, credit_names := x_credit_names x,
                  bootstrap_tolerance := x_tolerance x\<rparr> =
        (cam_clear d')\<lparr>domestic_ccy := x_domestic x, currencies := x_currencies x,
                  equities := x_equities x, infindices := x_infindices x, credit_names := x_credit_names x,
                  bootstrap_tolerance := x_tolerance x\<rparr>"
    by (cases d, cases d') (simp add: cam_clear_def)
  show ?thesis unfolding cam_from_xml_def by (simp only: Let_def eq)
qed

text \<open>C20. \<open>buildInfConfigs\<close> (lines 514--549) completes a missing inflation index with an
  unchanged copy of the default data: the copy keeps the default's index name instead of
  taking the missing index's name, unlike the IR, FX, equity and credit builders.\<close>

theorem build_inf_configs_default_not_renamed:
  assumes "mp idx = None" and "mp ''default'' = Some (InfDk c)"
  shows "build_inf_configs [idx] mp infs = Inr (infs @ [InfDk c])"
  using assms by (simp add: build_inf_configs_def inf_lookup_or_default_def)

theorem build_inf_configs_default_not_renamed_witness:
  "build_inf_configs [''CPI''] [''default'' \<mapsto> InfDk \<lparr>cfg_key = ''default'', cfg_params = []\<rparr>] [] =
     Inr [InfDk \<lparr>cfg_key = ''default'', cfg_params = []\<rparr>]"
  using build_inf_configs_default_not_renamed [of "[''default'' \<mapsto> InfDk \<lparr>cfg_key = ''default'', cfg_params = []\<rparr>]"
      "''CPI''" "\<lparr>cfg_key = ''default'', cfg_params = []\<rparr>" "[]"] by simp

text \<open>C21. \<open>CrossAssetModelData::operator==\<close> (lines 133--180) ignores the credit names and
  compares the inflation configurations by number only.\<close>

theorem cam_eq_ignores_credit_names_and_inflation:
  "cam_eq d (d\<lparr>credit_names := cs, inf_configs := ics\<rparr>) \<longleftrightarrow> length ics = length (inf_configs d)"
  by (simp add: cam_eq_def corr_eq_refl eq_commute)

text \<open>C22. \<open>InstantaneousCorrelations::operator==\<close> (lines 115--127) is reflexive and
  symmetric but, because it compares values with \<open>close_enough\<close>, not transitive.\<close>

theorem corr_eq_not_transitive:
  "(\<forall>xs. corr_eq xs xs) \<and> (\<forall>xs ys. corr_eq xs ys = corr_eq ys xs) \<and>
   (\<exists>xs ys zs. corr_eq xs ys \<and> corr_eq ys zs \<and> \<not> corr_eq xs zs)"
proof -
  define e where "e = ql_epsilon"
  have e: "0 < e" by (simp add: e_def ql_epsilon_def)
  have e2: "0 \<le> e * e" by simp
  have a: "close_enough 1 (1 + 31 * e)"
    using e e2 by (simp add: close_enough_pos e_def [symmetric] algebra_simps)
  have b: "close_enough (1 + 31 * e) (1 + 62 * e)"
    using e e2 by (simp add: close_enough_pos e_def [symmetric] algebra_simps)
  have c: "\<not> close_enough 1 (1 + 62 * e)"
    using e e2 by (simp add: close_enough_pos e_def [symmetric] algebra_simps)
  have "corr_eq [((''a'', ''b''), 1)] [((''a'', ''b''), 1 + 31 * e)] \<and>
        corr_eq [((''a'', ''b''), 1 + 31 * e)] [((''a'', ''b''), 1 + 62 * e)] \<and>
        \<not> corr_eq [((''a'', ''b''), 1)] [((''a'', ''b''), 1 + 62 * e)]"
    using a b c by simp
  then show ?thesis using corr_eq_refl corr_eq_sym by blast
qed

text \<open>C23. \<open>buildCrConfigs\<close> (lines 551--586) distributes the credit names over the LGM and
  CIR configurations: together their keys are exactly the credit names (as a multiset), and a
  CIR configuration is used only for names without LGM data.\<close>

theorem build_cr_configs_partition:
  assumes "build_cr_configs ns (data_map l) (data_map c) = Inr (ls, cs)"
  shows "mset (map cfg_key ls) + mset (map cfg_key cs) = mset ns \<and> (\<forall>k \<in> set (map cfg_key cs). data_map l k = None)"
  using cr_fold_keys [where lm = "data_map l" and cm = "data_map c" and ns = ns and ls_init = "[]" and cs_init = "[]"
      and ls = ls and cs = cs, OF data_map_keyed data_map_keyed] assms
  by (simp add: build_cr_configs_def)

theorem build_cr_configs_partition_witness:
  "build_cr_configs [''A'', ''B''] (data_map [\<lparr>cfg_key = ''A'', cfg_params = []\<rparr>]) (data_map [\<lparr>cfg_key = ''B'', cfg_params = []\<rparr>])
     = Inr ([\<lparr>cfg_key = ''A'', cfg_params = []\<rparr>], [\<lparr>cfg_key = ''B'', cfg_params = []\<rparr>]) \<and>
   data_map [\<lparr>cfg_key = ''A'', cfg_params = []\<rparr>] ''B'' = None"
proof -
  have r: "build_cr_configs [''A'', ''B''] (data_map [\<lparr>cfg_key = ''A'', cfg_params = []\<rparr>]) (data_map [\<lparr>cfg_key = ''B'', cfg_params = []\<rparr>])
     = Inr ([\<lparr>cfg_key = ''A'', cfg_params = []\<rparr>], [\<lparr>cfg_key = ''B'', cfg_params = []\<rparr>])"
    by (simp add: build_cr_configs_def cr_step_def data_map_def)
  show ?thesis using build_cr_configs_partition [OF r] r by simp
qed

text \<open>C24. \<open>buildCrConfigs\<close> succeeds exactly when no credit name has both LGM and CIR data
  (rejected by a \<open>QL_REQUIRE\<close> with an empty message) and every name without either has the
  LGM default to fall back on.\<close>

theorem build_cr_configs_succeeds_iff:
  "(\<exists>r. build_cr_configs ns lm cm = Inr r) \<longleftrightarrow>
     (\<forall>n \<in> set ns. (lm n = None \<or> cm n = None) \<and> (lm n = None \<and> cm n = None \<longrightarrow> lm ''default'' \<noteq> None))"
  unfolding build_cr_configs_def by (rule sfold_Inr_ex_indep [OF cr_step_ok])

theorem build_cr_configs_succeeds_iff_witness:
  "\<not> (\<exists>r. build_cr_configs [''A''] [''A'' \<mapsto> \<lparr>cfg_key = ''A'', cfg_params = []\<rparr>] [''A'' \<mapsto> \<lparr>cfg_key = ''A'', cfg_params = []\<rparr>] = Inr r)"
  using build_cr_configs_succeeds_iff [where ns = "[''A'']" and lm = "[''A'' \<mapsto> \<lparr>cfg_key = ''A'', cfg_params = []\<rparr>]"
      and cm = "[''A'' \<mapsto> \<lparr>cfg_key = ''A'', cfg_params = []\<rparr>]"] by simp


text \<open>C25. Take an object that satisfies the round-trip conditions and write it with
  \<open>toXML\<close>. Reading the result back with \<open>fromXML\<close>, on any object, reproduces the
  original. The only changes come from the text rendering of the reals (the tolerance and
  the correlation values) and from the correlation matrix builder that the correlations pass
  through.\<close>

theorem cam_to_xml_round_trip:
  assumes "cam_round_trip_ok inf_tag d"
  shows "cam_from_xml cmb (cam_to_xml inf_tag real_text d) e =
           Inr (d\<lparr>bootstrap_tolerance := real_text (bootstrap_tolerance d),
                  correlations := cmb (map (\<lambda>(k, v). (k, real_text v)) (correlations d))\<rparr>)"
  by (rule cam_from_xml_cam_to_xml [OF assms])

theorem cam_to_xml_round_trip_witness:
  "cam_round_trip_ok demo_inf_tag demo_cam \<and> cam_from_xml id (cam_to_xml demo_inf_tag id demo_cam) empty_cam = Inr demo_cam"
proof -
  have ok: "cam_round_trip_ok demo_inf_tag demo_cam"
    by (simp add: cam_round_trip_ok_def demo_cam_def demo_inf_tag_def inf_node_def inf_tag_ok_def cam_validate_def)
  show ?thesis using cam_to_xml_round_trip [OF ok, of id id empty_cam] ok by (simp add: case_prod_beta)
qed


text \<open>C26. \<open>operator==\<close> was written to unit-test \<open>toXML\<close> against \<open>fromXML\<close> (the
  comment of lines 165--166). After the round trip it holds exactly when two things survive.
  The bootstrap tolerance must come back unchanged from its text rendering, because it is
  compared with \<open>==\<close>. The correlations must come back \<open>close_enough\<close> to the original.\<close>

theorem cam_eq_after_round_trip:
  assumes "cam_round_trip_ok inf_tag d" and "cam_from_xml cmb (cam_to_xml inf_tag real_text d) e = Inr d'"
  shows "cam_eq d d' \<longleftrightarrow>
           real_text (bootstrap_tolerance d) = bootstrap_tolerance d \<and>
           corr_eq (correlations d) (cmb (map (\<lambda>(k, v). (k, real_text v)) (correlations d)))"
proof -
  have "d' = d\<lparr>bootstrap_tolerance := real_text (bootstrap_tolerance d),
                  correlations := cmb (map (\<lambda>(k, v). (k, real_text v)) (correlations d))\<rparr>"
    using assms(2) cam_from_xml_cam_to_xml [OF assms(1), of cmb real_text e] by simp
  then show ?thesis by (simp add: cam_eq_def eq_commute) blast
qed

theorem cam_eq_after_round_trip_witness:
  "cam_round_trip_ok demo_inf_tag demo_cam \<and>
   cam_from_xml id (cam_to_xml demo_inf_tag (\<lambda>x. x) demo_cam) empty_cam =
     Inr (demo_cam\<lparr>correlations := [((''IR:EUR'', ''IR:USD''), 0.5)]\<rparr>) \<and>
   cam_eq demo_cam (demo_cam\<lparr>correlations := [((''IR:EUR'', ''IR:USD''), 0.5)]\<rparr>)"
proof -
  have ok: "cam_round_trip_ok demo_inf_tag demo_cam"
    by (simp add: cam_round_trip_ok_def demo_cam_def demo_inf_tag_def inf_node_def inf_tag_ok_def cam_validate_def)
  have r: "cam_from_xml id (cam_to_xml demo_inf_tag (\<lambda>x. x) demo_cam) empty_cam =
     Inr (demo_cam\<lparr>correlations := [((''IR:EUR'', ''IR:USD''), 0.5)]\<rparr>)"
    using cam_from_xml_cam_to_xml [OF ok, of id "\<lambda>x. x" empty_cam] by (simp add: demo_cam_def case_prod_beta)
  have "cam_eq demo_cam (demo_cam\<lparr>correlations := [((''IR:EUR'', ''IR:USD''), 0.5)]\<rparr>)"
    using cam_eq_after_round_trip [OF ok r] by (simp add: demo_cam_def close_enough_def)
  then show ?thesis using ok r by blast
qed

text \<open>C28. \<open>buildCrConfigs\<close> (lines 551--586) implements the declarative specification.
  If every credit name is acceptable, it returns the LGM and CIR configurations the
  specification selects. Otherwise it fails with the error of the first unacceptable name:
  the empty-message \<open>QL_REQUIRE\<close> when the name has both kinds of data, and the missing-data
  error when it has neither and there is no default.\<close>

theorem build_cr_configs_spec:
  "build_cr_configs ns lm cm =
     (case find (\<lambda>n. \<not> cr_name_ok lm cm n) ns of
        None \<Rightarrow> Inr (cr_spec lm cm ns)
      | Some n \<Rightarrow> Inl (cr_spec_error lm n))"
  unfolding build_cr_configs_def cr_fold_spec by (simp split: option.splits)

theorem build_cr_configs_spec_witness:
  "build_cr_configs [''A'', ''B'', ''C''] [''B'' \<mapsto> \<lparr>cfg_key = ''B'', cfg_params = []\<rparr>] [''B'' \<mapsto> \<lparr>cfg_key = ''B'', cfg_params = []\<rparr>] =
     Inl (CrConfigMissing ''A'') \<and>
   build_cr_configs [''A'', ''B''] [''default'' \<mapsto> \<lparr>cfg_key = ''default'', cfg_params = []\<rparr>] [''B'' \<mapsto> \<lparr>cfg_key = ''B'', cfg_params = []\<rparr>] =
     Inr ([\<lparr>cfg_key = ''A'', cfg_params = []\<rparr>], [\<lparr>cfg_key = ''B'', cfg_params = []\<rparr>])"
proof -
  have a: "build_cr_configs [''A'', ''B'', ''C''] [''B'' \<mapsto> \<lparr>cfg_key = ''B'', cfg_params = []\<rparr>] [''B'' \<mapsto> \<lparr>cfg_key = ''B'', cfg_params = []\<rparr>] =
     Inl (CrConfigMissing ''A'')"
    by (simp add: build_cr_configs_spec cr_name_ok_def cr_spec_error_def)
  have b: "build_cr_configs [''A'', ''B''] [''default'' \<mapsto> \<lparr>cfg_key = ''default'', cfg_params = []\<rparr>] [''B'' \<mapsto> \<lparr>cfg_key = ''B'', cfg_params = []\<rparr>] =
     Inr ([\<lparr>cfg_key = ''A'', cfg_params = []\<rparr>], [\<lparr>cfg_key = ''B'', cfg_params = []\<rparr>])"
    by (simp add: build_cr_configs_spec cr_name_ok_def cr_spec_def)
  show ?thesis using a b by blast
qed

end
