(* ===== verification/SensitivityScenarioData.thy ===== *)
theory SensitivityScenarioData
  imports Prelude
begin

text \<open>
  The parametrisation of sensitivity scenarios, \<open>ore::analytics::SensitivityScenarioData\<close> of
  \<open>src/OREAnalytics/orea/scenario/sensitivityscenariodata.hpp\<close>. The XVA engine receives it
  and stores it, and reads nothing from it. The header holds the shift-data structs, the
  class's members, its default constructor and its accessors. Each accessor returns a member
  by reference, so a read is a record selector and a write through the non-const accessor is a
  record update. \<open>fromXML\<close>, \<open>toXML\<close> and \<open>getIndexCurrency\<close> are only declared: their
  bodies are not in the sources.

  \<open>QuantLib::Period\<close> is a length and a \<open>TimeUnit\<close>. A \<open>std::map\<close> is a partial function.
  A \<open>Real\<close> is a \<open>real\<close>.
\<close>

datatype shift_type = Absolute | Relative
  \<comment> \<open>\<open>enum class ShiftType\<close>, line 48\<close>

datatype time_unit = Days | Weeks | Months | Years | Hours | Minutes | Seconds | Milliseconds | Microseconds
  \<comment> \<open>\<open>QuantLib::TimeUnit\<close>\<close>

type_synonym period = "int \<times> time_unit"
  \<comment> \<open>\<open>QuantLib::Period\<close>\<close>

subsection \<open>The shift-data structs (lines 50--101)\<close>

text \<open>The structs keep their shift type as a free \<open>string\<close>, not as a \<open>shift_type\<close>.\<close>

record curve_shift_data =
  cs_shift_type :: string
  cs_shift_size :: real
  cs_shift_tenors :: "period list"
  cs_par_instruments :: "string list"
  cs_par_instrument_single_curve :: bool
  cs_par_instrument_conventions :: "string \<rightharpoonup> string"

record cap_floor_vol_shift_data =
  cfv_shift_type :: string
  cfv_shift_size :: real
  cfv_shift_expiries :: "period list"
  cfv_shift_strikes :: "real list"   \<comment> \<open>absolute\<close>
  cfv_index_name :: string

record swaption_vol_shift_data =
  sv_shift_type :: string
  sv_shift_size :: real
  sv_shift_expiries :: "period list"
  sv_shift_terms :: "period list"
  sv_shift_strikes :: "real list"
  sv_index_name :: string

record vol_shift_data =
  vs_shift_type :: string
  vs_shift_size :: real
  vs_shift_expiries :: "period list"
  vs_shift_strikes :: "real list"

record spot_shift_data =
  sp_shift_type :: string
  sp_shift_size :: real

record cds_vol_shift_data =
  cdv_ccy :: string
  cdv_shift_type :: string
  cdv_shift_size :: real
  cdv_shift_expiries :: "period list"

record base_correlation_shift_data =
  bc_index_name :: string
  bc_shift_type :: string
  bc_shift_size :: real
  bc_shift_terms :: "period list"
  bc_shift_loss_levels :: "real list"

subsection \<open>The members (lines 229--276) and the default constructor (line 104)\<close>

text \<open>Each name list is paired with the map of shift data keyed by those names. The
  inflation members have no accessor in the header: their getters and setters are commented
  out (lines 138--139 and 191--192).\<close>

record sensitivity_scenario_data =
  par_conversion :: bool
  discount_currencies :: "string list"
  discount_curve_shift_data :: "string \<rightharpoonup> curve_shift_data"
  index_names :: "string list"
  index_curve_shift_data :: "string \<rightharpoonup> curve_shift_data"
  yield_curve_names :: "string list"
  yield_curve_shift_data :: "string \<rightharpoonup> curve_shift_data"
  cap_floor_vol_currencies :: "string list"
  cap_floor_vol_shift_data :: "string \<rightharpoonup> cap_floor_vol_shift_data"
  swaption_vol_currencies :: "string list"
  swaption_vol_shift_data :: "string \<rightharpoonup> swaption_vol_shift_data"
  fx_vol_ccy_pairs :: "string list"
  fx_vol_shift_data :: "string \<rightharpoonup> vol_shift_data"
  fx_ccy_pairs :: "string list"
  fx_shift_data :: "string \<rightharpoonup> spot_shift_data"
  cds_vol_names :: "string list"
  cds_vol_shift_data :: "string \<rightharpoonup> cds_vol_shift_data"
  inflation_indices :: "string list"
  inflation_curve_shift_data :: "string \<rightharpoonup> curve_shift_data"
  ssd_credit_names :: "string list"
  credit_ccys :: "string \<rightharpoonup> string"
  credit_curve_shift_data :: "string \<rightharpoonup> curve_shift_data"
  equity_vol_names :: "string list"
  equity_vol_shift_data :: "string \<rightharpoonup> vol_shift_data"
  equity_names :: "string list"
  equity_shift_data :: "string \<rightharpoonup> spot_shift_data"
  dividend_yield_names :: "string list"
  dividend_yield_shift_data :: "string \<rightharpoonup> curve_shift_data"
  base_correlation_names :: "string list"
  base_correlation_shift_data :: "string \<rightharpoonup> base_correlation_shift_data"
  cross_gamma_filter :: "(string \<times> string) list"

text \<open>\<open>SensitivityScenarioData() : parConversion_(false)\<close>: every other member is
  default-constructed, as an empty vector or an empty map.\<close>

definition ssd_default :: sensitivity_scenario_data where
  "ssd_default =
     \<lparr>par_conversion = False, discount_currencies = [], discount_curve_shift_data = Map.empty,
      index_names = [], index_curve_shift_data = Map.empty, yield_curve_names = [], yield_curve_shift_data = Map.empty,
      cap_floor_vol_currencies = [], cap_floor_vol_shift_data = Map.empty,
      swaption_vol_currencies = [], swaption_vol_shift_data = Map.empty,
      fx_vol_ccy_pairs = [], fx_vol_shift_data = Map.empty, fx_ccy_pairs = [], fx_shift_data = Map.empty,
      cds_vol_names = [], cds_vol_shift_data = Map.empty, inflation_indices = [], inflation_curve_shift_data = Map.empty,
      ssd_credit_names = [], credit_ccys = Map.empty, credit_curve_shift_data = Map.empty,
      equity_vol_names = [], equity_vol_shift_data = Map.empty, equity_names = [], equity_shift_data = Map.empty,
      dividend_yield_names = [], dividend_yield_shift_data = Map.empty,
      base_correlation_names = [], base_correlation_shift_data = Map.empty, cross_gamma_filter = []\<rparr>"

end
