(* ===== verification/Spec2Isabelle.thy ===== *)
theory Spec2Isabelle
  imports Prelude ComputationGraph ForwardEvaluation XvaEngineCG NormalSabr IterativeBootstrap BootstrapLifecycle
    CrossAssetModelData SensitivityScenarioData
begin

text \<open>
  \<^bold>\<open>A shallow embedding of the ORE computation-graph XVA engine.\<close>

  The program is the constructor \<open>XvaEngineCG::XvaEngineCG\<close> of
  \<open>src/OREAnalytics/orea/engine/xvaenginecg.cpp\<close> (lines 37--270) and the components it
  drives. The constructor runs a fixed pipeline. It duplicates the portfolio \<open>N\<close> times
  (lines 55--64). It builds the markets and the cross asset model (lines 73--100, not
  modelled: market and calibration code outside the staged sources). It requires the Euler
  discretisation (lines 106--108). It lets every trade append its pricing subgraph to the
  model's computation graph, recording the node range and the NPV and AMC NPV nodes of
  each trade (lines 168--188). It populates the value of every random-variate node from a
  multi-path generator (lines 199--215), and the constants and the model parameters
  (lines 223--230). Finally it evaluates the graph forward, keeping only the NPV nodes
  alive (lines 240--251).

  Beside the engine, the sources hold three components that the engine's model and curves
  rest on, each modelled in its own theory. The first is the cross asset model
  configuration (\<open>crossassetmodeldata.cpp\<close>), from which the engine's model is built. The
  second is the iterative curve bootstrap (\<open>iterativebootstrap.hpp\<close>), which builds the
  curves of the markets. The third is the normal SABR volatility (\<open>normalsabr.cpp\<close>), a
  pricing formula of the same library.

  \<^bold>\<open>Theories.\<close>
  \<^item> \<open>Prelude\<close>: the error-or-result type (\<open>sbind\<close>, \<open>sfold\<close> for a \<open>for\<close> loop whose
    body throws, \<open>smap\<close>, \<open>nth_checked\<close> for \<open>v[i]\<close>) and \<open>std::to_string\<close> on sizes
    (\<open>nat_to_string\<close>) with its round trip.
  \<^item> \<open>ComputationGraph\<close>: the shared graph (\<open>QuantExt::ComputationGraph\<close>, whose code is
    not in the sources and is modelled from the specification). It is a record of node
    inputs, operators, labels, constant pool, variable table and label prefix. The theory
    proves that every operation preserves the acyclicity invariant \<open>cg_wf\<close> and only
    appends (\<open>cg_extends\<close>).
  \<^item> \<open>ForwardEvaluation\<close>: \<open>forwardEvaluation\<close> with reclamation of consumed values not in
    the keep set, again from the specification. The theorem \<open>forward_evaluation_reclaims\<close>
    shows that it succeeds on every well-formed graph with bound inputs. It agrees with the
    keep-everything reference evaluation on every node it does not release, and the
    reference computes every node.
  \<^item> \<open>XvaEngineCG\<close>: the constructor's own code.
    \<^item> \<open>duplicate_portfolio\<close> is the duplication of lines 55--64 as a concatenation of
      \<open>N\<close> renamed copies. \<open>dup_loop\<close> is the loop of lines 57--63 itself, with its
      \<open>Size\<close> counter as a \<open>64 word\<close>. \<open>dup_bound\<close> models the copy count of line 57: the
      32-bit \<open>int\<close> from \<open>atoi\<close> is sign-extended to the 64-bit \<open>Size\<close> of the counter
      (\<open>scast\<close> from \<open>32 word\<close> to \<open>64 word\<close>).
    \<^item> \<open>add_trade\<close> and \<open>add_trades\<close> model the loop of lines 171--188. The portfolio is the
      list of \<open>portfolio_->trades()\<close> in the map's iteration order. The two \<open>std::map\<close>s of
      the code are association lists updated by \<open>AList.update\<close>. A trade's engine is
      \<open>trade_engine\<close>: the two failing \<open>dynamic_pointer_cast\<close>s and a scripted CG engine
      given by its NPV name and its graph builder.
    \<^item> \<open>populate_random_variates\<close> models lines 199--215. The generator is a state \<open>'s\<close>
      with a step \<open>next\<close> returning a \<open>steps \<times> factors\<close> matrix.
    \<^item> \<open>populate_constants\<close> and \<open>populate_model_parameters\<close> model lines 223--230.
    \<^item> \<open>keep_nodes\<close> models lines 240--244.
    \<^item> \<open>cam_cg_inputs_of\<close> models lines 110--128. These are the hard-coded inputs of the
      model: EUR only, and the simulation dates as the set of the grid's dates.
    \<^item> \<open>xva_engine_cg\<close> composes them as the constructor does.
  \<^item> \<open>NormalSabr\<close>: the whole of \<open>normalsabr.cpp\<close> over exact \<open>real\<close>s. That is
    \<open>normal_sabr_volatility\<close> with the clamping of \<open>alpha\<close> and \<open>rho\<close>, QuantLib's
    \<open>close_enough\<close> (42 ulps), the \<open>QL_REQUIRE\<close> of line 42 as the error \<open>InvalidVol\<close>,
    and the IEEE special values of line 39 as branches (NaN from a negative radicand or log
    argument, \<open>-inf\<close> from a zero log argument). It also has \<open>normal_sabr_alpha_from_atm_vol\<close> and the
    helpers \<open>deltaR\<close>, \<open>gfct\<close>, \<open>R_fct\<close> and \<open>G\<close> of the anonymous namespace. \<open>G\<close> has no
    \<open>return\<close> statement, so it is \<open>None\<close>.
  \<^item> \<open>IterativeBootstrap\<close>: \<open>IterativeBootstrap::setup\<close>, \<open>initialize\<close> and \<open>calculate\<close>.
    \<^item> The state is the record \<open>bootstrap_state\<close>: the helpers, the pillar dates, the
      curve data, \<open>validCurve_\<close> and \<open>loopRequired_\<close>.
    \<^item> Every \<open>QL_REQUIRE\<close> and every \<open>QL_FAIL\<close> is a constructor of \<open>bootstrap_error\<close>.
    \<^item> The curve traits, the interpolation and the two solvers are the abstract functions
      of \<open>bootstrap_traits\<close>.
    \<^item> \<open>first_alive\<close> is the unbounded scan for the first alive helper, and is a
      \<open>partial_function (option)\<close>.
    \<^item> \<open>calc_loop\<close> is the convergence loop and \<open>calculate\<close> is its retry without the
      previous curve.
  \<^item> \<open>BootstrapLifecycle\<close>: the bootstrap object across calls.
    \<^item> \<open>bootstrap_new\<close> is the constructor.
    \<^item> The inductive step relation \<open>bs_step\<close> has three kinds of step: a successful
      \<open>calculate\<close>, a quote changing validity, and date-relative helpers moving.
    \<^item> \<open>bs_reachable\<close> is the set of states reachable from \<open>setup\<close>.
  \<^item> \<open>CrossAssetModelData\<close>: \<open>CrossAssetModelData::fromXML\<close> as \<open>cam_from_xml\<close>, together
    with everything it calls.
    \<^item> The builders \<open>build_ir_configs\<close>, \<open>build_fx_configs\<close>, \<open>build_eq_configs\<close>,
      \<open>build_inf_configs\<close> and \<open>build_cr_configs\<close>.
    \<^item> \<open>InstantaneousCorrelations::fromXML\<close>, and \<open>cam_clear\<close> and \<open>cam_validate\<close>.
    \<^item> Both equality operators, \<open>corr_eq\<close> and \<open>cam_eq\<close>.
    \<^item> \<open>toXML\<close> as \<open>cam_to_xml\<close> and \<open>inst_corr_to_xml\<close>. The node name an inflation
      model writes and the text rendering of a real are parameters.
    \<^item> A parsed XML child is a \<open>config\<close>: its key and its remaining fields. The maps of the
      code are partial functions.
  \<^item> \<open>SensitivityScenarioData\<close>: the data of \<open>sensitivityscenariodata.hpp\<close>. The seven
    shift-data structs and the class's members are records, and \<open>ssd_default\<close> is its
    default constructor. Its accessors are the record selectors and updates. The engine
    stores the object and reads nothing from it.
  \<^item> \<open>Spec2Isabelle\<close> (this theory) holds the end-to-end property.

  \<^bold>\<open>Properties.\<close>
  \<^item> C1 (\<open>xva_engine_cg_outputs\<close>): the end-to-end property. Whenever the pipeline succeeds
    on a well-formed model graph, every NPV and AMC NPV node of every trade holds the value
    computed by evaluating the same graph, on the same populated inputs, without any
    reclamation. Each trade has exactly \<open>1 + #dates\<close> such nodes. Its witness is the
    payoff \<open>max(x - 1, 0)\<close> of the specification on four paths.
  \<^item> C2--C7 (theory \<open>XvaEngineCG\<close>), one per stage:
    \<^item> the node ranges of the trades tile the graph's growth;
    \<^item> the NPV node lists are in bounds and have \<open>1 + #dates\<close> entries;
    \<^item> the retention bitmap marks exactly the NPV nodes;
    \<^item> path \<open>i\<close> of each random-variate node holds the \<open>i\<close>-th draw of the generator and
      every other node is unchanged;
    \<^item> constants, then model parameters, overwrite their nodes in that order;
    \<^item> the duplicated trade ids are distinct.
  \<^item> C8--C9 (theory \<open>NormalSabr\<close>):
    \<^item> the ATM alpha reproduces the ATM volatility (at the money the log argument is
      exactly 1, in doubles as over reals);
    \<^item> \<open>deltaR\<close> as written is not the Taylor remainder its name and shape promise.
  \<^item> C10--C15 (theory \<open>IterativeBootstrap\<close>):
    \<^item> \<open>initialize\<close> yields strictly increasing pillar dates and strictly increasing
      latest relevant dates, and \<open>first_alive\<close> terminates;
    \<^item> a successful \<open>calculate\<close> leaves a valid curve which, when the loop ran, has
      converged to the accuracy;
    \<^item> without a valid curve the loop never asks for a retry;
    \<^item> the loop fails with \<open>NoConvergence\<close> only at the limit and above the accuracy;
    \<^item> the adjusted guess lies in its bracket.
  \<^item> C16--C24 (theory \<open>CrossAssetModelData\<close>):
    \<^item> when the builders succeed, and what the configuration lists hold afterwards;
    \<^item> on built configurations, \<open>validate\<close> succeeds exactly when the currency list is
      non-empty, starts with the domestic currency and does not repeat it;
    \<^item> a successful \<open>fromXML\<close> leaves the configurations keyed in the currency order;
    \<^item> \<open>fromXML\<close> discards the previous state;
    \<^item> the inflation default is not renamed;
    \<^item> the equality operator ignores the credit names and the inflation configurations;
    \<^item> the correlation comparison is not transitive;
    \<^item> the credit names split exactly between the LGM and the CIR lists.
  \<^item> C25--C26 (theory \<open>CrossAssetModelData\<close>):
    \<^item> reading back what \<open>toXML\<close> wrote reproduces the object. This holds for every
      valid object whose configurations are keyed in the order of its distinct name lists.
      The only changes come from the text rendering of reals and from the correlation
      builder;
    \<^item> after that round trip, \<open>operator==\<close> holds exactly when the tolerance survives its
      rendering exactly and the correlations come back \<open>close_enough\<close>.
  \<^item> C27--C28: two refinements of a loop by a declarative specification.
    \<^item> C27 (\<open>IterativeBootstrap\<close>): the convergence measure is the maximum change over
      all alive pillars.
    \<^item> C28 (\<open>CrossAssetModelData\<close>): \<open>buildCrConfigs\<close> returns the filter-defined LGM and
      CIR lists, or the error of the first unacceptable credit name.
  \<^item> C29 (\<open>XvaEngineCG\<close>, a typing property): every value handed to the forward
    evaluation is a random variable with the model's number of paths.
  \<^item> C30 (\<open>IterativeBootstrap\<close>, liveness): if the solvers and the interpolation never fail,
    \<open>calculate\<close> always ends, with a valid curve or with the non-convergence error.
  \<^item> C31--C32 (\<open>BootstrapLifecycle\<close>, by rule induction over the runs of the object):
    \<^item> the vectors of an initialised curve always have \<open>alive + 1\<close> entries, and a valid
      curve is initialised;
    \<^item> \<open>loopRequired_\<close> is never reset.
  \<^item> C33 (\<open>XvaEngineCG\<close>, a refinement): the copy loop \<open>dup_loop\<close>, with its \<open>Size\<close>
    counter run against the sign-extended \<open>N\<close>, computes \<open>duplicate_portfolio\<close> with
    \<open>N\<close> copies for a non-negative \<open>N\<close> and \<open>2^64 + N\<close> copies for a negative one.
  \<^item> C34 (\<open>IterativeBootstrap\<close>, an error path): the quote check reports the first alive
    helper with an invalid quote and ignores expired helpers; \<open>calculate\<close> then fails with
    that error.

  \<^bold>\<open>Bounds and loops.\<close> Every loop of the constructor runs over a finite range
  (\<open>for\<close> over a vector, a map or \<open>[0, n)\<close>), so each is a structural fold and no fuel
  is needed. The bootstrap's loops are different:
  \<^item> The scan for the first alive helper stops only at an alive helper. It is a
    \<open>partial_function (option)\<close>, and C11 proves that it returns whenever the last helper
    is alive, which \<open>initialize\<close> guarantees.
  \<^item> The convergence loop counts a \<open>64 word\<close> up to \<open>maxIterations() - 1\<close>. Its
    termination measure is the unsigned distance to that limit.
  \<^item> The retry runs at most once, because it clears \<open>validCurve_\<close>.
  \<^item> The copy loop of the engine counts a \<open>64 word\<close> up to the converted \<open>N\<close>; its
    termination measure is again the unsigned distance to the bound.
  \<^item> The life of the bootstrap object is an inductive relation rather than a function. It
    has no bound because its runs are unbounded. Every property of it is proved by rule
    induction over \<open>bs_reachable\<close> or over the reflexive-transitive closure of
    \<open>bs_step\<close>. \<open>std::vector::operator[]\<close> out of range is undefined behaviour in C++ and
  is the error \<open>IndexOutOfRange\<close> of the model, so no theorem relies on it.

  \<^bold>\<open>Not modelled.\<close>
  \<^item> Market building, the sim market and the cross asset model builder (lines 73--100):
    their code is not in the sources.
  \<^item> The internals of \<open>GaussianCamCG\<close>: the model is its graph, its size, its
    random-variate table and its parameters (\<open>cam_cg_model\<close>).
  \<^item> Logging and timers.
  \<^item> The operators \<open>getRandomVariableOps\<close>: an arbitrary \<open>op_table\<close>.
  \<^item> In \<open>CrossAssetModelData\<close>:
    \<^item> the XML parsing and writing of the individual configuration classes, whose code
      is not in the sources: a configuration's node reads back as the same configuration;
    \<^item> the \<open>CorrelationMatrixBuilder\<close>.
  \<^item> In the bootstrap: observer registration (\<open>registerWith\<close>, \<open>setTermStructure\<close>) and
    the internals of the solvers and of the interpolation.
  \<^item> Floating-point rounding in \<open>NormalSabr\<close>. The permitted libraries have no IEEE
    double type. Over exact reals the log argument of line 39 is always positive, so
    the model never reaches the NaN and \<open>-inf\<close> branches. In doubles it cancels to 0 or
    below for large negative \<open>zeta\<close> with \<open>rho\<close> near 1, and the code returns the floor
    or throws. So properties that hold only in exact arithmetic (the sign of \<open>x\<close>,
    reflection symmetry, absence of the line-42 error) are not claimed of the code.
  \<^item> \<open>marketdata.hpp\<close> holds only declarations of string and market-lookup helpers. Their
    bodies are not in the sources, and the doc comments fix only \<open>xccyCurveName\<close>. In
    \<open>sensitivityscenariodata.hpp\<close>, \<open>fromXML\<close>, \<open>toXML\<close> and \<open>getIndexCurrency\<close> are
    declared without bodies.
\<close>

subsection \<open>The example of the specification: a call payoff on four paths\<close>

text \<open>A model with one random-variate input node \<open>x\<close> (node 0), four paths and one
  simulation step, and a portfolio with one trade whose subgraph is the single node
  \<open>max(x - 1, 0)\<close> (operator 1), registered as its NPV and as its AMC NPV.\<close>

definition payoff_model :: cam_cg_model where
  "payoff_model = \<lparr>model_graph = \<lparr>cg_preds = [[]], cg_op = [0], cg_labels = [[''x'']], cg_constants = [],
      cg_variables = [], cg_prefix = []\<rparr>, model_size = 4, model_random_variates = [[0]], model_parameters = []\<rparr>"

definition payoff_ops :: "operand op_table" where
  "payoff_ops opid args = (if opid = 1 then map (\<lambda>x. max (x - 1) 0) (hd args) else hd args)"

definition payoff_portfolio :: portfolio where
  "payoff_portfolio = [(''T'', ScriptedEngineCG ''Npv'' (one_node_builder ''Npv'' True 1 [0]))]"

subsection \<open>End-to-end property\<close>

text \<open>C1: when the engine runs to completion on a well-formed model graph with trades whose
  builders keep the graph well formed, the discretisation is Euler, and every NPV and AMC NPV
  node of every trade (one for time zero and one per simulation date) holds the value that
  the reference evaluation of the same graph on the same populated inputs computes, without
  any reclamation; that value is defined.\<close>

theorem xva_engine_cg_outputs:
  assumes run: "xva_engine_cg disc m nd pf mk_gen next ops = Inr (amc, vals)"
    and wf: "cg_wf (model_graph m)" and ok: "\<forall>t \<in> set pf. engine_ok (snd t)"
  shows "disc = Euler \<and>
    (\<exists>st v1 v2 v3 ref. add_trades nd pf (initial_trade_state m) = Inr st \<and> amc = amc_npv_nodes st \<and>
       populate_random_variates (model_size m) (model_random_variates m) next
         (mk_gen (length (model_random_variates m)) (length (hd (model_random_variates m))))
         (replicate (cg_size (tg_graph st)) (replicate (model_size m) 0)) = Inr v1 \<and>
       populate_constants (model_size m) (cg_constants (tg_graph st)) v1 = Inr v2 \<and>
       populate_model_parameters (model_size m) (model_parameters m) v2 = Inr v3 \<and>
       reference_evaluation (tg_graph st) (map Some v3) ops = Inr ref \<and>
       length vals = cg_size (tg_graph st) \<and>
       (\<forall>e \<in> set amc. length (snd e) = Suc nd \<and>
          (\<forall>n \<in> set (snd e). n < length vals \<and> ref ! n \<noteq> None \<and> vals ! n = ref ! n)))"
proof -
  have eu: "disc = Euler" using run by (auto simp: xva_engine_cg_def split: if_splits)
  then obtain st v1 v2 v3 keep where
        st: "add_trades nd pf (initial_trade_state m) = Inr st"
    and v1: "populate_random_variates (model_size m) (model_random_variates m) next
         (mk_gen (length (model_random_variates m)) (length (hd (model_random_variates m))))
         (replicate (cg_size (tg_graph st)) (replicate (model_size m) 0)) = Inr v1"
    and v2: "populate_constants (model_size m) (cg_constants (tg_graph st)) v1 = Inr v2"
    and v3: "populate_model_parameters (model_size m) (model_parameters m) v2 = Inr v3"
    and kp: "keep_nodes (cg_size (tg_graph st)) (amc_npv_nodes st) = Inr keep"
    and fe: "map_sum EvaluationError id (forward_evaluation (tg_graph st) (map Some v3) ops keep) = Inr vals"
    and amc: "amc = amc_npv_nodes st"
    using run by (simp add: xva_engine_cg_def Let_def) blast
  define g where "g = tg_graph st"
  have ok0: "amc_nodes_ok nd (tg_graph (initial_trade_state m)) (amc_npv_nodes (initial_trade_state m))"
    by (simp add: amc_nodes_ok_def initial_trade_state_def)
  have amc_ok: "amc_nodes_ok nd g (amc_npv_nodes st)"
    using add_trades_amc [OF st ok _ ok0] wf by (simp add: g_def initial_trade_state_def)
  have gwf: "cg_wf g"
    using add_trades_graph [OF st ok] wf by (simp add: g_def initial_trade_state_def)
  have lenv: "length v3 = cg_size g"
    using populate_random_variates_length [OF v1] broadcast_into_length v2 v3
    by (simp add: g_def populate_constants_def populate_model_parameters_def)
  have bnd: "\<forall>n \<in> set (concat (map snd (amc_npv_nodes st))). n < cg_size g"
    using amc_ok by (auto simp: amc_nodes_ok_def)
  have keep: "keep = fold (\<lambda>i ys. ys[i := True]) (concat (map snd (amc_npv_nodes st))) (replicate (cg_size g) False)"
    using keep_nodes_Inr [OF bnd] kp by (simp add: g_def)
  have klen: "length keep = cg_size g" by (simp add: keep)
  have kept: "keep ! n" if "n \<in> set (concat (map snd (amc_npv_nodes st)))" for n
  proof -
    have "n < length (replicate (cg_size g) False)" using that bnd by (simp only: length_replicate)
    from fold_update_const_nth [OF this, of True] that show ?thesis by (simp only: keep) simp
  qed
  have ib: "inputs_bound g (map Some v3)"
    using lenv by (simp add: inputs_bound_def)
  obtain ws rs where ws: "forward_evaluation g (map Some v3) ops keep = Inr ws"
    and rs: "reference_evaluation g (map Some v3) ops = Inr rs"
    and wlen: "length ws = cg_size g"
    and agree: "\<forall>p < cg_size g. rs ! p \<noteq> None \<and> ws ! p = (if released g keep p then None else rs ! p)"
    using forward_evaluation_reclaims [OF gwf klen _ ib, of ops] lenv by auto
  have vals: "vals = ws" using fe ws by (simp add: g_def)
  show ?thesis
  proof (intro conjI exI)
    show "\<forall>e \<in> set amc. length (snd e) = Suc nd \<and>
          (\<forall>n \<in> set (snd e). n < length vals \<and> rs ! n \<noteq> None \<and> vals ! n = rs ! n)"
    proof (intro ballI conjI)
      fix e n assume e: "e \<in> set amc"
      then show "length (snd e) = Suc nd" using amc_ok amc by (simp add: amc_nodes_ok_def)
      assume n: "n \<in> set (snd e)"
      then have nc: "n \<in> set (concat (map snd (amc_npv_nodes st)))" using e amc by auto
      then have nlt: "n < cg_size g" using bnd by blast
      then show "n < length vals" using vals wlen by simp
      show "rs ! n \<noteq> None" using agree nlt by blast
      show "vals ! n = rs ! n" using agree nlt kept [OF nc] vals by (simp add: released_def)
    qed
  qed (use eu st v1 v2 v3 rs amc vals wlen in \<open>simp_all add: g_def\<close>)
qed

theorem xva_engine_cg_outputs_witness:
  "xva_engine_cg Euler payoff_model 1 payoff_portfolio (\<lambda>_ _. 0::nat) (\<lambda>g. ([[real g + 2]], g + 1)) payoff_ops
     = Inr ([(''T'', [1, 1])], [None, Some [1, 2, 3, 4]]) \<and>
   (\<exists>st v3 ref. add_trades 1 payoff_portfolio (initial_trade_state payoff_model) = Inr st \<and>
      reference_evaluation (tg_graph st) (map Some v3) payoff_ops = Inr ref \<and>
      ref ! 1 = Some [1, 2, 3, 4])"
proof -
  have run: "xva_engine_cg Euler payoff_model 1 payoff_portfolio (\<lambda>_ _. 0::nat) (\<lambda>g. ([[real g + 2]], g + 1)) payoff_ops
     = Inr ([(''T'', [1, 1])], [None, Some [1, 2, 3, 4]])"
    by code_simp
  have wf: "cg_wf (model_graph payoff_model)"
    by (simp add: payoff_model_def cg_wf_def cg_size_def)
  have ok: "\<forall>t \<in> set payoff_portfolio. engine_ok (snd t)"
    by (simp add: payoff_portfolio_def engine_ok_def one_node_builder_ok)
  from xva_engine_cg_outputs [OF run wf ok] obtain st v3 ref where
    st: "add_trades 1 payoff_portfolio (initial_trade_state payoff_model) = Inr st"
    and ref: "reference_evaluation (tg_graph st) (map Some v3) payoff_ops = Inr ref"
    and out: "\<forall>e \<in> set [(''T'', [1::nat, 1])]. \<forall>n \<in> set (snd e).
                 ref ! n \<noteq> None \<and> [None, Some [1, 2, 3, 4]] ! n = ref ! n"
    by blast
  from out have "ref ! 1 = Some [1, 2, 3, 4]" by simp
  with run st ref show ?thesis by blast
qed
end
